(* ===== verification/Prelude.thy ===== *)
theory Prelude
  imports Main "HOL-Library.Word" "HOL-Library.Code_Target_Nat"
begin

text \<open>
  Shared vocabulary of the development: the machine types of the Rust source, results
  (\<open>Result<T, E>\<close> as a sum, the \<open>?\<close> operator as \<open>and_then\<close>), byte strings with their
  little- and big-endian readings, XOR of byte strings, slices, and the random source.

  \<^item> \<open>u8\<close> \<dots> \<open>u64\<close> are words of that width; a length or an offset (\<open>usize\<close>) is a \<open>nat\<close>.
  \<^item> A panic is the value \<^term>\<open>None\<close> of an option; an \<open>Err\<close> is the left side of a sum.
  \<^item> A random source is the tape of bytes its \<open>fill_bytes\<close> calls write, one after the
    other: whatever an implementation returns, the bytes it wrote in one execution form
    such a tape, so a statement about every tape is a statement about every source.
\<close>

unbundle bit_operations_syntax

named_theorems codec_simps \<open>reading back what was written\<close>
named_theorems length_simps \<open>lengths of byte strings\<close>
named_theorems range_simps \<open>bounds of drawn values\<close>

section \<open>Machine types and results\<close>

type_synonym u8 = "8 word"
type_synonym u16 = "16 word"
type_synonym u32 = "32 word"
type_synonym u64 = "64 word"
type_synonym bytes = "8 word list"

abbreviation Err :: "'e \<Rightarrow> 'e + 'a" where "Err \<equiv> Inl"
abbreviation Ok :: "'a \<Rightarrow> 'e + 'a" where "Ok \<equiv> Inr"

definition and_then :: "'e + 'a \<Rightarrow> ('a \<Rightarrow> 'e + 'b) \<Rightarrow> 'e + 'b" where
  "and_then m f = (case m of Inl e \<Rightarrow> Inl e | Inr x \<Rightarrow> f x)"

definition map_err :: "('e \<Rightarrow> 'f) \<Rightarrow> 'e + 'a \<Rightarrow> 'f + 'a" where
  "map_err f m = (case m of Inl e \<Rightarrow> Inl (f e) | Inr x \<Rightarrow> Inr x)"

definition ok_or :: "'a option \<Rightarrow> 'e \<Rightarrow> 'e + 'a" where
  "ok_or x e = (case x of None \<Rightarrow> Inl e | Some y \<Rightarrow> Inr y)"

lemma and_then_simps [simp]:
  "and_then (Inl e) f = Inl e"
  "and_then (Inr x) f = f x"
  by (simp_all add: and_then_def)

lemma map_err_simps [simp]:
  "map_err f (Inl e) = Inl (f e)"
  "map_err f (Inr x) = Inr x"
  by (simp_all add: map_err_def)

lemma ok_or_simps [simp]:
  "ok_or None e = Inl e"
  "ok_or (Some y) e = Inr y"
  by (simp_all add: ok_or_def)

lemma and_then_eq_Inr: "and_then m f = Inr y \<longleftrightarrow> (\<exists>x. m = Inr x \<and> f x = Inr y)"
  by (cases m) simp_all

lemma and_then_eq_Inl: "and_then m f = Inl e \<longleftrightarrow> m = Inl e \<or> (\<exists>x. m = Inr x \<and> f x = Inl e)"
  by (cases m) auto

lemma map_err_eq_Inr [simp]: "map_err f m = Inr y \<longleftrightarrow> m = Inr y"
  by (cases m) simp_all

lemma map_err_eq_Inl: "map_err f m = Inl e \<longleftrightarrow> (\<exists>e'. m = Inl e' \<and> e = f e')"
  by (cases m) auto

lemma ok_or_eq_Inr [simp]: "ok_or x e = Inr y \<longleftrightarrow> x = Some y"
  by (cases x) simp_all

lemma ok_or_eq_Inl [simp]: "ok_or x e = Inl e' \<longleftrightarrow> x = None \<and> e' = e"
  by (cases x) auto

definition is_ok :: "'e + 'a \<Rightarrow> bool" where
  "is_ok m = (case m of Inl _ \<Rightarrow> False | Inr _ \<Rightarrow> True)"

lemma is_ok_simps [simp]: "\<not> is_ok (Inl e)" "is_ok (Inr x)"
  by (simp_all add: is_ok_def)

lemma is_ok_iff: "is_ok m \<longleftrightarrow> (\<exists>x. m = Inr x)"
  by (cases m) simp_all

section \<open>Slices\<close>

text \<open>\<open>&xs[i..j]\<close>; the callers below only take slices they have checked to be in range.\<close>

definition slice :: "'a list \<Rightarrow> nat \<Rightarrow> nat \<Rightarrow> 'a list" where
  "slice xs i j = take (j - i) (drop i xs)"

lemma length_slice [simp, length_simps]: "length (slice xs i j) = min (j - i) (length xs - i)"
  by (simp add: slice_def)

lemma slice_append_left: "j \<le> length xs \<Longrightarrow> slice (xs @ ys) i j = slice xs i j"
  by (cases "i \<le> j") (auto simp: slice_def)

lemma slice_append_right: "length xs \<le> i \<Longrightarrow> slice (xs @ ys) i j = slice ys (i - length xs) (j - length xs)"
  by (auto simp: slice_def)

lemma slice_full [simp]: "length xs \<le> j \<Longrightarrow> slice xs 0 j = xs"
  by (simp add: slice_def)

lemma slice_same [simp]: "slice xs i i = []"
  by (simp add: slice_def)

lemma slice_middle [codec_simps]:
  "length xs = i \<Longrightarrow> length ys = j - i \<Longrightarrow> i \<le> j \<Longrightarrow> slice (xs @ ys @ zs) i j = ys"
  by (simp add: slice_def)

lemma slice_split: "i \<le> j \<Longrightarrow> j \<le> k \<Longrightarrow> slice xs i j @ slice xs j k = slice xs i k"
proof -
  assume "i \<le> j" "j \<le> k"
  then have "k - i = (j - i) + (k - j)" and "drop (j - i) (drop i xs) = drop j xs"
    by simp_all
  then show ?thesis
    unfolding slice_def by (simp only: take_add)
qed

section \<open>Byte order\<close>

text \<open>\<open>x.to_le_bytes()\<close> of an \<open>n\<close>-byte integer, and \<open>from_le_bytes\<close>.\<close>

fun le_bytes :: "nat \<Rightarrow> 'a::len word \<Rightarrow> bytes" where
  "le_bytes 0 w = []"
| "le_bytes (Suc n) w = ucast w # le_bytes n (drop_bit 8 w)"

fun of_le_bytes :: "bytes \<Rightarrow> 'a::len word" where
  "of_le_bytes [] = 0"
| "of_le_bytes (b # bs) = ucast b OR push_bit 8 (of_le_bytes bs)"

definition be_bytes :: "nat \<Rightarrow> 'a::len word \<Rightarrow> bytes" where
  "be_bytes n w = rev (le_bytes n w)"

definition of_be_bytes :: "bytes \<Rightarrow> 'a::len word" where
  "of_be_bytes bs = of_le_bytes (rev bs)"

lemma length_le_bytes [simp, length_simps]: "length (le_bytes n w) = n"
  by (induction n arbitrary: w) simp_all

lemma length_be_bytes [simp, length_simps]: "length (be_bytes n w) = n"
  by (simp add: be_bytes_def)

lemma of_le_bytes_le_bytes: "of_le_bytes (le_bytes n w) = take_bit (8 * n) w"
proof (induction n arbitrary: w)
  case (Suc n)
  show ?case
    by (rule bit_eqI) (auto simp: Suc.IH bit_simps)
qed simp

lemma drop_bit_cons_byte:
  "drop_bit 8 (ucast (b :: u8) OR push_bit 8 w) = (take_bit (LENGTH('a) - 8) w :: 'a::len word)"
  by (rule bit_eqI) (auto simp: bit_simps dest: bit_imp_le_length)

lemma le_bytes_take_bit: "8 * n \<le> k \<Longrightarrow> le_bytes n (take_bit k w) = le_bytes n w"
proof (induction n arbitrary: w k)
  case (Suc n)
  have "(ucast (take_bit k w) :: u8) = ucast w"
    using Suc.prems by (intro bit_eqI) (auto simp: bit_simps)
  then show ?case
    using Suc.prems by (simp add: drop_bit_take_bit Suc.IH)
qed simp

lemma le_bytes_of_le_bytes:
  "8 * length bs \<le> LENGTH('a) \<Longrightarrow> le_bytes (length bs) (of_le_bytes bs :: 'a::len word) = bs"
proof (induction bs)
  case (Cons b bs)
  have "(ucast (ucast b OR push_bit 8 (of_le_bytes bs) :: 'a word) :: u8) = b"
    using Cons.prems by (intro bit_eqI) (auto simp: bit_simps)
  then show ?case
    using Cons by (simp add: drop_bit_cons_byte le_bytes_take_bit del: drop_bit_or)
qed simp

lemma of_be_bytes_be_bytes: "of_be_bytes (be_bytes n w) = take_bit (8 * n) w"
  by (simp add: of_be_bytes_def be_bytes_def of_le_bytes_le_bytes)

text \<open>
  A fixed-width field of a message: what the reader relies on is that a field is
  \<open>width\<close> bytes and reads back as what was written.
\<close>

locale byte_codec =
  fixes enc :: "'v \<Rightarrow> bytes" and dec :: "bytes \<Rightarrow> 'v" and width :: nat
  assumes dec_enc: "dec (enc v) = v"
    and length_enc: "length (enc v) = width"
begin

lemma enc_inject: "enc v = enc w \<longleftrightarrow> v = w"
  by (metis dec_enc)

lemma read_field: "length pre = i \<Longrightarrow> j = i + width \<Longrightarrow> dec (slice (pre @ enc v @ post) i j) = v"
  by (simp add: slice_def length_enc dec_enc)

lemma read_first: "j = width \<Longrightarrow> dec (slice (enc v @ post) 0 j) = v"
  using read_field [of "[]" 0 j v post] by simp

end

interpretation le16: byte_codec "le_bytes 2 :: u16 \<Rightarrow> bytes" of_le_bytes 2
  by unfold_locales (simp_all add: of_le_bytes_le_bytes take_bit_word_eq_self)

interpretation le32: byte_codec "le_bytes 4 :: u32 \<Rightarrow> bytes" of_le_bytes 4
  by unfold_locales (simp_all add: of_le_bytes_le_bytes take_bit_word_eq_self)

interpretation le64: byte_codec "le_bytes 8 :: u64 \<Rightarrow> bytes" of_le_bytes 8
  by unfold_locales (simp_all add: of_le_bytes_le_bytes take_bit_word_eq_self)

interpretation be16: byte_codec "be_bytes 2 :: u16 \<Rightarrow> bytes" of_be_bytes 2
  by unfold_locales (simp_all add: of_be_bytes_be_bytes take_bit_word_eq_self)

interpretation be32: byte_codec "be_bytes 4 :: u32 \<Rightarrow> bytes" of_be_bytes 4
  by unfold_locales (simp_all add: of_be_bytes_be_bytes take_bit_word_eq_self)

interpretation be64: byte_codec "be_bytes 8 :: u64 \<Rightarrow> bytes" of_be_bytes 8
  by unfold_locales (simp_all add: of_be_bytes_be_bytes take_bit_word_eq_self)

lemmas codec_dec_enc [simp, codec_simps] =
  le16.dec_enc le32.dec_enc le64.dec_enc be16.dec_enc be32.dec_enc be64.dec_enc

section \<open>Reading words as numbers\<close>

lemma unat_lt2p: "unat (w :: 'a::len word) < 2 ^ LENGTH('a)"
  by (rule unsigned_less)

lemma unat_lt_u8 [simp]: "unat (w :: u8) < 256"
  using unat_lt2p [of w] by simp

lemma unat_lt_u16 [simp]: "unat (w :: u16) < 65536"
  using unat_lt2p [of w] by simp

lemma unat_lt_u32 [simp]: "unat (w :: u32) < 4294967296"
  using unat_lt2p [of w] by simp

lemma unat_lt_u64 [simp]: "unat (w :: u64) < 18446744073709551616"
  using unat_lt2p [of w] by simp

lemma unat_add_small:
  "unat a + unat b < 2 ^ LENGTH('a) \<Longrightarrow> unat (a + b :: 'a::len word) = unat a + unat b"
  by (simp add: unat_add_lem [symmetric])

lemma unat_of_nat_small:
  "n < 2 ^ LENGTH('a) \<Longrightarrow> unat (of_nat n :: 'a::len word) = n"
  by (simp add: unat_of_nat take_bit_nat_eq_self)

lemma unat_inc_small:
  "unat w + 1 < 2 ^ LENGTH('a) \<Longrightarrow> unat (w + 1 :: 'a::len word) = unat w + 1"
  using unat_add_small [of w 1] by simp

lemma unat_diff_le: "b \<le> a \<Longrightarrow> unat (a - b :: 'a::len word) = unat a - unat b"
  by (simp add: unat_sub_if_size word_le_nat_alt)

lemma unat_ucast_small:
  "unat w < 2 ^ LENGTH('b) \<Longrightarrow> unat (ucast (w :: 'a::len word) :: 'b::len word) = unat w"
  by (simp add: unsigned_ucast_eq take_bit_nat_eq_self)

lemma unat_ucast_up:
  assumes "LENGTH('a) \<le> LENGTH('b)"
  shows "unat (ucast (w :: 'a::len word) :: 'b::len word) = unat w"
proof (rule unat_ucast_small)
  have "(2 :: nat) ^ LENGTH('a) \<le> 2 ^ LENGTH('b)"
    using assms by (simp add: power_increasing)
  then show "unat w < 2 ^ LENGTH('b)"
    using unat_lt2p [of w] by linarith
qed

lemma unat_ucast_widen [simp]:
  "unat (ucast (b :: u8) :: u16) = unat b" "unat (ucast (b :: u8) :: u32) = unat b"
  "unat (ucast (b :: u8) :: u64) = unat b" "unat (ucast (h :: u16) :: u32) = unat h"
  "unat (ucast (h :: u16) :: u64) = unat h" "unat (ucast (w :: u32) :: u64) = unat w"
  by (simp_all add: unat_ucast_up)

section \<open>XOR with a keystream\<close>

text \<open>
  \<open>for (byte, mask_byte) in xs.iter_mut().zip(mask) { *byte ^= mask_byte }\<close>: the bytes
  past the end of the mask stay as they are.
\<close>

fun xor_prefix :: "bytes \<Rightarrow> bytes \<Rightarrow> bytes" where
  "xor_prefix [] ms = []"
| "xor_prefix (x # xs) [] = x # xs"
| "xor_prefix (x # xs) (m # ms) = (x XOR m) # xor_prefix xs ms"

lemma length_xor_prefix [simp, length_simps]: "length (xor_prefix xs ms) = length xs"
  by (induction xs ms rule: xor_prefix.induct) simp_all

lemma xor_prefix_Nil [simp]: "xor_prefix xs [] = xs"
  by (cases xs) simp_all

lemma xor_prefix_involution [simp, codec_simps]: "xor_prefix (xor_prefix xs ms) ms = xs"
  by (induction xs ms rule: xor_prefix.induct) (simp_all add: xor.assoc)

lemma xor_prefix_nth:
  "i < length xs \<Longrightarrow> xor_prefix xs ms ! i = (if i < length ms then xs ! i XOR ms ! i else xs ! i)"
  by (induction xs ms arbitrary: i rule: xor_prefix.induct) (auto simp: nth_Cons split: nat.splits)

lemma xor_prefix_zeros: "xor_prefix (replicate n 0) ms = take n ms @ replicate (n - length ms) 0"
proof (induction n arbitrary: ms)
  case (Suc n)
  then show ?case by (cases ms) simp_all
qed simp

lemma take_xor_prefix [codec_simps]: "take n (xor_prefix xs ms) = xor_prefix (take n xs) (take n ms)"
proof (induction xs ms arbitrary: n rule: xor_prefix.induct)
  case (3 x xs m ms)
  then show ?case by (cases n) simp_all
qed (simp_all add: take_Cons split: nat.splits)

lemma drop_xor_prefix [codec_simps]: "drop n (xor_prefix xs ms) = xor_prefix (drop n xs) (drop n ms)"
proof (induction xs ms arbitrary: n rule: xor_prefix.induct)
  case (3 x xs m ms)
  then show ?case by (cases n) simp_all
qed simp_all

lemma xor_prefix_take_mask: "length xs \<le> n \<Longrightarrow> xor_prefix xs (take n ms) = xor_prefix xs ms"
proof (induction xs ms arbitrary: n rule: xor_prefix.induct)
  case (3 x xs m ms)
  then show ?case by (cases n) simp_all
qed simp_all

lemma xor_prefix_append:
  "length xs = length ms \<Longrightarrow> xor_prefix (xs @ ys) (ms @ ns) = xor_prefix xs ms @ xor_prefix ys ns"
  by (induction xs ms rule: list_induct2) simp_all

text \<open>
  A symmetric mask: a transformation keyed by some context that keeps the length and is
  its own inverse. Header protection and the Phobos keystream are both used this way.
\<close>

locale symmetric_mask =
  fixes mask :: "'k \<Rightarrow> bytes \<Rightarrow> bytes"
  assumes mask_involution: "mask k (mask k xs) = xs"
    and mask_length: "length (mask k xs) = length xs"
begin

lemma mask_inject: "mask k xs = mask k ys \<longleftrightarrow> xs = ys"
  by (metis mask_involution)

lemma mask_bij: "bij (mask k)"
  by (rule bij_betw_byWitness [where f' = "mask k"]) (auto simp: mask_involution)

end

section \<open>Writing into buffers, and panics\<close>

text \<open>
  \<open>out[off..off + bs.len()].copy_from_slice(bs)\<close>: \<^const>\<open>None\<close> is the panic of a range that
  ends past the buffer.
\<close>

definition write_at :: "bytes \<Rightarrow> nat \<Rightarrow> bytes \<Rightarrow> bytes option" where
  "write_at out off bs =
     (if off + length bs \<le> length out then Some (take off out @ bs @ drop (off + length bs) out) else None)"

lemma write_at_length: "write_at out off bs = Some out' \<Longrightarrow> length out' = length out"
  by (auto simp: write_at_def split: if_splits)

lemma write_at_append:
  "length pre = off \<Longrightarrow> length mid = length bs \<Longrightarrow> write_at (pre @ mid @ post) off bs = Some (pre @ bs @ post)"
  by (simp add: write_at_def)

text \<open>Code that may return an error or panic; \<open>bind_res\<close> is \<open>?\<close> on such code.\<close>

type_synonym ('e, 'a) fallible = "('e + 'a) option"

definition bind_res :: "('e, 'a) fallible \<Rightarrow> ('a \<Rightarrow> ('e, 'b) fallible) \<Rightarrow> ('e, 'b) fallible" where
  "bind_res m f = (case m of None \<Rightarrow> None | Some (Inl e) \<Rightarrow> Some (Inl e) | Some (Inr x) \<Rightarrow> f x)"

lemma bind_res_simps [simp]:
  "bind_res None f = None"
  "bind_res (Some (Inl e)) f = Some (Inl e)"
  "bind_res (Some (Inr x)) f = f x"
  by (simp_all add: bind_res_def)

lemma bind_res_eq_Inr: "bind_res m f = Some (Inr y) \<longleftrightarrow> (\<exists>x. m = Some (Inr x) \<and> f x = Some (Inr y))"
  by (auto simp: bind_res_def split: option.splits sum.splits)

lemma bind_res_cong [fundef_cong]:
  "m = m' \<Longrightarrow> (\<And>x. m' = Some (Inr x) \<Longrightarrow> f x = g x) \<Longrightarrow> bind_res m f = bind_res m' g"
  by (simp add: bind_res_def split: option.splits sum.splits)

section \<open>The random tape\<close>

type_synonym rng = "nat \<Rightarrow> u8"

definition fill_bytes :: "nat \<Rightarrow> rng \<Rightarrow> bytes \<times> rng" where
  "fill_bytes n r = (map r [0..<n], \<lambda>i. r (n + i))"

text \<open>The tape that starts with the given bytes.\<close>

definition tape :: "bytes \<Rightarrow> rng \<Rightarrow> rng" where
  "tape bs r i = (if i < length bs then bs ! i else r (i - length bs))"

lemma length_fill_bytes [simp, length_simps]: "length (fst (fill_bytes n r)) = n"
  by (simp add: fill_bytes_def)

lemma fill_bytes_length: "fill_bytes n r = (bs, r') \<Longrightarrow> length bs = n"
  by (auto simp: fill_bytes_def)

lemma fill_bytes_tape: "fill_bytes (length bs) (tape bs r) = (bs, r)"
proof -
  have "map (tape bs r) [0..<length bs] = bs"
    by (rule nth_equalityI) (simp_all add: tape_def)
  moreover have "(\<lambda>i. tape bs r (length bs + i)) = r"
    by (simp add: tape_def)
  ultimately show ?thesis
    by (simp add: fill_bytes_def)
qed

lemma fill_bytes_add:
  "fill_bytes (m + n) r =
     (let (xs, r1) = fill_bytes m r; (ys, r2) = fill_bytes n r1 in (xs @ ys, r2))"
proof -
  have "map r [0..<m + n] = map r [0..<m] @ map (\<lambda>i. r (m + i)) [0..<n]"
    by (rule nth_equalityI) (auto simp: nth_append)
  then show ?thesis
    by (simp add: fill_bytes_def add.assoc)
qed

end
