(* ===== verification/Randomness.thy ===== *)
theory Randomness
  imports Prelude
begin

text \<open>
  The sources of randomness of \<open>src/awgtun/src/amnezia.rs\<close>: the \<open>RandomSource\<close> trait
  with its default methods, and the buffered per-thread generator behind \<open>FastRandom\<close>.

  A run of a program draws a sequence of bytes from its source; the components that only
  consume randomness take that sequence as a tape (\<^typ>\<open>rng\<close>), and the default methods of
  the trait are given for an arbitrary implementor (\<open>gen_range_u32_with\<close>) and for the tape
  (\<open>gen_range_u32\<close>). The locale \<open>random_source\<close> is the contract of an implementor; both the
  tape and the buffered generator are instances. The ChaCha20 cipher is not part of the
  sources: its keystream is the parameter \<open>ks\<close>, a function of key, nonce and position. The
  operating system's generator is a tape as well.
\<close>

section \<open>RandomSource\<close>

definition checked_add_u32 :: "u32 \<Rightarrow> u32 \<Rightarrow> u32 option" where
  "checked_add_u32 a b = (if unat a + unat b < 2 ^ 32 then Some (a + b) else None)"

definition scale_u32 :: "u32 \<Rightarrow> u32 \<Rightarrow> u32 \<Rightarrow> u32" where
  "scale_u32 lo hi raw =
     (case checked_add_u32 (hi - lo) 1 of
        Some span \<Rightarrow> lo + (raw mod span)
      | None \<Rightarrow> raw)"

definition gen_range_u32_with ::
  "(nat \<Rightarrow> 's \<Rightarrow> (bytes \<times> 's) option) \<Rightarrow> u32 \<Rightarrow> u32 \<Rightarrow> 's \<Rightarrow> (u32 \<times> 's) option" where
  "gen_range_u32_with fill lo hi s =
     (if lo \<ge> hi then Some (lo, s)
      else case fill 4 s of
             None \<Rightarrow> None
           | Some (buf, s') \<Rightarrow> Some (scale_u32 lo hi (of_le_bytes buf), s'))"

definition gen_range_u32 :: "u32 \<Rightarrow> u32 \<Rightarrow> rng \<Rightarrow> u32 \<times> rng" where
  "gen_range_u32 lo hi r =
     (if lo \<ge> hi then (lo, r)
      else let (buf, r') = fill_bytes 4 r in (scale_u32 lo hi (of_le_bytes buf), r'))"

definition gen_range_u16 :: "u16 \<Rightarrow> u16 \<Rightarrow> rng \<Rightarrow> u16 \<times> rng" where
  "gen_range_u16 lo hi r =
     (let (v, r') = gen_range_u32 (ucast lo) (ucast hi) r in (ucast v, r'))"

lemma gen_range_u32_with_tape:
  "gen_range_u32_with (\<lambda>n r. Some (fill_bytes n r)) lo hi r = Some (gen_range_u32 lo hi r)"
  by (simp add: gen_range_u32_with_def gen_range_u32_def split: prod.splits)

text \<open>
  Both branches of the scaling are one formula on numbers: the full span is the modulus
  \<open>2 ^ 32\<close>, which leaves the drawn value alone.
\<close>

lemma unat_scale_u32:
  assumes "lo < hi"
  shows "unat (scale_u32 lo hi raw) = unat lo + unat raw mod (unat hi - unat lo + 1)"
proof (cases "unat (hi - lo) + 1 < 2 ^ 32")
  case True
  have d: "unat (hi - lo) = unat hi - unat lo"
    using assms by (simp add: unat_diff_le less_imp_le)
  have s: "unat (hi - lo + 1) = unat hi - unat lo + 1"
    using True d by (simp add: unat_add_small)
  have "unat lo + unat raw mod (unat hi - unat lo + 1) \<le> unat hi"
    using assms mod_less_divisor [of "unat hi - unat lo + 1" "unat raw"]
    by (simp add: word_less_nat_alt del: mod_less_divisor)
  then have "unat (lo + raw mod (hi - lo + 1)) = unat lo + unat raw mod (unat hi - unat lo + 1)"
    using s le_less_trans [OF _ unat_lt_u32 [of hi]]
    by (subst unat_add_small) (simp_all add: unat_mod_distrib)
  then show ?thesis
    using True by (simp add: scale_u32_def checked_add_u32_def)
next
  case False
  then have full: "\<not> unat hi - unat lo + 1 < 4294967296"
    using assms by (simp add: unat_diff_le less_imp_le)
  then have "unat lo = 0 \<and> unat hi = 4294967295"
    using unat_lt_u32 [of hi] by linarith
  then show ?thesis
    using False by (simp add: scale_u32_def checked_add_u32_def)
qed

lemma scale_u32_bounds [range_simps]:
  assumes "lo < hi"
  shows "lo \<le> scale_u32 lo hi raw \<and> scale_u32 lo hi raw \<le> hi"
  using assms mod_less_divisor [of "unat hi - unat lo + 1" "unat raw"]
  by (simp add: word_le_nat_alt word_less_nat_alt unat_scale_u32 del: mod_less_divisor)

lemma scale_u32_onto:
  assumes "lo < hi" "lo \<le> v" "v \<le> hi"
  shows "scale_u32 lo hi (v - lo) = v"
  using assms
  by (intro word_unat_eq_iff [THEN iffD2])
     (simp add: unat_scale_u32 unat_diff_le word_le_nat_alt)

section \<open>The contract of a source\<close>

locale random_source =
  fixes fill :: "nat \<Rightarrow> 's \<Rightarrow> (bytes \<times> 's) option" and inv :: "'s \<Rightarrow> bool"
  assumes fill_returns: "inv s \<Longrightarrow> \<exists>bs s'. fill n s = Some (bs, s')"
    and fill_result: "inv s \<Longrightarrow> fill n s = Some (bs, s') \<Longrightarrow> length bs = n \<and> inv s'"
begin

lemma gen_range_returns:
  assumes "inv s" and "lo \<le> hi"
  shows "\<exists>v s'. gen_range_u32_with fill lo hi s = Some (v, s') \<and> lo \<le> v \<and> v \<le> hi \<and> inv s'"
proof (cases "lo \<ge> hi")
  case True
  then show ?thesis
    using assms by (simp add: gen_range_u32_with_def)
next
  case False
  obtain bs s' where "fill 4 s = Some (bs, s')"
    using fill_returns assms(1) by blast
  then show ?thesis
    using False fill_result [OF assms(1)] scale_u32_bounds [of lo hi]
    by (auto simp: gen_range_u32_with_def)
qed

lemma gen_range_inverted: "hi \<le> lo \<Longrightarrow> gen_range_u32_with fill lo hi s = Some (lo, s)"
  by (simp add: gen_range_u32_with_def)

end

interpretation tape_source: random_source "\<lambda>n r. Some (fill_bytes n r)" "\<lambda>r. True"
  by unfold_locales (auto simp: fill_bytes_def)

lemma gen_range_u32_bounds:
  assumes "lo \<le> hi"
  shows "lo \<le> fst (gen_range_u32 lo hi r)" and "fst (gen_range_u32 lo hi r) \<le> hi"
  using tape_source.gen_range_returns [OF TrueI assms, of r]
  by (auto simp: gen_range_u32_with_tape)

lemma gen_range_u32_inverted: "hi \<le> lo \<Longrightarrow> gen_range_u32 lo hi r = (lo, r)"
  by (simp add: gen_range_u32_def)

lemma gen_range_u32_onto:
  assumes "lo \<le> v" "v \<le> hi"
  shows "\<exists>r. fst (gen_range_u32 lo hi r) = v"
proof (cases "lo < hi")
  case True
  have "fill_bytes 4 (tape (le_bytes 4 (v - lo)) (\<lambda>_. 0)) = (le_bytes 4 (v - lo), \<lambda>_. 0)"
    using fill_bytes_tape [of "le_bytes 4 (v - lo)"] by simp
  then have "fst (gen_range_u32 lo hi (tape (le_bytes 4 (v - lo)) (\<lambda>_. 0))) = v"
    using True assms by (auto simp: gen_range_u32_def scale_u32_onto)
  then show ?thesis by blast
next
  case False
  then have "hi = lo" "v = lo"
    using assms by auto
  then show ?thesis
    by (simp add: gen_range_u32_def)
qed

lemma gen_range_u16_bounds:
  assumes "lo \<le> hi"
  shows "lo \<le> fst (gen_range_u16 lo hi r) \<and> fst (gen_range_u16 lo hi r) \<le> hi"
proof -
  define v where "v = fst (gen_range_u32 (ucast lo) (ucast hi) r)"
  have "(ucast lo :: u32) \<le> ucast hi"
    using assms by (simp add: word_le_nat_alt)
  then have "ucast lo \<le> v" "v \<le> ucast hi"
    using gen_range_u32_bounds unfolding v_def by blast+
  then have "unat lo \<le> unat v" "unat v \<le> unat hi"
    by (simp_all add: word_le_nat_alt)
  moreover from this have "unat (ucast v :: u16) = unat v"
    by (intro unat_ucast_small) (simp add: le_less_trans [OF _ unat_lt_u16])
  ultimately show ?thesis
    by (simp add: gen_range_u16_def v_def word_le_nat_alt case_prod_unfold Let_def)
qed

section \<open>FastRngState\<close>

definition FAST_RNG_BUFFER_SIZE :: nat where
  "FAST_RNG_BUFFER_SIZE = 256"

definition FAST_RNG_RESEED_INTERVAL :: nat where
  "FAST_RNG_RESEED_INTERVAL = 2 ^ 20"

type_synonym keystream = "bytes \<Rightarrow> bytes \<Rightarrow> nat \<Rightarrow> u8"

record fast_rng =
  fr_key :: bytes
  fr_block :: u64
  fr_buffer :: bytes
  fr_used :: nat
  fr_since_reseed :: nat
  fr_generation :: nat

text \<open>
  \<open>gen\<close> is the value of \<open>FORK_GENERATION\<close> at the call, \<open>os\<close> the tape of the operating
  system's generator.
\<close>

definition note_fork :: "nat \<Rightarrow> nat" where
  "note_fork gen = gen + 1"

definition fast_rng_reseed :: "nat \<Rightarrow> rng \<times> fast_rng \<Rightarrow> rng \<times> fast_rng" where
  "fast_rng_reseed gen = (\<lambda>(os, st).
     let (key, os') = fill_bytes 32 os
     in (os', st\<lparr>fr_key := key, fr_block := 0, fr_since_reseed := 0, fr_generation := gen,
                 fr_used := FAST_RNG_BUFFER_SIZE\<rparr>))"

definition fast_rng_new :: "nat \<Rightarrow> rng \<Rightarrow> rng \<times> fast_rng" where
  "fast_rng_new gen os = fast_rng_reseed gen (os,
     \<lparr>fr_key = replicate 32 0, fr_block = 0, fr_buffer = replicate FAST_RNG_BUFFER_SIZE 0,
      fr_used = FAST_RNG_BUFFER_SIZE, fr_since_reseed = FAST_RNG_RESEED_INTERVAL,
      fr_generation = 0\<rparr>)"

definition fast_rng_nonce :: "u64 \<Rightarrow> bytes" where
  "fast_rng_nonce block = le_bytes 8 block @ replicate 4 0"

definition fast_rng_refill :: "keystream \<Rightarrow> nat \<Rightarrow> rng \<times> fast_rng \<Rightarrow> rng \<times> fast_rng" where
  "fast_rng_refill ks gen s =
     (let (os, st) = (if fr_since_reseed (snd s) \<ge> FAST_RNG_RESEED_INTERVAL
                      then fast_rng_reseed gen s else s);
          nonce = fast_rng_nonce (fr_block st);
          zeros = replicate FAST_RNG_BUFFER_SIZE 0
      in (os, st\<lparr>fr_block := fr_block st + 1,
                 fr_buffer := xor_prefix zeros (map (ks (fr_key st) nonce) [0..<FAST_RNG_BUFFER_SIZE]),
                 fr_used := 0,
                 fr_since_reseed := fr_since_reseed st + FAST_RNG_BUFFER_SIZE\<rparr>))"

text \<open>
  The loop of \<open>fill\<close>, on the number of bytes still to write. \<^const>\<open>None\<close> is the overflow
  of \<open>FAST_RNG_BUFFER_SIZE - self.used\<close>, which panics.
\<close>

function fast_rng_fill_loop ::
  "keystream \<Rightarrow> nat \<Rightarrow> nat \<Rightarrow> rng \<times> fast_rng \<Rightarrow> (bytes \<times> rng \<times> fast_rng) option" where
  "fast_rng_fill_loop ks gen n s =
     (if n = 0 then Some ([], s)
      else let (os, st) = (if fr_used (snd s) = FAST_RNG_BUFFER_SIZE
                           then fast_rng_refill ks gen s else s)
           in if fr_used st \<ge> FAST_RNG_BUFFER_SIZE then None
              else let k = min n (FAST_RNG_BUFFER_SIZE - fr_used st);
                       chunk = slice (fr_buffer st) (fr_used st) (fr_used st + k)
                   in case fast_rng_fill_loop ks gen (n - k) (os, st\<lparr>fr_used := fr_used st + k\<rparr>) of
                        None \<Rightarrow> None
                      | Some (bs, s') \<Rightarrow> Some (chunk @ bs, s'))"
  by pat_completeness auto
termination
  by (relation "measure (\<lambda>(ks, gen, n, s). n)") auto

definition fast_rng_fill ::
  "keystream \<Rightarrow> nat \<Rightarrow> nat \<Rightarrow> rng \<times> fast_rng \<Rightarrow> (bytes \<times> rng \<times> fast_rng) option" where
  "fast_rng_fill ks gen n s =
     fast_rng_fill_loop ks gen n
       (if fr_generation (snd s) \<noteq> gen then fast_rng_reseed gen s else s)"

declare fast_rng_fill_loop.simps [simp del]

subsection \<open>The generator without a buffer\<close>

text \<open>
  What the buffered generator promises: the bytes of the keystreams of the successive keys in
  order, each position of each keystream once, a new key from the operating system after
  \<^const>\<open>FAST_RNG_RESEED_INTERVAL\<close> bytes.
\<close>

record stream_pos =
  sp_key :: bytes
  sp_pos :: nat

definition stream_byte :: "keystream \<Rightarrow> stream_pos \<Rightarrow> u8" where
  "stream_byte ks p = ks (sp_key p) (fast_rng_nonce (of_nat (sp_pos p div FAST_RNG_BUFFER_SIZE)))
                         (sp_pos p mod FAST_RNG_BUFFER_SIZE)"

fun stream_fill :: "keystream \<Rightarrow> nat \<Rightarrow> rng \<times> stream_pos \<Rightarrow> bytes \<times> rng \<times> stream_pos" where
  "stream_fill ks 0 s = ([], s)"
| "stream_fill ks (Suc n) (os, p) =
     (let (os1, p1) = (if sp_pos p = FAST_RNG_RESEED_INTERVAL
                       then (let (k, os') = fill_bytes 32 os in (os', \<lparr>sp_key = k, sp_pos = 0\<rparr>))
                       else (os, p));
          (bs, s') = stream_fill ks n (os1, p1\<lparr>sp_pos := sp_pos p1 + 1\<rparr>)
      in (stream_byte ks p1 # bs, s'))"

definition fast_rng_abs :: "fast_rng \<Rightarrow> stream_pos" where
  "fast_rng_abs st = \<lparr>sp_key = fr_key st,
     sp_pos = fr_since_reseed st - (FAST_RNG_BUFFER_SIZE - fr_used st)\<rparr>"

definition fast_rng_inv :: "keystream \<Rightarrow> fast_rng \<Rightarrow> bool" where
  "fast_rng_inv ks st \<longleftrightarrow>
     length (fr_key st) = 32 \<and> length (fr_buffer st) = FAST_RNG_BUFFER_SIZE \<and>
     fr_used st \<le> FAST_RNG_BUFFER_SIZE \<and>
     fr_since_reseed st = unat (fr_block st) * FAST_RNG_BUFFER_SIZE \<and>
     fr_since_reseed st \<le> FAST_RNG_RESEED_INTERVAL \<and>
     (fr_used st < FAST_RNG_BUFFER_SIZE \<longrightarrow>
        fr_block st \<noteq> 0 \<and>
        fr_buffer st = map (ks (fr_key st) (fast_rng_nonce (fr_block st - 1))) [0..<FAST_RNG_BUFFER_SIZE])"

lemmas fast_rng_consts = FAST_RNG_BUFFER_SIZE_def FAST_RNG_RESEED_INTERVAL_def

lemma stream_fill_add:
  "stream_fill ks (m + n) s =
     (let (xs, s1) = stream_fill ks m s; (ys, s2) = stream_fill ks n s1 in (xs @ ys, s2))"
proof (induction m arbitrary: s)
  case (Suc m)
  then show ?case
    by (cases s) (simp add: Let_def case_prod_unfold)
qed simp

lemma stream_fill_run:
  "sp_pos p + n \<le> FAST_RNG_RESEED_INTERVAL \<Longrightarrow>
   stream_fill ks n (os, p) =
     (map (\<lambda>i. stream_byte ks (p\<lparr>sp_pos := sp_pos p + i\<rparr>)) [0..<n], os, p\<lparr>sp_pos := sp_pos p + n\<rparr>)"
proof (induction n arbitrary: p)
  case (Suc n)
  have "stream_fill ks n (os, p\<lparr>sp_pos := sp_pos p + 1\<rparr>) =
          (map (\<lambda>i. stream_byte ks (p\<lparr>sp_pos := sp_pos p + Suc i\<rparr>)) [0..<n], os,
           p\<lparr>sp_pos := sp_pos p + Suc n\<rparr>)"
    using Suc by simp
  then show ?case
    using Suc.prems by (simp add: upt_conv_Cons map_Suc_upt [symmetric] comp_def del: upt_Suc)
qed simp

lemma fast_rng_buffer_slice:
  assumes "fast_rng_inv ks st" "fr_used st + k \<le> FAST_RNG_BUFFER_SIZE" "fr_used st < FAST_RNG_BUFFER_SIZE"
  shows "slice (fr_buffer st) (fr_used st) (fr_used st + k) =
         map (\<lambda>i. stream_byte ks ((fast_rng_abs st)\<lparr>sp_pos := sp_pos (fast_rng_abs st) + i\<rparr>)) [0..<k]"
proof -
  define b where "b = unat (fr_block st) - 1"
  have nz: "fr_block st \<noteq> 0"
    using assms(1,3) by (simp add: fast_rng_inv_def)
  then have block: "unat (fr_block st) = Suc b" "of_nat b = fr_block st - 1"
    by (simp_all add: b_def unat_gt_0 of_nat_diff Suc_leI)
  have pos: "sp_pos (fast_rng_abs st) = b * 256 + fr_used st"
    using assms block by (simp add: fast_rng_abs_def fast_rng_inv_def fast_rng_consts)
  have "ks (fr_key st) (fast_rng_nonce (fr_block st - 1)) (fr_used st + i) =
        stream_byte ks ((fast_rng_abs st)\<lparr>sp_pos := sp_pos (fast_rng_abs st) + i\<rparr>)" if "i < k" for i
  proof -
    have "(b * 256 + fr_used st + i) div 256 = b" "(b * 256 + fr_used st + i) mod 256 = fr_used st + i"
      using that assms(2) by (simp_all add: fast_rng_consts add.assoc)
    then show ?thesis
      by (simp add: stream_byte_def pos block(2) FAST_RNG_BUFFER_SIZE_def) (simp add: fast_rng_abs_def)
  qed
  then show ?thesis
    using assms by (intro nth_equalityI) (simp_all add: slice_def fast_rng_inv_def fast_rng_consts)
qed

lemma fast_rng_reseed_inv:
  assumes "fast_rng_inv ks st"
  shows "fast_rng_inv ks (snd (fast_rng_reseed gen (os, st)))"
    and "fr_generation (snd (fast_rng_reseed gen (os, st))) = gen"
  using assms by (simp_all add: fast_rng_reseed_def fast_rng_inv_def fast_rng_consts case_prod_unfold Let_def)

lemma fast_rng_refill_reseeded:
  assumes "fast_rng_inv ks st" "fr_since_reseed st < FAST_RNG_RESEED_INTERVAL"
    and "fast_rng_refill ks gen (os, st) = (os', st')" "fr_used st = FAST_RNG_BUFFER_SIZE"
  shows "fast_rng_inv ks st'" and "fr_used st' = 0" and "fr_generation st' = fr_generation st"
    and "fast_rng_abs st' = fast_rng_abs st" and "os' = os"
proof -
  have st': "st' = st\<lparr>fr_block := fr_block st + 1,
       fr_buffer := map (ks (fr_key st) (fast_rng_nonce (fr_block st))) [0..<FAST_RNG_BUFFER_SIZE],
       fr_used := 0, fr_since_reseed := fr_since_reseed st + FAST_RNG_BUFFER_SIZE\<rparr>" and "os' = os"
    using assms(2,3) by (auto simp: fast_rng_refill_def xor_prefix_zeros Let_def)
  have "unat (fr_block st) * 256 < 2 ^ 20"
    using assms(1,2) by (simp add: fast_rng_inv_def fast_rng_consts)
  then have small: "unat (fr_block st) < 4096" by simp
  then have inc: "unat (fr_block st + 1) = unat (fr_block st) + 1"
    by (intro unat_inc_small) simp
  then have "fr_block st + 1 \<noteq> 0"
    by (metis add_is_0 unat_0_iff zero_neq_one)
  then show "fast_rng_inv ks st'"
    using assms(1) inc small by (simp add: st' fast_rng_inv_def fast_rng_consts)
  show "fr_used st' = 0" "fr_generation st' = fr_generation st" "os' = os"
    by (simp_all add: st' \<open>os' = os\<close>)
  show "fast_rng_abs st' = fast_rng_abs st"
    using assms(4) by (simp add: st' fast_rng_abs_def)
qed

lemma fast_rng_refill_step:
  assumes "fast_rng_inv ks st" "fr_used st = FAST_RNG_BUFFER_SIZE" "fr_generation st = gen"
    and "fast_rng_refill ks gen (os, st) = (os', st')" "0 < n"
  shows "fast_rng_inv ks st' \<and> fr_used st' = 0 \<and> fr_generation st' = gen"
    and "stream_fill ks n (os, fast_rng_abs st) = stream_fill ks n (os', fast_rng_abs st')"
proof -
  have "(fast_rng_inv ks st' \<and> fr_used st' = 0 \<and> fr_generation st' = gen) \<and>
        stream_fill ks n (os, fast_rng_abs st) = stream_fill ks n (os', fast_rng_abs st')"
  proof (cases "fr_since_reseed st < FAST_RNG_RESEED_INTERVAL")
    case True
    then show ?thesis
      using fast_rng_refill_reseeded [OF assms(1) True assms(4,2)] assms(3) by simp
  next
    case False
    obtain os1 st1 where r: "fast_rng_reseed gen (os, st) = (os1, st1)"
      by fastforce
    have st1: "fr_since_reseed st1 = 0" "fr_used st1 = FAST_RNG_BUFFER_SIZE" "fr_generation st1 = gen"
        "fast_rng_abs st1 = \<lparr>sp_key = fst (fill_bytes 32 os), sp_pos = 0\<rparr>"
        "os1 = snd (fill_bytes 32 os)"
      using r by (auto simp: fast_rng_reseed_def fast_rng_abs_def split: prod.splits)
    have inv1: "fast_rng_inv ks st1"
      using r fast_rng_reseed_inv(1) [OF assms(1), of gen os] by simp
    have r': "fast_rng_refill ks gen (os1, st1) = (os', st')"
      using False assms(4) r st1(1) by (simp add: fast_rng_refill_def FAST_RNG_RESEED_INTERVAL_def)
    have full: "sp_pos (fast_rng_abs st) = FAST_RNG_RESEED_INTERVAL"
      using False assms(1,2) by (simp add: fast_rng_abs_def fast_rng_inv_def)
    have "stream_fill ks n (os, fast_rng_abs st) = stream_fill ks n (os1, fast_rng_abs st1)"
      using assms(5) full st1(4,5) by (cases n) (simp_all add: case_prod_unfold Let_def fast_rng_consts)
    moreover have "fr_since_reseed st1 < FAST_RNG_RESEED_INTERVAL"
      using st1(1) by (simp add: fast_rng_consts)
    ultimately show ?thesis
      using fast_rng_refill_reseeded [OF inv1 _ r' st1(2)] st1(3) by simp
  qed
  then show "fast_rng_inv ks st' \<and> fr_used st' = 0 \<and> fr_generation st' = gen"
    and "stream_fill ks n (os, fast_rng_abs st) = stream_fill ks n (os', fast_rng_abs st')"
    by blast+
qed

lemma fast_rng_ready_step:
  assumes "fast_rng_inv ks st" "fr_generation st = gen"
    and "(if fr_used st = FAST_RNG_BUFFER_SIZE then fast_rng_refill ks gen (os, st) else (os, st)) = (os', st')"
    and "0 < n"
  shows "fast_rng_inv ks st' \<and> fr_used st' < FAST_RNG_BUFFER_SIZE \<and> fr_generation st' = gen"
    and "stream_fill ks n (os, fast_rng_abs st) = stream_fill ks n (os', fast_rng_abs st')"
proof (atomize (full), cases "fr_used st = FAST_RNG_BUFFER_SIZE")
  case True
  then show "(fast_rng_inv ks st' \<and> fr_used st' < FAST_RNG_BUFFER_SIZE \<and> fr_generation st' = gen) \<and>
      stream_fill ks n (os, fast_rng_abs st) = stream_fill ks n (os', fast_rng_abs st')"
    using fast_rng_refill_step [OF assms(1) True assms(2) _ assms(4)] assms(3)
    by (simp add: FAST_RNG_BUFFER_SIZE_def)
next
  case False
  then show "(fast_rng_inv ks st' \<and> fr_used st' < FAST_RNG_BUFFER_SIZE \<and> fr_generation st' = gen) \<and>
      stream_fill ks n (os, fast_rng_abs st) = stream_fill ks n (os', fast_rng_abs st')"
    using assms by (auto simp: fast_rng_inv_def)
qed

lemma fast_rng_take_step:
  assumes "fast_rng_inv ks st" "fr_used st < FAST_RNG_BUFFER_SIZE"
    and "k = min n (FAST_RNG_BUFFER_SIZE - fr_used st)" "st' = st\<lparr>fr_used := fr_used st + k\<rparr>"
  shows "fast_rng_inv ks st'"
    and "stream_fill ks k (os, fast_rng_abs st) =
           (slice (fr_buffer st) (fr_used st) (fr_used st + k), os, fast_rng_abs st')"
proof -
  have k: "fr_used st + k \<le> FAST_RNG_BUFFER_SIZE"
    using assms(2,3) by simp
  then show "fast_rng_inv ks st'"
    using assms by (simp add: fast_rng_inv_def)
  have "0 < unat (fr_block st)"
    using assms(1,2) by (simp add: fast_rng_inv_def unat_gt_0)
  then have big: "FAST_RNG_BUFFER_SIZE \<le> fr_since_reseed st"
    using assms(1) by (simp add: fast_rng_inv_def)
  moreover have "fr_since_reseed st \<le> FAST_RNG_RESEED_INTERVAL"
    using assms(1) by (simp add: fast_rng_inv_def)
  ultimately have "sp_pos (fast_rng_abs st) + k \<le> FAST_RNG_RESEED_INTERVAL"
    using k by (simp add: fast_rng_abs_def)
  moreover have "(fast_rng_abs st)\<lparr>sp_pos := sp_pos (fast_rng_abs st) + k\<rparr> = fast_rng_abs st'"
    using k big by (simp add: fast_rng_abs_def assms(4))
  ultimately show "stream_fill ks k (os, fast_rng_abs st) =
           (slice (fr_buffer st) (fr_used st) (fr_used st + k), os, fast_rng_abs st')"
    using fast_rng_buffer_slice [OF assms(1) k assms(2)] by (simp add: stream_fill_run)
qed

lemma fast_rng_fill_loop_refines:
  assumes "fast_rng_inv ks st" "fr_generation st = gen"
  shows "\<exists>bs os' st'. fast_rng_fill_loop ks gen n (os, st) = Some (bs, os', st') \<and>
           stream_fill ks n (os, fast_rng_abs st) = (bs, os', fast_rng_abs st') \<and>
           fast_rng_inv ks st' \<and> fr_generation st' = gen"
  using assms
proof (induction n arbitrary: os st rule: less_induct)
  case (less n)
  show ?case
  proof (cases "n = 0")
    case True
    then show ?thesis
      using less.prems by (simp add: fast_rng_fill_loop.simps)
  next
    case False
    obtain os1 st1 where s1: "(if fr_used st = FAST_RNG_BUFFER_SIZE
        then fast_rng_refill ks gen (os, st) else (os, st)) = (os1, st1)"
      by fastforce
    have st1: "fast_rng_inv ks st1 \<and> fr_used st1 < FAST_RNG_BUFFER_SIZE \<and> fr_generation st1 = gen"
      and eq1: "stream_fill ks n (os, fast_rng_abs st) = stream_fill ks n (os1, fast_rng_abs st1)"
      using fast_rng_ready_step [OF less.prems s1] False by blast+
    define k where "k = min n (FAST_RNG_BUFFER_SIZE - fr_used st1)"
    define st2 where "st2 = st1\<lparr>fr_used := fr_used st1 + k\<rparr>"
    have k: "0 < k" "k \<le> n"
      using False st1 by (auto simp: k_def)
    have t: "fast_rng_inv ks st2" "stream_fill ks k (os1, fast_rng_abs st1) =
        (slice (fr_buffer st1) (fr_used st1) (fr_used st1 + k), os1, fast_rng_abs st2)"
      using fast_rng_take_step [of ks st1 k n st2] st1 k_def st2_def by auto
    have "fr_generation st2 = gen" "n - k < n"
      using st1 k by (simp_all add: st2_def)
    then obtain bs os' st' where
      rec: "fast_rng_fill_loop ks gen (n - k) (os1, st2) = Some (bs, os', st')"
        "stream_fill ks (n - k) (os1, fast_rng_abs st2) = (bs, os', fast_rng_abs st')"
        "fast_rng_inv ks st' \<and> fr_generation st' = gen"
      using less.IH [OF _ t(1)] by blast
    have "fast_rng_fill_loop ks gen n (os, st) =
        Some (slice (fr_buffer st1) (fr_used st1) (fr_used st1 + k) @ bs, os', st')"
      using False st1 rec(1) by (subst fast_rng_fill_loop.simps) (simp add: s1 k_def [symmetric] st2_def [symmetric] Let_def)
    moreover have "stream_fill ks n (os1, fast_rng_abs st1) =
        (slice (fr_buffer st1) (fr_used st1) (fr_used st1 + k) @ bs, os', fast_rng_abs st')"
      using stream_fill_add [of ks k "n - k" "(os1, fast_rng_abs st1)"] k t(2) rec(2) by simp
    ultimately show ?thesis
      using eq1 rec(3) by simp
  qed
qed

lemma fast_rng_reseed_abs:
  assumes "fast_rng_inv ks st"
  shows "fast_rng_abs (snd (fast_rng_reseed gen (os, st))) = \<lparr>sp_key = fst (fill_bytes 32 os), sp_pos = 0\<rparr>"
    and "fst (fast_rng_reseed gen (os, st)) = snd (fill_bytes 32 os)"
  by (simp_all add: fast_rng_reseed_def fast_rng_abs_def case_prod_unfold Let_def)

lemma fast_rng_new_inv: "fast_rng_inv ks (snd (fast_rng_new gen os))"
  by (simp add: fast_rng_new_def fast_rng_reseed_def fast_rng_inv_def fast_rng_consts case_prod_unfold Let_def)

text \<open>
  \<open>fill\<close> on a state of the current generation continues the keystream where the last call
  stopped; on a state copied by a fork it starts a fresh key.
\<close>

lemma fast_rng_fill_refines:
  assumes "fast_rng_inv ks st"
  shows "\<exists>bs os' st'. fast_rng_fill ks gen n (os, st) = Some (bs, os', st') \<and>
           stream_fill ks n
             (if fr_generation st = gen then (os, fast_rng_abs st)
              else (snd (fill_bytes 32 os), \<lparr>sp_key = fst (fill_bytes 32 os), sp_pos = 0\<rparr>))
           = (bs, os', fast_rng_abs st') \<and>
           fast_rng_inv ks st' \<and> fr_generation st' = gen"
proof (cases "fr_generation st = gen")
  case True
  then show ?thesis
    using fast_rng_fill_loop_refines [OF assms] by (simp add: fast_rng_fill_def)
next
  case False
  obtain os1 st1 where r: "fast_rng_reseed gen (os, st) = (os1, st1)"
    by fastforce
  then have "fast_rng_inv ks st1" "fr_generation st1 = gen"
      "fast_rng_abs st1 = \<lparr>sp_key = fst (fill_bytes 32 os), sp_pos = 0\<rparr>" "os1 = snd (fill_bytes 32 os)"
    using fast_rng_reseed_inv [OF assms, of gen os] fast_rng_reseed_abs [OF assms, of gen os] by simp_all
  then show ?thesis
    using fast_rng_fill_loop_refines [of ks st1 gen n os1] False r by (simp add: fast_rng_fill_def)
qed

lemma length_stream_fill [simp, length_simps]: "length (fst (stream_fill ks n s)) = n"
  by (induction ks n s rule: stream_fill.induct) (simp_all add: case_prod_unfold Let_def)

lemma fast_rng_fill_result:
  assumes "fast_rng_inv ks st" "fast_rng_fill ks gen n (os, st) = Some (bs, s')"
  shows "length bs = n \<and> fast_rng_inv ks (snd s')"
proof -
  obtain s0 st' where "fast_rng_inv ks st'" "snd s' = st'" "fst (stream_fill ks n s0) = bs"
    using fast_rng_fill_refines [OF assms(1), of gen n os] assms(2) by (metis fst_conv option.inject snd_conv)
  then show ?thesis
    by auto
qed

interpretation fast_source:
  random_source "fast_rng_fill ks gen" "\<lambda>s. fast_rng_inv ks (snd s)" for ks gen
proof
  fix n and s :: "rng \<times> fast_rng"
  assume inv: "fast_rng_inv ks (snd s)"
  show "\<exists>bs s'. fast_rng_fill ks gen n s = Some (bs, s')"
    using fast_rng_fill_refines [OF inv, of gen n "fst s"] by auto
  show "length bs = n \<and> fast_rng_inv ks (snd s')" if "fast_rng_fill ks gen n s = Some (bs, s')" for bs s'
    using fast_rng_fill_result [OF inv] that by (metis prod.collapse)
qed

section \<open>Properties\<close>

text \<open>
  A draw from an inclusive range terminates inside the range, whichever source it uses:
  for the buffered generator in any valid state the draw does not panic, lands in
  \<open>[lo, hi]\<close>, and leaves a valid state.
\<close>

theorem gen_range_u32_in_range:
  assumes "fast_rng_inv ks (snd s)" and "lo \<le> hi"
  shows "\<exists>v s'. gen_range_u32_with (fast_rng_fill ks gen) lo hi s = Some (v, s') \<and>
           lo \<le> v \<and> v \<le> hi \<and> fast_rng_inv ks (snd s')"
  using fast_source.gen_range_returns [OF assms] .

theorem gen_range_u32_in_range_witness:
  "\<exists>v s'. gen_range_u32_with (fast_rng_fill (\<lambda>k n i. 7) 0) 5 9 (fast_rng_new 0 (\<lambda>i. 1)) = Some (v, s') \<and>
           5 \<le> v \<and> v \<le> 9 \<and> fast_rng_inv (\<lambda>k n i. 7) (snd s')"
  by (rule gen_range_u32_in_range) (simp_all add: fast_rng_new_inv)

text \<open>
  C26. The buffered generator hands out the keystreams of its keys in order, each position of
  each keystream exactly once: \<open>fill\<close> on a valid state never panics and returns what the
  unbuffered generator returns from the abstract position, in the same generation from where
  the last call stopped, after a fork from the start of a key freshly drawn from the operating
  system.
\<close>

theorem fast_rng_fill_refinement:
  assumes "fast_rng_inv ks st"
  shows "\<exists>bs os' st'. fast_rng_fill ks gen n (os, st) = Some (bs, os', st') \<and>
           stream_fill ks n
             (if fr_generation st = gen then (os, fast_rng_abs st)
              else (snd (fill_bytes 32 os), \<lparr>sp_key = fst (fill_bytes 32 os), sp_pos = 0\<rparr>))
           = (bs, os', fast_rng_abs st') \<and>
           fast_rng_inv ks st' \<and> fr_generation st' = gen"
  by (rule fast_rng_fill_refines [OF assms])

theorem fast_rng_fill_refinement_witness:
  "\<exists>bs os' st'. fast_rng_fill (\<lambda>k n i. of_nat i) 3 300 (snd (fill_bytes 32 (\<lambda>i. 1)), snd (fast_rng_new 3 (\<lambda>i. 1))) =
                    Some (bs, os', st') \<and> length bs = 300 \<and> fr_generation st' = 3"
proof -
  have "fast_rng_inv (\<lambda>k n i. of_nat i) (snd (fast_rng_new 3 (\<lambda>i. 1)))"
    by (rule fast_rng_new_inv)
  from fast_rng_fill_refinement [OF this, of 3 300 "snd (fill_bytes 32 (\<lambda>i. 1))"] show ?thesis
    by (metis fst_conv length_stream_fill)
qed

end
