(* ===== verification/RustStr.thy ===== *)
theory RustStr
  imports Prelude
begin

text \<open>
  The parts of the Rust standard library's \<open>str\<close> and integer types that the configuration
  code uses. A \<open>str\<close> is its UTF-8 bytes, as a \<^typ>\<open>string\<close>; \<open>trim\<close> and
  \<open>split_whitespace\<close> follow the Unicode property White_Space on those bytes.
  \<open>from_str_radix\<close> and \<open>Display\<close> of the unsigned integers come with their round trip.
  The locale \<open>printer_parser\<close> is the contract of a type with \<open>Display\<close> and \<open>parse\<close>.
\<close>

section \<open>White space\<close>

text \<open>The length in bytes of the white-space character at the start of a string, or 0.\<close>

definition is_ascii_ws :: "char \<Rightarrow> bool" where
  "is_ascii_ws c \<longleftrightarrow> c \<in> {CHR 0x09, CHR 0x0A, CHR 0x0B, CHR 0x0C, CHR 0x0D, CHR 0x20}"

fun ws_len :: "string \<Rightarrow> nat" where
  "ws_len [] = 0"
| "ws_len [a] = (if is_ascii_ws a then 1 else 0)"
| "ws_len [a, b] =
     (if is_ascii_ws a then 1
      else if a = CHR 0xC2 \<and> (b = CHR 0x85 \<or> b = CHR 0xA0) then 2 else 0)"
| "ws_len (a # b # c # cs) =
     (if is_ascii_ws a then 1
      else if a = CHR 0xC2 \<and> (b = CHR 0x85 \<or> b = CHR 0xA0) then 2
      else if a = CHR 0xE1 \<and> b = CHR 0x9A \<and> c = CHR 0x80
        \<or> a = CHR 0xE2 \<and> b = CHR 0x80 \<and>
            (0x80 \<le> (of_char c :: nat) \<and> (of_char c :: nat) \<le> 0x8A
             \<or> c \<in> {CHR 0xA8, CHR 0xA9, CHR 0xAF})
        \<or> a = CHR 0xE2 \<and> b = CHR 0x81 \<and> c = CHR 0x9F
        \<or> a = CHR 0xE3 \<and> b = CHR 0x80 \<and> c = CHR 0x80 then 3
      else 0)"

text \<open>The same at the end of a string, given reversed.\<close>

definition ws_len_rev :: "string \<Rightarrow> nat" where
  "ws_len_rev r =
     (if ws_len (rev (take 1 r)) = 1 then 1
      else if ws_len (rev (take 2 r)) = 2 then 2
      else if ws_len (rev (take 3 r)) = 3 then 3 else 0)"

function trim_start :: "string \<Rightarrow> string" where
  "trim_start s = (if s = [] \<or> ws_len s = 0 then s else trim_start (drop (ws_len s) s))"
  by pat_completeness auto
termination
  by (relation "measure length") auto

function trim_rev :: "string \<Rightarrow> string" where
  "trim_rev s = (if s = [] \<or> ws_len_rev s = 0 then s else trim_rev (drop (ws_len_rev s) s))"
  by pat_completeness auto
termination
  by (relation "measure length") auto

declare trim_start.simps [simp del] trim_rev.simps [simp del]

definition trim_end :: "string \<Rightarrow> string" where
  "trim_end s = rev (trim_rev (rev s))"

definition trim :: "string \<Rightarrow> string" where
  "trim s = trim_end (trim_start s)"

text \<open>\<open>split_whitespace\<close>: the maximal runs of other characters.\<close>

fun span_word :: "string \<Rightarrow> string \<times> string" where
  "span_word [] = ([], [])"
| "span_word (c # cs) =
     (if ws_len (c # cs) > 0 then ([], c # cs)
      else let (w, rest) = span_word cs in (c # w, rest))"

lemma length_span_word: "length (snd (span_word s)) \<le> length s"
  by (induction s rule: span_word.induct) (auto simp: case_prod_unfold Let_def)

lemma length_trim_start: "length (trim_start s) \<le> length s"
proof (induction s rule: trim_start.induct)
  case (1 s)
  then show ?case
    by (subst trim_start.simps) (auto intro: le_trans)
qed

lemma ws_len_trim_start: "trim_start s = t \<Longrightarrow> t = [] \<or> ws_len t = 0"
proof (induction s rule: trim_start.induct)
  case (1 s)
  then show ?case
    by (cases "s = [] \<or> ws_len s = 0") (auto simp: trim_start.simps [of s])
qed

function split_whitespace :: "string \<Rightarrow> string list" where
  "split_whitespace s =
     (case trim_start s of
        [] \<Rightarrow> []
      | c # cs \<Rightarrow> (let (w, rest) = span_word (c # cs) in w # split_whitespace rest))"
  by pat_completeness auto
termination
proof (relation "measure length")
  fix s c cs x w rest
  assume t: "trim_start s = c # cs" and x: "x = span_word (c # cs)" and wr: "(w, rest) = x"
  have "ws_len (c # cs) = 0"
    using ws_len_trim_start [OF t] by simp
  then have "rest = snd (span_word cs)"
    using x wr by (auto simp: case_prod_unfold Let_def)
  then have "length rest \<le> length cs"
    by (simp add: length_span_word)
  then show "(rest, s) \<in> measure length"
    using length_trim_start [of s] t by simp
qed simp

declare split_whitespace.simps [simp del]

section \<open>Splitting\<close>

text \<open>\<open>split(c)\<close>: always at least one part.\<close>

fun split_char :: "char \<Rightarrow> string \<Rightarrow> string list" where
  "split_char c [] = [[]]"
| "split_char c (x # xs) =
     (if x = c then [] # split_char c xs
      else (case split_char c xs of [] \<Rightarrow> [[x]] | p # ps \<Rightarrow> (x # p) # ps))"

fun split_once :: "char \<Rightarrow> string \<Rightarrow> (string \<times> string) option" where
  "split_once c [] = None"
| "split_once c (x # xs) =
     (if x = c then Some ([], xs)
      else map_option (\<lambda>(a, b). (x # a, b)) (split_once c xs))"

definition strip_cr :: "string \<Rightarrow> string" where
  "strip_cr s = (if s \<noteq> [] \<and> last s = CHR 0x0D then butlast s else s)"

text \<open>
  \<open>lines()\<close>: a line ends with a line feed, whose carriage return goes with it; a last
  line without one is kept as it is, unless empty.
\<close>

definition rust_lines :: "string \<Rightarrow> string list" where
  "rust_lines s =
     (let ps = split_char CHR 0x0A s
      in map strip_cr (butlast ps) @ (if last ps = [] then [] else [last ps]))"

definition strip_prefix :: "string \<Rightarrow> string \<Rightarrow> string option" where
  "strip_prefix p s = (if take (length p) s = p then Some (drop (length p) s) else None)"

definition ascii_lower :: "char \<Rightarrow> char" where
  "ascii_lower c = (if 65 \<le> (of_char c :: nat) \<and> (of_char c :: nat) \<le> 90
                    then char_of ((of_char c :: nat) + 32) else c)"

definition to_ascii_lowercase :: "string \<Rightarrow> string" where
  "to_ascii_lowercase s = map ascii_lower s"

section \<open>Unsigned integers\<close>

datatype int_error_kind = Empty | InvalidDigit | PosOverflow | NegOverflow

definition to_digit :: "nat \<Rightarrow> char \<Rightarrow> nat option" where
  "to_digit radix c =
     (let n = of_char c;
          d = (if 48 \<le> n \<and> n \<le> 57 then n - 48
               else if 97 \<le> n \<and> n \<le> 122 then n - 87
               else if 65 \<le> n \<and> n \<le> 90 then n - 55
               else radix)
      in if d < radix then Some d else None)"

text \<open>Accumulate digits below \<open>bound\<close> (one more than the type's maximum).\<close>

fun parse_digits :: "nat \<Rightarrow> nat \<Rightarrow> nat \<Rightarrow> string \<Rightarrow> int_error_kind + nat" where
  "parse_digits radix bound acc [] = Ok acc"
| "parse_digits radix bound acc (c # cs) =
     (case to_digit radix c of
        None \<Rightarrow> Err InvalidDigit
      | Some d \<Rightarrow> if acc * radix + d < bound then parse_digits radix bound (acc * radix + d) cs
                  else Err PosOverflow)"

definition from_str_radix :: "nat \<Rightarrow> nat \<Rightarrow> string \<Rightarrow> int_error_kind + nat" where
  "from_str_radix radix bound s =
     (case s of
        [] \<Rightarrow> Err Empty
      | c # cs \<Rightarrow>
          if cs = [] \<and> (c = CHR ''+'' \<or> c = CHR ''-'') then Err InvalidDigit
          else if c = CHR ''+'' then parse_digits radix bound 0 cs
          else parse_digits radix bound 0 s)"

definition parse_u8_hex :: "string \<Rightarrow> int_error_kind + u8" where
  "parse_u8_hex s = map_sum id of_nat (from_str_radix 16 (2 ^ 8) s)"

definition parse_u16 :: "string \<Rightarrow> int_error_kind + u16" where
  "parse_u16 s = map_sum id of_nat (from_str_radix 10 (2 ^ 16) s)"

definition parse_u32 :: "string \<Rightarrow> int_error_kind + u32" where
  "parse_u32 s = map_sum id of_nat (from_str_radix 10 (2 ^ 32) s)"

definition parse_usize :: "string \<Rightarrow> int_error_kind + nat" where
  "parse_usize s = from_str_radix 10 (2 ^ 64) s"

definition digit_char :: "nat \<Rightarrow> char" where
  "digit_char d = (if d < 10 then char_of (48 + d) else char_of (87 + d))"

text \<open>\<open>Display\<close> of an unsigned integer, and the two digits of \<open>{:02x}\<close>.\<close>

function fmt_dec :: "nat \<Rightarrow> string" where
  "fmt_dec n = (if n < 10 then [digit_char n] else fmt_dec (n div 10) @ [digit_char (n mod 10)])"
  by pat_completeness auto
termination
  by (relation "measure id") auto

declare fmt_dec.simps [simp del]

definition fmt_hex2 :: "u8 \<Rightarrow> string" where
  "fmt_hex2 b = [digit_char (unat b div 16), digit_char (unat b mod 16)]"

section \<open>Lemmas\<close>

subsection \<open>Printing and parsing numbers\<close>

lemma of_char_digit_char:
  "d < 16 \<Longrightarrow> (of_char (digit_char d) :: nat) = (if d < 10 then 48 + d else 87 + d)"
  by (simp add: digit_char_def)

lemma to_digit_digit_char [simp]:
  "d < radix \<Longrightarrow> radix \<le> 16 \<Longrightarrow> to_digit radix (digit_char d) = Some d"
  by (simp add: to_digit_def of_char_digit_char Let_def)

lemma digit_char_neq:
  assumes "d < 16" "\<not> 48 \<le> (of_char c :: nat) \<or> 57 < (of_char c :: nat)"
    and "\<not> 97 \<le> (of_char c :: nat) \<or> 102 < (of_char c :: nat)"
  shows "digit_char d \<noteq> c"
  using assms of_char_digit_char [of d] by (auto split: if_splits)

lemma parse_digits_append:
  "parse_digits radix bound acc (xs @ ys) =
     and_then (parse_digits radix bound acc xs) (\<lambda>a. parse_digits radix bound a ys)"
  by (induction radix bound acc xs rule: parse_digits.induct) (auto split: option.splits)

lemma parse_digits_fmt_dec: "n < bound \<Longrightarrow> parse_digits 10 bound 0 (fmt_dec n) = Ok n"
proof (induction n rule: fmt_dec.induct)
  case (1 n)
  show ?case
  proof (cases "n < 10")
    case False
    then have "parse_digits 10 bound 0 (fmt_dec (n div 10)) = Ok (n div 10)"
      using 1 by simp
    then show ?thesis
      using False 1(2) by (subst fmt_dec.simps) (simp add: parse_digits_append)
  qed (use 1(2) in \<open>simp add: fmt_dec.simps [of n]\<close>)
qed

lemma fmt_dec_digits: "c \<in> set (fmt_dec n) \<Longrightarrow> \<exists>d < 10. c = digit_char d"
proof (induction n rule: fmt_dec.induct)
  case (1 n)
  then show ?case
    by (cases "n < 10") (auto simp: fmt_dec.simps [of n] intro: exI [of _ "n mod 10"])
qed

lemma fmt_dec_neq_Nil [simp]: "fmt_dec n \<noteq> []"
  by (subst fmt_dec.simps) simp

lemma from_str_radix_fmt_dec: "n < bound \<Longrightarrow> from_str_radix 10 bound (fmt_dec n) = Ok n"
proof -
  assume n: "n < bound"
  obtain c cs where cs: "fmt_dec n = c # cs"
    by (cases "fmt_dec n") simp_all
  then obtain d where "d < 10" "c = digit_char d"
    using fmt_dec_digits [of c n] by auto
  then have "c \<noteq> CHR ''+''" "c \<noteq> CHR ''-''"
    using digit_char_neq [of d] by simp_all
  then show ?thesis
    using parse_digits_fmt_dec [OF n] cs by (simp add: from_str_radix_def)
qed

lemma parse_u16_fmt [simp]: "parse_u16 (fmt_dec (unat w)) = Ok w"
  by (simp add: parse_u16_def from_str_radix_fmt_dec)

lemma parse_u32_fmt [simp]: "parse_u32 (fmt_dec (unat w)) = Ok w"
  by (simp add: parse_u32_def from_str_radix_fmt_dec)

lemma parse_usize_fmt [simp]: "n < 2 ^ 64 \<Longrightarrow> parse_usize (fmt_dec n) = Ok n"
  by (simp add: parse_usize_def from_str_radix_fmt_dec)

lemma parse_u8_hex_fmt [simp]: "parse_u8_hex (fmt_hex2 b) = Ok b"
proof -
  have hi: "unat b div 16 < 16"
    by (simp add: less_mult_imp_div_less)
  then have "digit_char (unat b div 16) \<noteq> CHR ''+''"
    using digit_char_neq [of "unat b div 16"] by simp
  then have "from_str_radix 16 256 (fmt_hex2 b) = Ok (unat b)"
    using hi by (simp add: from_str_radix_def fmt_hex2_def)
  then show ?thesis
    by (simp add: parse_u8_hex_def)
qed

subsection \<open>Trimming\<close>

definition graphic :: "char \<Rightarrow> bool" where
  "graphic c \<longleftrightarrow> 33 \<le> (of_char c :: nat) \<and> (of_char c :: nat) \<le> 126"

lemma graphic_digit_char [simp]: "d < 16 \<Longrightarrow> graphic (digit_char d)"
  by (simp add: graphic_def of_char_digit_char)

lemma graphic_neq:
  assumes "graphic c"
  shows "\<not> is_ascii_ws c" "c \<noteq> CHR 0x0A" "c \<noteq> CHR 0xC2" "c \<noteq> CHR 0xE1" "c \<noteq> CHR 0xE2" "c \<noteq> CHR 0xE3"
    "c \<noteq> CHR 0x85" "c \<noteq> CHR 0xA0" "c \<noteq> CHR 0x80" "c \<noteq> CHR 0xA8" "c \<noteq> CHR 0xA9" "c \<noteq> CHR 0xAF"
    "c \<noteq> CHR 0x9F" "c \<noteq> CHR 0x0D"
  using assms by (auto simp: graphic_def is_ascii_ws_def)

lemma ws_len_graphic [simp]: "graphic c \<Longrightarrow> ws_len (c # cs) = 0"
  using graphic_neq [of c] by (cases cs rule: ws_len.cases) (auto split: list.splits)

lemma ws_len_le: "ws_len s \<le> length s"
  by (induction s rule: ws_len.induct) simp_all

lemma ws_len_last_graphic:
  assumes "graphic c"
  shows "ws_len [c] = 0" "ws_len [a, c] \<noteq> 2" "ws_len [a, b, c] \<noteq> 3"
  using assms graphic_neq [OF assms] by (auto simp: graphic_def)

lemma ws_len_rev_graphic [simp]:
  assumes "graphic c"
  shows "ws_len_rev (c # cs) = 0"
proof -
  have 2: "ws_len (rev (take 2 (c # cs))) \<noteq> 2"
  proof (cases cs)
    case (Cons a ds)
    then show ?thesis
      using ws_len_last_graphic(2) [OF assms, of a] by (simp add: numeral_2_eq_2)
  qed (use ws_len_last_graphic(1) [OF assms] in \<open>simp\<close>)
  have 3: "ws_len (rev (take 3 (c # cs))) \<noteq> 3"
  proof (cases "length cs < 2")
    case True
    then have "length (rev (take 3 (c # cs))) < 3"
      by simp
    then show ?thesis
      using ws_len_le [of "rev (take 3 (c # cs))"] by linarith
  next
    case False
    then obtain b a ds where "cs = b # a # ds"
      by (metis Suc_le_length_iff not_less numeral_2_eq_2)
    then show ?thesis
      using ws_len_last_graphic(3) [OF assms, of a b] by (simp add: numeral_3_eq_3)
  qed
  show ?thesis
    using 2 3 ws_len_last_graphic(1) [OF assms] by (simp add: ws_len_rev_def)
qed

lemma trim_start_graphic: "graphic c \<Longrightarrow> trim_start (c # cs) = c # cs"
  by (simp add: trim_start.simps)

lemma trim_graphic:
  assumes "s = [] \<or> graphic (hd s) \<and> graphic (last s)"
  shows "trim s = s"
proof (cases s rule: rev_cases)
  case Nil
  then show ?thesis
    by (simp add: trim_def trim_end_def trim_start.simps trim_rev.simps)
next
  case (snoc xs x)
  have "trim_start s = s"
    using assms snoc by (cases "xs @ [x]") (simp_all add: trim_start_graphic)
  moreover have "trim_rev (rev s) = rev s"
    using assms snoc by (subst trim_rev.simps) simp
  ultimately show ?thesis
    by (simp add: trim_def trim_end_def)
qed

lemma graphic_ends_fmt_dec [simp]: "graphic (hd (fmt_dec n))" "graphic (last (fmt_dec n))"
proof -
  have "c \<in> set (fmt_dec n) \<Longrightarrow> graphic c" for c
    using fmt_dec_digits [of c n] by force
  then show "graphic (hd (fmt_dec n))" "graphic (last (fmt_dec n))"
    by simp_all
qed

lemma trim_fmt_dec [simp]: "trim (fmt_dec n) = fmt_dec n"
  by (simp add: trim_graphic)

subsection \<open>Splitting\<close>

lemma split_char_absent: "c \<notin> set s \<Longrightarrow> split_char c s = [s]"
  by (induction c s rule: split_char.induct) auto

lemma split_char_append: "c \<notin> set a \<Longrightarrow> split_char c (a @ c # b) = a # split_char c b"
  by (induction a) auto

lemma split_char_neq_Nil [simp]: "split_char c s \<noteq> []"
  by (induction c s rule: split_char.induct) (auto split: list.splits)

lemma split_once_append: "c \<notin> set a \<Longrightarrow> split_once c (a @ c # b) = Some (a, b)"
  by (induction a) auto

lemma split_char_lines:
  "(\<And>l. l \<in> set ls \<Longrightarrow> c \<notin> set l) \<Longrightarrow> split_char c (concat (map (\<lambda>l. l @ [c]) ls)) = ls @ [[]]"
  by (induction ls) (simp_all add: split_char_append)

lemma strip_cr_id: "s = [] \<or> last s \<noteq> CHR 0x0D \<Longrightarrow> strip_cr s = s"
  by (auto simp: strip_cr_def)

lemma rust_lines_concat:
  assumes "\<And>l. l \<in> set ls \<Longrightarrow> CHR 0x0A \<notin> set l \<and> (l = [] \<or> last l \<noteq> CHR 0x0D)"
  shows "rust_lines (concat (map (\<lambda>l. l @ [CHR 0x0A]) ls)) = ls"
proof -
  have "map strip_cr ls = ls"
    using assms by (intro map_idI strip_cr_id) blast
  then show ?thesis
    using assms by (simp add: rust_lines_def split_char_lines)
qed

lemma fmt_dec_notin:
  assumes "\<not> 48 \<le> (of_char c :: nat) \<or> 57 < (of_char c :: nat)"
    and "\<not> 97 \<le> (of_char c :: nat) \<or> 102 < (of_char c :: nat)"
  shows "c \<notin> set (fmt_dec n)"
proof
  assume "c \<in> set (fmt_dec n)"
  then obtain d where "d < 10" "c = digit_char d"
    using fmt_dec_digits by blast
  then show False
    using digit_char_neq [OF _ assms, of d] by simp
qed

lemma strip_prefix_append [simp]: "strip_prefix p (p @ s) = Some s"
  by (simp add: strip_prefix_def)

lemma span_word_graphic:
  "(\<And>c. c \<in> set w \<Longrightarrow> graphic c) \<Longrightarrow> rest = [] \<or> 0 < ws_len rest \<Longrightarrow> span_word (w @ rest) = (w, rest)"
proof (induction w)
  case Nil
  then show ?case
    by (cases rest) auto
qed (simp add: case_prod_unfold Let_def)

lemma split_whitespace_word:
  assumes "w \<noteq> []" "\<And>c. c \<in> set w \<Longrightarrow> graphic c"
  shows "split_whitespace w = [w]"
proof -
  have "trim_start w = w"
    using assms by (cases w) (simp_all add: trim_start_graphic)
  moreover have "span_word w = (w, [])"
    using span_word_graphic [of w "[]"] assms by simp
  ultimately show ?thesis
    using assms(1) by (subst split_whitespace.simps)
      (auto simp: split_whitespace.simps [of "[]"] trim_start.simps [of "[]"] split: list.splits)
qed

lemma split_whitespace_two:
  assumes "w \<noteq> []" "v \<noteq> []" "\<And>c. c \<in> set w \<union> set v \<Longrightarrow> graphic c"
  shows "split_whitespace (w @ CHR 0x20 # v) = [w, v]"
proof -
  have ws: "ws_len (CHR 0x20 # v) = 1"
    by (cases v rule: ws_len.cases) (auto simp: is_ascii_ws_def split: list.splits)
  have "trim_start (w @ CHR 0x20 # v) = w @ CHR 0x20 # v"
    using assms by (cases w) (simp_all add: trim_start_graphic)
  moreover have "span_word (w @ CHR 0x20 # v) = (w, CHR 0x20 # v)"
    using assms ws by (intro span_word_graphic) simp_all
  moreover have "split_whitespace (CHR 0x20 # v) = [v]"
  proof -
    have "trim_start (CHR 0x20 # v) = trim_start v"
      using ws by (simp add: trim_start.simps [of "CHR 0x20 # v"])
    then have "split_whitespace (CHR 0x20 # v) = split_whitespace v"
      by (subst (1 2) split_whitespace.simps) simp
    then show ?thesis
      using assms by (simp add: split_whitespace_word)
  qed
  ultimately show ?thesis
    using assms(1) by (subst split_whitespace.simps) (auto split: list.splits)
qed

section \<open>The contract of a printable type\<close>

text \<open>
  A value printed on a line of a configuration block: it has no line feed, no white space to
  trim, and parses back.
\<close>

definition line_safe :: "string \<Rightarrow> bool" where
  "line_safe s \<longleftrightarrow> s \<noteq> [] \<and> graphic (hd s) \<and> graphic (last s) \<and> CHR 0x0A \<notin> set s"

locale printer_parser =
  fixes fmt :: "'a \<Rightarrow> string" and parse :: "string \<Rightarrow> 'e + 'a" and ok :: "'a \<Rightarrow> bool"
  assumes parse_fmt: "ok v \<Longrightarrow> parse (fmt v) = Ok v"
    and fmt_safe: "ok v \<Longrightarrow> line_safe (fmt v)"
begin

lemma fmt_inject: "ok v \<Longrightarrow> ok w \<Longrightarrow> fmt v = fmt w \<longleftrightarrow> v = w"
  by (metis parse_fmt sum.inject(2))

lemma trim_fmt: "ok v \<Longrightarrow> trim (fmt v) = fmt v"
  using fmt_safe by (simp add: line_safe_def trim_graphic)

lemma fmt_no_lf: "ok v \<Longrightarrow> CHR 0x0A \<notin> set (fmt v)"
  using fmt_safe by (simp add: line_safe_def)

end

interpretation pp_u16: printer_parser "\<lambda>w. fmt_dec (unat w)" parse_u16 "\<lambda>w. True"
  by unfold_locales (simp_all add: line_safe_def fmt_dec_notin)

interpretation pp_u32: printer_parser "\<lambda>w. fmt_dec (unat w)" parse_u32 "\<lambda>w. True"
  by unfold_locales (simp_all add: line_safe_def fmt_dec_notin)

interpretation pp_usize: printer_parser fmt_dec parse_usize "\<lambda>n. n < 2 ^ 64"
  by unfold_locales (simp_all add: line_safe_def fmt_dec_notin)

end
