(* ===== verification/AmneziaConfig.thy ===== *)
theory AmneziaConfig
  imports Randomness RustStr
begin

text \<open>
  The configuration types of \<open>src/awgtun/src/amnezia.rs\<close> that are plain values: the error
  type, the header ranges H1-H4, the paddings S1-S4, the junk parameters, the inclusive
  ranges of AmneziaWG 3.0 and the randomised timings, each with its constructors, checks,
  parser, printer and generator. A range is given meaning as the set of its values; the
  lemmas relate the checks to those sets.
\<close>

section \<open>Errors\<close>

datatype HeaderKind = HK_Init | HK_Response | HK_Cookie | HK_Transport

datatype PaddingKind = PK_Init | PK_Response | PK_Cookie | PK_Transport

datatype JunkSizeKind = JK_Min | JK_Max

datatype InitPacketKind = IK_I1 | IK_I2 | IK_I3 | IK_I4 | IK_I5

datatype ConfigError =
    InvalidHeaderRange string string
  | HeaderRangesOverlap HeaderKind HeaderKind
  | JunkMinExceedsMax u16 u16
  | JunkExceedsMtu u16 nat
  | InvalidCps string
  | UnsupportedCpsTag string
  | CpsValueOutOfRange string nat nat
  | UnsupportedLegacyField string
  | InvalidRange string string
  | InvalidConfigLine string string
  | InvalidFieldValue string string
  | HeaderProtectionPaddingTooSmall PaddingKind u16 u16

fun fmt_HeaderKind :: "HeaderKind \<Rightarrow> string" where
  "fmt_HeaderKind HK_Init = ''H1''"
| "fmt_HeaderKind HK_Response = ''H2''"
| "fmt_HeaderKind HK_Cookie = ''H3''"
| "fmt_HeaderKind HK_Transport = ''H4''"

fun fmt_PaddingKind :: "PaddingKind \<Rightarrow> string" where
  "fmt_PaddingKind PK_Init = ''S1''"
| "fmt_PaddingKind PK_Response = ''S2''"
| "fmt_PaddingKind PK_Cookie = ''S3''"
| "fmt_PaddingKind PK_Transport = ''S4''"

fun fmt_JunkSizeKind :: "JunkSizeKind \<Rightarrow> string" where
  "fmt_JunkSizeKind JK_Min = ''Jmin''"
| "fmt_JunkSizeKind JK_Max = ''Jmax''"

fun fmt_InitPacketKind :: "InitPacketKind \<Rightarrow> string" where
  "fmt_InitPacketKind IK_I1 = ''I1''"
| "fmt_InitPacketKind IK_I2 = ''I2''"
| "fmt_InitPacketKind IK_I3 = ''I3''"
| "fmt_InitPacketKind IK_I4 = ''I4''"
| "fmt_InitPacketKind IK_I5 = ''I5''"

abbreviation fmt_u16 :: "u16 \<Rightarrow> string" where
  "fmt_u16 w \<equiv> fmt_dec (unat w)"

abbreviation fmt_u32 :: "u32 \<Rightarrow> string" where
  "fmt_u32 w \<equiv> fmt_dec (unat w)"

fun fmt_ConfigError :: "ConfigError \<Rightarrow> string" where
  "fmt_ConfigError (InvalidHeaderRange v reason) = ''invalid header range `'' @ v @ ''`: '' @ reason"
| "fmt_ConfigError (HeaderRangesOverlap a b) =
     fmt_HeaderKind a @ '' and '' @ fmt_HeaderKind b @ '' header ranges overlap''"
| "fmt_ConfigError (JunkMinExceedsMax lo hi) =
     ''junk min '' @ fmt_u16 lo @ '' exceeds junk max '' @ fmt_u16 hi"
| "fmt_ConfigError (JunkExceedsMtu sz mtu) =
     ''junk max size '' @ fmt_u16 sz @ '' exceeds effective MTU '' @ fmt_dec mtu"
| "fmt_ConfigError (InvalidCps reason) = ''invalid CPS chain: '' @ reason"
| "fmt_ConfigError (UnsupportedCpsTag tag) = ''unsupported AmneziaWG 2.0 CPS tag `'' @ tag @ ''`''"
| "fmt_ConfigError (CpsValueOutOfRange tag v mx) =
     ''<'' @ tag @ ''> length '' @ fmt_dec v @ '' exceeds max '' @ fmt_dec mx"
| "fmt_ConfigError (UnsupportedLegacyField f) = ''`'' @ f @ ''` is not an AmneziaWG 2.0 field''"
| "fmt_ConfigError (InvalidRange v reason) = ''invalid range `'' @ v @ ''`: '' @ reason"
| "fmt_ConfigError (InvalidConfigLine l reason) = ''invalid config line `'' @ l @ ''`: '' @ reason"
| "fmt_ConfigError (InvalidFieldValue f reason) = ''invalid value for `'' @ f @ ''`: '' @ reason"
| "fmt_ConfigError (HeaderProtectionPaddingTooSmall f v mn) =
     fmt_PaddingKind f @ '' padding '' @ fmt_u16 v @ '' is below the header-protection minimum '' @ fmt_u16 mn"

section \<open>HeaderRange\<close>

record header_range =
  hr_start :: u32
  hr_end :: u32

definition HeaderRange_single :: "u32 \<Rightarrow> header_range" where
  "HeaderRange_single v = \<lparr>hr_start = v, hr_end = v\<rparr>"

definition HeaderRange_new :: "u32 \<Rightarrow> u32 \<Rightarrow> ConfigError + header_range" where
  "HeaderRange_new s e =
     (if e < s then Err (InvalidHeaderRange (fmt_u32 s @ ''-'' @ fmt_u32 e) ''range end is smaller than start'')
      else Ok \<lparr>hr_start = s, hr_end = e\<rparr>)"

definition header_parse_error :: "string \<Rightarrow> int_error_kind \<Rightarrow> ConfigError" where
  "header_parse_error input err = InvalidHeaderRange input
     (case err of
        PosOverflow \<Rightarrow> ''value exceeds u32''
      | NegOverflow \<Rightarrow> ''negative value is not allowed''
      | InvalidDigit \<Rightarrow> ''expected decimal digits''
      | Empty \<Rightarrow> ''empty range bound'')"

definition parse_u32_part :: "string \<Rightarrow> string option \<Rightarrow> ConfigError + u32" where
  "parse_u32_part input part =
     (let p = trim (case part of None \<Rightarrow> [] | Some p \<Rightarrow> p)
      in if p = [] then Err (InvalidHeaderRange input ''empty range bound'')
         else map_err (header_parse_error input) (parse_u32 p))"

text \<open>The \<open>i\<close>-th result of \<open>next()\<close> on an iterator over a list.\<close>

definition iter_nth :: "'a list \<Rightarrow> nat \<Rightarrow> 'a option" where
  "iter_nth xs i = (if i < length xs then Some (xs ! i) else None)"

definition HeaderRange_parse :: "string \<Rightarrow> ConfigError + header_range" where
  "HeaderRange_parse raw =
     (let input = trim raw in
      if input = [] then Err (InvalidHeaderRange input ''empty value'')
      else let parts = split_char CHR ''-'' input in
        and_then (parse_u32_part input (iter_nth parts 0)) (\<lambda>s.
        and_then (case iter_nth parts 1 of
                    Some part \<Rightarrow> parse_u32_part input (Some part)
                  | None \<Rightarrow> Ok s) (\<lambda>e.
        if iter_nth parts 2 \<noteq> None then Err (InvalidHeaderRange input ''expected `value` or `start-end`'')
        else map_err (\<lambda>_. InvalidHeaderRange input ''range end is smaller than start'')
               (HeaderRange_new s e))))"

definition HeaderRange_contains :: "header_range \<Rightarrow> u32 \<Rightarrow> bool" where
  "HeaderRange_contains r v \<longleftrightarrow> hr_start r \<le> v \<and> v \<le> hr_end r"

definition HeaderRange_overlaps :: "header_range \<Rightarrow> header_range \<Rightarrow> bool" where
  "HeaderRange_overlaps a b \<longleftrightarrow> hr_start a \<le> hr_end b \<and> hr_start b \<le> hr_end a"

definition HeaderRange_generate :: "header_range \<Rightarrow> rng \<Rightarrow> u32 \<times> rng" where
  "HeaderRange_generate hr = gen_range_u32 (hr_start hr) (hr_end hr)"

definition fmt_HeaderRange :: "header_range \<Rightarrow> string" where
  "fmt_HeaderRange hr =
     (if hr_start hr = hr_end hr then fmt_u32 (hr_start hr)
      else fmt_u32 (hr_start hr) @ ''-'' @ fmt_u32 (hr_end hr))"

text \<open>The values a range stands for, and the constructors' invariant.\<close>

definition hr_set :: "header_range \<Rightarrow> u32 set" where
  "hr_set r = {v. HeaderRange_contains r v}"

definition hr_wf :: "header_range \<Rightarrow> bool" where
  "hr_wf r \<longleftrightarrow> hr_start r \<le> hr_end r"

section \<open>HeaderConfig\<close>

record header_config =
  hc_init :: header_range
  hc_response :: header_range
  hc_cookie :: header_range
  hc_transport :: header_range

definition HeaderConfig_wireguard_compatible :: header_config where
  "HeaderConfig_wireguard_compatible =
     \<lparr>hc_init = HeaderRange_single 1, hc_response = HeaderRange_single 2,
      hc_cookie = HeaderRange_single 3, hc_transport = HeaderRange_single 4\<rparr>"

definition HeaderConfig_entries :: "header_config \<Rightarrow> (HeaderKind \<times> header_range) list" where
  "HeaderConfig_entries c =
     [(HK_Init, hc_init c), (HK_Response, hc_response c),
      (HK_Cookie, hc_cookie c), (HK_Transport, hc_transport c)]"

text \<open>The two nested loops: the first pair in the order of the loops that overlaps.\<close>

fun first_overlap :: "(HeaderKind \<times> header_range) list \<Rightarrow> (HeaderKind \<times> HeaderKind) option" where
  "first_overlap [] = None"
| "first_overlap (x # xs) =
     (case find (\<lambda>y. HeaderRange_overlaps (snd x) (snd y)) xs of
        Some y \<Rightarrow> Some (fst x, fst y)
      | None \<Rightarrow> first_overlap xs)"

definition HeaderConfig_validate_no_overlap :: "header_config \<Rightarrow> ConfigError + unit" where
  "HeaderConfig_validate_no_overlap c =
     (case first_overlap (HeaderConfig_entries c) of
        Some (a, b) \<Rightarrow> Err (HeaderRangesOverlap a b)
      | None \<Rightarrow> Ok ())"

definition HeaderConfig_validate :: "header_config \<Rightarrow> ConfigError + unit" where
  "HeaderConfig_validate c = HeaderConfig_validate_no_overlap c"

definition HeaderConfig_new ::
  "header_range \<Rightarrow> header_range \<Rightarrow> header_range \<Rightarrow> header_range \<Rightarrow> ConfigError + header_config" where
  "HeaderConfig_new i r c t =
     (let config = \<lparr>hc_init = i, hc_response = r, hc_cookie = c, hc_transport = t\<rparr>
      in and_then (HeaderConfig_validate_no_overlap config) (\<lambda>_. Ok config))"

definition hc_wf :: "header_config \<Rightarrow> bool" where
  "hc_wf c \<longleftrightarrow> hr_wf (hc_init c) \<and> hr_wf (hc_response c) \<and> hr_wf (hc_cookie c) \<and> hr_wf (hc_transport c)"

definition hc_disjoint :: "header_config \<Rightarrow> bool" where
  "hc_disjoint c \<longleftrightarrow>
     hr_set (hc_init c) \<inter> hr_set (hc_response c) = {} \<and> hr_set (hc_init c) \<inter> hr_set (hc_cookie c) = {} \<and>
     hr_set (hc_init c) \<inter> hr_set (hc_transport c) = {} \<and> hr_set (hc_response c) \<inter> hr_set (hc_cookie c) = {} \<and>
     hr_set (hc_response c) \<inter> hr_set (hc_transport c) = {} \<and> hr_set (hc_cookie c) \<inter> hr_set (hc_transport c) = {}"

section \<open>PaddingConfig\<close>

record padding_config =
  pc_s1 :: u16
  pc_s2 :: u16
  pc_s3 :: u16
  pc_s4 :: u16

definition PaddingConfig_default :: padding_config where
  "PaddingConfig_default = \<lparr>pc_s1 = 0, pc_s2 = 0, pc_s3 = 0, pc_s4 = 0\<rparr>"

definition PaddingConfig_validate :: "padding_config \<Rightarrow> ConfigError + unit" where
  "PaddingConfig_validate c = Ok ()"

definition PaddingConfig_new :: "u16 \<Rightarrow> u16 \<Rightarrow> u16 \<Rightarrow> u16 \<Rightarrow> ConfigError + padding_config" where
  "PaddingConfig_new s1 s2 s3 s4 =
     (let config = \<lparr>pc_s1 = s1, pc_s2 = s2, pc_s3 = s3, pc_s4 = s4\<rparr>
      in and_then (PaddingConfig_validate config) (\<lambda>_. Ok config))"

section \<open>JunkConfig\<close>

record junk_config =
  jc_count :: u16
  jc_min_size :: u16
  jc_max_size :: u16

definition JunkConfig_disabled :: junk_config where
  "JunkConfig_disabled = \<lparr>jc_count = 0, jc_min_size = 0, jc_max_size = 0\<rparr>"

definition JunkConfig_validate :: "junk_config \<Rightarrow> ConfigError + unit" where
  "JunkConfig_validate c =
     (if jc_count c = 0 then Ok ()
      else if jc_min_size c > jc_max_size c then Err (JunkMinExceedsMax (jc_min_size c) (jc_max_size c))
      else Ok ())"

definition JunkConfig_new :: "u16 \<Rightarrow> u16 \<Rightarrow> u16 \<Rightarrow> ConfigError + junk_config" where
  "JunkConfig_new n lo hi =
     (let config = \<lparr>jc_count = n, jc_min_size = lo, jc_max_size = hi\<rparr>
      in and_then (JunkConfig_validate config) (\<lambda>_. Ok config))"

definition JunkConfig_validate_for_mtu :: "junk_config \<Rightarrow> nat \<Rightarrow> ConfigError + unit" where
  "JunkConfig_validate_for_mtu c mtu =
     and_then (JunkConfig_validate c) (\<lambda>_.
       if jc_count c > 0 \<and> unat (jc_max_size c) > mtu then Err (JunkExceedsMtu (jc_max_size c) mtu)
       else Ok ())"

definition junk_size :: "junk_config \<Rightarrow> rng \<Rightarrow> u16 \<times> rng" where
  "junk_size c r =
     (if jc_max_size c \<le> jc_min_size c then (jc_min_size c, r)
      else gen_range_u16 (jc_min_size c) (jc_max_size c - 1) r)"

fun junk_loop :: "junk_config \<Rightarrow> nat \<Rightarrow> rng \<Rightarrow> bytes list \<times> rng" where
  "junk_loop c 0 r = ([], r)"
| "junk_loop c (Suc n) r =
     (let (size, r1) = junk_size c r;
          (buf, r2) = fill_bytes (unat size) r1;
          (packets, r3) = junk_loop c n r2
      in (buf # packets, r3))"

definition generate_junk_packets :: "junk_config \<Rightarrow> rng \<Rightarrow> bytes list \<times> rng" where
  "generate_junk_packets c r = (if jc_count c = 0 then ([], r) else junk_loop c (unat (jc_count c)) r)"

section \<open>Ranges and timings of AmneziaWG 3.0\<close>

definition AWG3_DEFAULT_MTU :: u32 where
  "AWG3_DEFAULT_MTU = 1420"

definition AWG31_DEFAULT_UDP_WINDOW :: u32 where
  "AWG31_DEFAULT_UDP_WINDOW = 500"

definition HEADER_PROTECTION_MIN_PADDING :: u16 where
  "HEADER_PROTECTION_MIN_PADDING = 12"

definition random_trailer_len :: "nat \<Rightarrow> u32 \<Rightarrow> rng \<Rightarrow> nat \<times> rng" where
  "random_trailer_len packet_size udp_window r =
     (if packet_size \<le> unat udp_window \<and> unat udp_window - packet_size > 0
      then let (v, r') = gen_range_u32 0 (of_nat (unat udp_window - packet_size) - 1) r in (unat v, r')
      else (0, r))"

record u32_range =
  ur_lo :: u32
  ur_hi :: u32

definition U32Range_zero :: u32_range where
  "U32Range_zero = \<lparr>ur_lo = 0, ur_hi = 0\<rparr>"

definition U32Range_single :: "u32 \<Rightarrow> u32_range" where
  "U32Range_single v = \<lparr>ur_lo = v, ur_hi = v\<rparr>"

definition U32Range_new :: "u32 \<Rightarrow> u32 \<Rightarrow> ConfigError + u32_range" where
  "U32Range_new lo hi =
     (if hi < lo then Err (InvalidRange (fmt_u32 lo @ ''-'' @ fmt_u32 hi) ''range end is smaller than start'')
      else Ok \<lparr>ur_lo = lo, ur_hi = hi\<rparr>)"

definition parse_range_part :: "string \<Rightarrow> string option \<Rightarrow> ConfigError + u32" where
  "parse_range_part input part =
     (let p = trim (case part of None \<Rightarrow> [] | Some p \<Rightarrow> p)
      in if p = [] then Err (InvalidRange input ''empty range bound'')
         else map_err (\<lambda>_. InvalidRange input ''expected decimal digits'') (parse_u32 p))"

definition U32Range_parse :: "string \<Rightarrow> ConfigError + u32_range" where
  "U32Range_parse raw =
     (let input = trim raw in
      if input = [] then Err (InvalidRange input ''empty value'')
      else let parts = split_char CHR ''-'' input in
        and_then (parse_range_part input (iter_nth parts 0)) (\<lambda>lo.
        and_then (case iter_nth parts 1 of
                    Some part \<Rightarrow> parse_range_part input (Some part)
                  | None \<Rightarrow> Ok lo) (\<lambda>hi.
        if iter_nth parts 2 \<noteq> None then Err (InvalidRange input ''expected `value` or `start-end`'')
        else U32Range_new lo hi)))"

definition U32Range_is_zero :: "u32_range \<Rightarrow> bool" where
  "U32Range_is_zero r \<longleftrightarrow> ur_lo r = 0 \<and> ur_hi r = 0"

definition U32Range_validate :: "string \<Rightarrow> u32_range \<Rightarrow> ConfigError + unit" where
  "U32Range_validate field r =
     (if ur_hi r < ur_lo r
      then Err (InvalidRange (field @ ''='' @ fmt_u32 (ur_lo r) @ ''-'' @ fmt_u32 (ur_hi r))
                             ''range end is smaller than start'')
      else Ok ())"

definition U32Range_generate :: "u32_range \<Rightarrow> rng \<Rightarrow> u32 \<times> rng" where
  "U32Range_generate ur = gen_range_u32 (ur_lo ur) (ur_hi ur)"

definition U32Range_pick_or :: "u32_range \<Rightarrow> u32 \<Rightarrow> rng \<Rightarrow> u32 \<times> rng" where
  "U32Range_pick_or ur dflt r = (if U32Range_is_zero ur then (dflt, r) else U32Range_generate ur r)"

definition U32Range_lo_or :: "u32_range \<Rightarrow> u32 \<Rightarrow> u32" where
  "U32Range_lo_or ur dflt = (if U32Range_is_zero ur then dflt else ur_lo ur)"

definition U32Range_hi_or :: "u32_range \<Rightarrow> u32 \<Rightarrow> u32" where
  "U32Range_hi_or ur dflt = (if U32Range_is_zero ur then dflt else ur_hi ur)"

definition fmt_U32Range :: "u32_range \<Rightarrow> string" where
  "fmt_U32Range ur =
     (if ur_lo ur = ur_hi ur then fmt_u32 (ur_lo ur)
      else fmt_u32 (ur_lo ur) @ ''-'' @ fmt_u32 (ur_hi ur))"

record timing_ranges =
  tr_rekey_after_time :: u32_range
  tr_rekey_timeout :: u32_range
  tr_reject_after_time :: u32_range
  tr_keepalive_timeout :: u32_range
  tr_max_handshake_attempts :: u32_range
  tr_persistent_keepalive :: u32_range

definition TimingRanges_default :: timing_ranges where
  "TimingRanges_default =
     \<lparr>tr_rekey_after_time = U32Range_zero, tr_rekey_timeout = U32Range_zero,
      tr_reject_after_time = U32Range_zero, tr_keepalive_timeout = U32Range_zero,
      tr_max_handshake_attempts = U32Range_zero, tr_persistent_keepalive = U32Range_zero\<rparr>"

definition TimingRanges_validate :: "timing_ranges \<Rightarrow> ConfigError + unit" where
  "TimingRanges_validate t =
     and_then (U32Range_validate ''rekey_after_time'' (tr_rekey_after_time t)) (\<lambda>_.
     and_then (U32Range_validate ''rekey_timeout'' (tr_rekey_timeout t)) (\<lambda>_.
     and_then (U32Range_validate ''reject_after_time'' (tr_reject_after_time t)) (\<lambda>_.
     and_then (U32Range_validate ''keepalive_timeout'' (tr_keepalive_timeout t)) (\<lambda>_.
     and_then (U32Range_validate ''max_handshake_attempts'' (tr_max_handshake_attempts t)) (\<lambda>_.
     and_then (U32Range_validate ''persistent_keepalive'' (tr_persistent_keepalive t)) (\<lambda>_.
     Ok ()))))))"

definition TimingRanges_is_zero :: "timing_ranges \<Rightarrow> bool" where
  "TimingRanges_is_zero t \<longleftrightarrow>
     U32Range_is_zero (tr_rekey_after_time t) \<and> U32Range_is_zero (tr_rekey_timeout t) \<and>
     U32Range_is_zero (tr_reject_after_time t) \<and> U32Range_is_zero (tr_keepalive_timeout t) \<and>
     U32Range_is_zero (tr_max_handshake_attempts t) \<and> U32Range_is_zero (tr_persistent_keepalive t)"

definition ur_wf :: "u32_range \<Rightarrow> bool" where
  "ur_wf r \<longleftrightarrow> ur_lo r \<le> ur_hi r"

definition tr_wf :: "timing_ranges \<Rightarrow> bool" where
  "tr_wf t \<longleftrightarrow> ur_wf (tr_rekey_after_time t) \<and> ur_wf (tr_rekey_timeout t) \<and> ur_wf (tr_reject_after_time t) \<and>
     ur_wf (tr_keepalive_timeout t) \<and> ur_wf (tr_max_handshake_attempts t) \<and> ur_wf (tr_persistent_keepalive t)"

section \<open>Lemmas: headers\<close>

lemma hr_overlaps_iff:
  assumes "hr_wf a" "hr_wf b"
  shows "HeaderRange_overlaps a b \<longleftrightarrow> hr_set a \<inter> hr_set b \<noteq> {}"
proof
  assume "HeaderRange_overlaps a b"
  then have "max (hr_start a) (hr_start b) \<in> hr_set a \<inter> hr_set b"
    using assms by (simp add: HeaderRange_overlaps_def hr_set_def HeaderRange_contains_def hr_wf_def)
  then show "hr_set a \<inter> hr_set b \<noteq> {}" by blast
next
  assume "hr_set a \<inter> hr_set b \<noteq> {}"
  then show "HeaderRange_overlaps a b"
    by (auto simp: HeaderRange_overlaps_def hr_set_def HeaderRange_contains_def)
qed

lemma first_overlap_None_iff:
  "first_overlap xs = None \<longleftrightarrow> sorted_wrt (\<lambda>x y. \<not> HeaderRange_overlaps (snd x) (snd y)) xs"
  by (induction xs) (auto split: option.splits simp: find_None_iff find_Some_iff)

lemma HeaderConfig_validate_Ok_iff:
  assumes "hc_wf c"
  shows "HeaderConfig_validate c = Ok () \<longleftrightarrow> hc_disjoint c"
proof -
  have "HeaderConfig_validate c = Ok () \<longleftrightarrow> first_overlap (HeaderConfig_entries c) = None"
    by (auto simp: HeaderConfig_validate_def HeaderConfig_validate_no_overlap_def split: option.splits)
  also have "\<dots> \<longleftrightarrow> hc_disjoint c"
    using assms by (auto simp: first_overlap_None_iff HeaderConfig_entries_def hc_disjoint_def hc_wf_def hr_overlaps_iff)
  finally show ?thesis .
qed

lemma HeaderRange_generate_in:
  assumes "hr_wf hr"
  shows "HeaderRange_contains hr (fst (HeaderRange_generate hr r))"
  using assms gen_range_u32_bounds [of "hr_start hr" "hr_end hr" r]
  by (simp add: HeaderRange_generate_def HeaderRange_contains_def hr_wf_def)

lemma HeaderRange_parse_wf: "HeaderRange_parse s = Ok hr \<Longrightarrow> hr_wf hr"
  by (auto simp: HeaderRange_parse_def Let_def HeaderRange_new_def hr_wf_def and_then_eq_Inr map_err_eq_Inr
        split: if_splits option.splits)

text \<open>
  The two range types print and parse the same way: a single number, or two separated by a
  dash.
\<close>

lemma dash_notin_fmt_dec [simp]: "CHR ''-'' \<notin> set (fmt_dec n)"
  by (rule fmt_dec_notin) simp_all

lemma split_dash_single: "split_char CHR ''-'' (fmt_dec n) = [fmt_dec n]"
  by (simp add: split_char_absent)

lemma split_dash_pair: "split_char CHR ''-'' (fmt_dec m @ CHR ''-'' # fmt_dec n) = [fmt_dec m, fmt_dec n]"
  by (simp add: split_char_append split_char_absent)

lemma trim_dash_pair: "trim (fmt_dec m @ CHR ''-'' # fmt_dec n) = fmt_dec m @ CHR ''-'' # fmt_dec n"
  by (simp add: trim_graphic)

lemmas dash_simps = split_dash_single split_dash_pair trim_dash_pair iter_nth_def

lemma parse_u32_part_fmt [simp]: "parse_u32_part input (Some (fmt_u32 w)) = Ok w"
  by (simp add: parse_u32_part_def)

lemma parse_range_part_fmt [simp]: "parse_range_part input (Some (fmt_u32 w)) = Ok w"
  by (simp add: parse_range_part_def)

interpretation pp_header: printer_parser fmt_HeaderRange HeaderRange_parse hr_wf
proof
  fix v assume "hr_wf v"
  then show "HeaderRange_parse (fmt_HeaderRange v) = Ok v"
    by (auto simp: fmt_HeaderRange_def HeaderRange_parse_def HeaderRange_new_def hr_wf_def dash_simps Let_def)
  show "line_safe (fmt_HeaderRange v)"
    by (simp add: fmt_HeaderRange_def line_safe_def fmt_dec_notin)
qed

interpretation pp_range: printer_parser fmt_U32Range U32Range_parse ur_wf
proof
  fix v assume "ur_wf v"
  then show "U32Range_parse (fmt_U32Range v) = Ok v"
    by (auto simp: fmt_U32Range_def U32Range_parse_def U32Range_new_def ur_wf_def dash_simps Let_def)
  show "line_safe (fmt_U32Range v)"
    by (simp add: fmt_U32Range_def line_safe_def fmt_dec_notin)
qed

lemma U32Range_parse_wf: "U32Range_parse s = Ok ur \<Longrightarrow> ur_wf ur"
  by (auto simp: U32Range_parse_def Let_def U32Range_new_def ur_wf_def and_then_eq_Inr
        split: if_splits option.splits)

lemma U32Range_validate_iff [simp]: "U32Range_validate f ur = Ok () \<longleftrightarrow> ur_wf ur"
  by (auto simp: U32Range_validate_def ur_wf_def)

lemma TimingRanges_validate_iff: "TimingRanges_validate t = Ok () \<longleftrightarrow> tr_wf t"
  by (simp add: TimingRanges_validate_def tr_wf_def and_then_eq_Inr)

lemma U32Range_pick_or_bounds:
  assumes "ur_wf ur"
  shows "U32Range_lo_or ur d \<le> fst (U32Range_pick_or ur d r)"
    and "fst (U32Range_pick_or ur d r) \<le> U32Range_hi_or ur d"
  using assms gen_range_u32_bounds [of "ur_lo ur" "ur_hi ur" r]
  by (simp_all add: U32Range_pick_or_def U32Range_lo_or_def U32Range_hi_or_def U32Range_generate_def ur_wf_def)

section \<open>Lemmas: junk and trailers\<close>

text \<open>The sizes the junk generator may produce.\<close>

definition junk_size_ok :: "junk_config \<Rightarrow> nat \<Rightarrow> bool" where
  "junk_size_ok c n \<longleftrightarrow>
     (if jc_max_size c \<le> jc_min_size c then n = unat (jc_min_size c)
      else unat (jc_min_size c) \<le> n \<and> n < unat (jc_max_size c))"

lemma junk_size_ok: "junk_size_ok c (unat (fst (junk_size c r)))"
proof (cases "jc_max_size c \<le> jc_min_size c")
  case False
  then have lt: "unat (jc_min_size c) < unat (jc_max_size c)"
    by (simp add: word_le_nat_alt)
  then have dec: "unat (jc_max_size c - 1) = unat (jc_max_size c) - 1"
    by (simp add: unat_diff_le word_le_nat_alt)
  then have "jc_min_size c \<le> jc_max_size c - 1"
    using lt by (simp add: word_le_nat_alt)
  from gen_range_u16_bounds [OF this, of r] show ?thesis
    using False dec lt by (auto simp: junk_size_ok_def junk_size_def word_le_nat_alt)
qed (simp add: junk_size_ok_def junk_size_def)

lemma junk_loop_ok:
  "length (fst (junk_loop c n r)) = n \<and> (\<forall>p \<in> set (fst (junk_loop c n r)). junk_size_ok c (length p))"
proof (induction n arbitrary: r)
  case (Suc n)
  then show ?case
    by (simp add: case_prod_unfold Let_def junk_size_ok)
qed simp

lemma random_trailer_len_bound:
  "packet_size + fst (random_trailer_len packet_size w r) \<le> max packet_size (unat w)"
  "fst (random_trailer_len packet_size w r) > 0 \<Longrightarrow> packet_size + fst (random_trailer_len packet_size w r) < unat w"
proof -
  have *: "fst (random_trailer_len packet_size w r) < unat w - packet_size" if "packet_size < unat w"
  proof -
    define space :: u32 where "space = of_nat (unat w - packet_size)"
    have s: "unat space = unat w - packet_size"
      unfolding space_def by (rule unat_of_nat_small) (simp add: less_imp_diff_less)
    then have "unat (space - 1) = unat w - packet_size - 1"
      using that by (subst unat_diff_le) (simp_all add: word_le_nat_alt)
    moreover have "fst (gen_range_u32 0 (space - 1) r) \<le> space - 1"
      by (rule gen_range_u32_bounds) simp
    ultimately show ?thesis
      using that by (simp add: random_trailer_len_def space_def [symmetric] case_prod_unfold Let_def word_le_nat_alt)
  qed
  show "packet_size + fst (random_trailer_len packet_size w r) \<le> max packet_size (unat w)"
    using * by (cases "packet_size < unat w") (auto simp: random_trailer_len_def)
  show "fst (random_trailer_len packet_size w r) > 0 \<Longrightarrow> packet_size + fst (random_trailer_len packet_size w r) < unat w"
    using * by (cases "packet_size < unat w") (auto simp: random_trailer_len_def)
qed

section \<open>Properties\<close>

text \<open>
  The header check accepts exactly the configurations whose four ranges are pairwise
  disjoint as sets of message types, so that a type value belongs to at most one message kind.
\<close>

theorem header_config_validate_disjoint:
  assumes "hc_wf c"
  shows "HeaderConfig_validate c = Ok () \<longleftrightarrow> hc_disjoint c"
  by (rule HeaderConfig_validate_Ok_iff [OF assms])

theorem header_config_validate_disjoint_witness:
  "HeaderConfig_validate HeaderConfig_wireguard_compatible = Ok () \<and>
   hc_disjoint HeaderConfig_wireguard_compatible"
proof -
  have "hc_wf HeaderConfig_wireguard_compatible"
    by code_simp
  moreover have "HeaderConfig_validate HeaderConfig_wireguard_compatible = Ok ()"
    by code_simp
  ultimately show ?thesis
    using header_config_validate_disjoint by blast
qed

text \<open>
  \<open>Display\<close> and \<open>parse\<close> of a header range are inverse on the ranges the constructors
  build, and \<open>parse\<close> only ever builds such ranges.
\<close>

theorem header_range_roundtrip:
  "(hr_wf hr \<longrightarrow> HeaderRange_parse (fmt_HeaderRange hr) = Ok hr) \<and>
   (HeaderRange_parse s = Ok hr' \<longrightarrow> hr_wf hr')"
  using pp_header.parse_fmt HeaderRange_parse_wf by blast

theorem header_range_roundtrip_witness:
  "HeaderRange_parse (fmt_HeaderRange \<lparr>hr_start = 5, hr_end = 4294967295\<rparr>) =
     Ok \<lparr>hr_start = 5, hr_end = 4294967295\<rparr> \<and>
   hr_wf \<lparr>hr_start = 7, hr_end = 70\<rparr>"
proof -
  have "HeaderRange_parse '' 7 - 70'' = Ok \<lparr>hr_start = 7, hr_end = 70\<rparr>"
    by code_simp
  moreover have "hr_wf \<lparr>hr_start = 5, hr_end = 4294967295\<rparr>"
    by code_simp
  ultimately show ?thesis
    using header_range_roundtrip [of "\<lparr>hr_start = 5, hr_end = 4294967295\<rparr>" "'' 7 - 70''"] by blast
qed

text \<open>
  The junk generator makes exactly \<open>count\<close> packets, each of a size in
  \<open>[min_size, max_size)\<close>, or of exactly \<open>min_size\<close> bytes when that interval is empty.
\<close>

theorem generate_junk_packets_sizes:
  "length (fst (generate_junk_packets c r)) = unat (jc_count c) \<and>
   list_all (\<lambda>p. junk_size_ok c (length p)) (fst (generate_junk_packets c r))"
  using junk_loop_ok [of c "unat (jc_count c)" r] by (simp add: generate_junk_packets_def list_all_iff)

text \<open>
  A random trailer never makes a datagram reach past the UDP window: a packet that already
  fills the window gets no trailer, any other stays strictly below the window with it.
\<close>

theorem random_trailer_within_window:
  "packet_size + fst (random_trailer_len packet_size w r) < unat w \<or>
   fst (random_trailer_len packet_size w r) = 0"
  using random_trailer_len_bound(2) [of packet_size w r] by auto

end
