(* ===== verification/Phobos.thy ===== *)
theory Phobos
  imports AmneziaConfig
begin

text \<open>
  The Phobos transport disguise of \<open>phobos/mod.rs\<close>: the configuration, the keystream derived from
  the key, the encoding of a message with its random tail, the STUN and RTP frames, and the
  codec that wraps and unwraps datagrams. Buffers changed in place are returned;
  \<^const>\<open>None\<close> is a failed assertion or an index out of range.
\<close>

definition MAX_KEY_LEN :: nat where "MAX_KEY_LEN = 255"
definition DEFAULT_MAX_DUMMY :: u16 where "DEFAULT_MAX_DUMMY = 4"
definition DUMMY_LIMIT :: u16 where "DUMMY_LIMIT = 1024"
definition HANDSHAKE_DUMMY_LIMIT :: u16 where "HANDSHAKE_DUMMY_LIMIT = 512"
definition MEDIA_DEFAULT_OBFUSCATE_BYTES :: u32 where "MEDIA_DEFAULT_OBFUSCATE_BYTES = 16"
definition BINDING_REQUEST_LEN :: nat where "BINDING_REQUEST_LEN = 28"
definition BINDING_SUCCESS_LEN :: nat where "BINDING_SUCCESS_LEN = 40"
definition STUN_HEADER_LEN :: nat where "STUN_HEADER_LEN = 20"
definition STUN_DATA_HEADER_LEN :: nat where "STUN_DATA_HEADER_LEN = 24"
definition RTP_HEADER_LEN :: nat where "RTP_HEADER_LEN = 12"
definition STUN_COOKIE :: bytes where "STUN_COOKIE = [0x21, 0x12, 0xA4, 0x42]"
definition STUN_BINDING_REQUEST :: u16 where "STUN_BINDING_REQUEST = 0x0001"
definition STUN_BINDING_SUCCESS :: u16 where "STUN_BINDING_SUCCESS = 0x0101"
definition STUN_DATA_INDICATION :: u16 where "STUN_DATA_INDICATION = 0x0115"
definition STUN_ATTR_XOR_MAPPED_ADDRESS :: u16 where "STUN_ATTR_XOR_MAPPED_ADDRESS = 0x0020"
definition STUN_ATTR_FINGERPRINT :: u16 where "STUN_ATTR_FINGERPRINT = 0x8028"
definition STUN_ATTR_DATA :: u16 where "STUN_ATTR_DATA = 0x0013"
definition STUN_FINGERPRINT_XOR :: u32 where "STUN_FINGERPRINT_XOR = 0x5354554E"
definition WG_HANDSHAKE_INITIATION :: u32 where "WG_HANDSHAKE_INITIATION = 1"

definition MEDIA_PRESETS :: "(u8 \<times> u16) list" where
  "MEDIA_PRESETS =
    [(96, 3000), (96, 3600), (96, 3750), (96, 1500), (96, 6000), (97, 3000), (97, 3600), (97, 4500), (97, 9000),
     (97, 18000), (98, 3000), (98, 3600), (98, 3750), (98, 1500), (98, 6000), (99, 3000), (99, 3600), (100, 3000),
     (100, 1500), (100, 3750), (102, 3000), (102, 1500), (102, 3600), (104, 3000), (104, 1500), (106, 3000),
     (106, 3750), (108, 3000), (108, 1500), (110, 3000), (112, 3000), (112, 3600), (114, 3000), (114, 1500),
     (116, 3000), (118, 3000), (119, 3000), (120, 3000), (122, 3000), (123, 3000), (124, 3000), (125, 3000),
     (125, 1500), (126, 3000), (127, 3000), (127, 1500), (127, 3750), (96, 1502), (96, 3003), (97, 3753)]"

section \<open>Configuration\<close>

datatype Masking = MaskingNone | Stun | Media

definition Masking_parse :: "string \<Rightarrow> ConfigError + Masking" where
  "Masking_parse value =
     (let v = to_ascii_lowercase (trim value) in
      if v = ''none'' \<or> v = ''auto'' \<or> v = ''tls'' then Ok MaskingNone
      else if v = ''stun'' then Ok Stun
      else if v = ''media'' then Ok Media
      else Err (InvalidFieldValue ''masking'' ''expected none, stun, media, auto or tls''))"

fun overhead :: "Masking \<Rightarrow> nat" where
  "overhead MaskingNone = 0"
| "overhead Stun = STUN_DATA_HEADER_LEN"
| "overhead Media = RTP_HEADER_LEN"

fun control_interval :: "Masking \<Rightarrow> nat option" where
  "control_interval MaskingNone = None"
| "control_interval Stun = Some 10"
| "control_interval Media = Some 5"

fun max_message_len :: "Masking \<Rightarrow> nat option" where
  "max_message_len Stun = Some 65535"
| "max_message_len _ = None"

record media_params =
  mp_payload_type :: u8
  mp_ssrc :: u32
  mp_timestamp_step :: u16

record phobos_config =
  ph_key :: bytes
  ph_masking :: Masking
  ph_max_dummy :: u16
  ph_obfuscate_bytes :: u32
  ph_media :: media_params

definition validate_key :: "bytes \<Rightarrow> ConfigError + unit" where
  "validate_key key =
     (if key = [] then Err (InvalidFieldValue ''key'' ''must not be empty'')
      else if length key > MAX_KEY_LEN then Err (InvalidFieldValue ''key'' ''must be at most 255 bytes'')
      else Ok ())"

definition PhobosConfig_new :: "bytes \<Rightarrow> ConfigError + phobos_config" where
  "PhobosConfig_new key =
     and_then (validate_key key) (\<lambda>_.
       Ok \<lparr>ph_key = key, ph_masking = MaskingNone, ph_max_dummy = DEFAULT_MAX_DUMMY, ph_obfuscate_bytes = 0,
           ph_media = \<lparr>mp_payload_type = 0, mp_ssrc = 0, mp_timestamp_step = 0\<rparr>\<rparr>)"

definition set_key :: "bytes \<Rightarrow> phobos_config \<Rightarrow> ConfigError + phobos_config" where
  "set_key key c = and_then (validate_key key) (\<lambda>_. Ok (c\<lparr>ph_key := key\<rparr>))"

text \<open>\<open>str::parse::<i64>\<close>.\<close>

definition parse_i64 :: "string \<Rightarrow> int_error_kind + int" where
  "parse_i64 s =
     (case s of
        [] \<Rightarrow> Err Empty
      | c # cs \<Rightarrow>
          if c = CHR ''-'' then
            (if cs = [] then Err InvalidDigit
             else map_sum (\<lambda>e. if e = PosOverflow then NegOverflow else e) (\<lambda>n. - int n) (parse_digits 10 (2 ^ 63 + 1) 0 cs))
          else map_sum id int (from_str_radix 10 (2 ^ 63) s))"

definition parse_int :: "string \<Rightarrow> string \<Rightarrow> int \<Rightarrow> int \<Rightarrow> ConfigError + int" where
  "parse_int name value lo hi =
     (case parse_i64 value of
        Inr v \<Rightarrow> if lo \<le> v \<and> v \<le> hi then Ok v else Err (InvalidFieldValue (trim name) ''out of range'')
      | Inl _ \<Rightarrow> Err (InvalidFieldValue (trim name) ''must be an integer''))"

definition parse_ssrc :: "string \<Rightarrow> ConfigError + u32" where
  "parse_ssrc value =
     map_err (\<lambda>_. InvalidFieldValue ''media-ssrc'' ''must be a 32-bit unsigned integer'')
       (map_sum id of_nat
         (case (case strip_prefix ''0x'' value of Some h \<Rightarrow> Some h | None \<Rightarrow> strip_prefix ''0X'' value) of
            Some hex \<Rightarrow> from_str_radix 16 (2 ^ 32) hex
          | None \<Rightarrow>
              if length value > 1 \<and> hd value = CHR ''0'' then from_str_radix 8 (2 ^ 32) (tl value)
              else from_str_radix 10 (2 ^ 32) value))"

text \<open>The \<open>as\<close> casts of the parsed integers wrap at the width of the field.\<close>

definition PhobosConfig_set :: "string \<Rightarrow> string \<Rightarrow> phobos_config \<Rightarrow> ConfigError + bool \<times> phobos_config" where
  "PhobosConfig_set name value c =
     (let value = trim value; field = trim name; done = (\<lambda>c. (True, c)) in
      if field = ''key'' then map_sum id done (set_key (map of_char value) c)
      else if field = ''masking'' then map_sum id (\<lambda>m. done (c\<lparr>ph_masking := m\<rparr>)) (Masking_parse value)
      else if field = ''max-dummy'' then
        map_sum id (\<lambda>v. done (c\<lparr>ph_max_dummy := of_int v\<rparr>)) (parse_int name value 0 (uint DUMMY_LIMIT))
      else if field = ''obfuscate-bytes'' then
        map_sum id (\<lambda>v. done (c\<lparr>ph_obfuscate_bytes := of_int v\<rparr>)) (parse_int name value 0 (2 ^ 31 - 1))
      else if field = ''media-pt'' then
        map_sum id (\<lambda>v. done (c\<lparr>ph_media := (ph_media c)\<lparr>mp_payload_type := of_int v\<rparr>\<rparr>)) (parse_int name value 0 127)
      else if field = ''media-ssrc'' then
        map_sum id (\<lambda>v. done (c\<lparr>ph_media := (ph_media c)\<lparr>mp_ssrc := v\<rparr>\<rparr>)) (parse_ssrc value)
      else if field = ''media-clock'' then
        map_sum id (\<lambda>fps. done (c\<lparr>ph_media := (ph_media c)\<lparr>mp_timestamp_step := if fps = 0 then 0 else of_int (90000 div fps)\<rparr>\<rparr>))
          (parse_int name value 0 1000)
      else Ok (False, c))"

definition PhobosConfig_validate :: "phobos_config \<Rightarrow> ConfigError + unit" where
  "PhobosConfig_validate c =
     and_then (validate_key (ph_key c)) (\<lambda>_.
       if ph_max_dummy c > DUMMY_LIMIT then Err (InvalidFieldValue ''max-dummy'' ''must be between 0 and 1024'')
       else if ph_obfuscate_bytes c > 0x7FFFFFFF then
         Err (InvalidFieldValue ''obfuscate-bytes'' ''must be between 0 and 2147483647'')
       else if mp_payload_type (ph_media c) > 127 then Err (InvalidFieldValue ''media-pt'' ''must be between 0 and 127'')
       else Ok ())"

definition effective_obfuscate_bytes :: "phobos_config \<Rightarrow> u32" where
  "effective_obfuscate_bytes c =
     (if ph_obfuscate_bytes c = 0 \<and> ph_masking c = Media then MEDIA_DEFAULT_OBFUSCATE_BYTES else ph_obfuscate_bytes c)"

section \<open>Encoding\<close>

definition crc8_bit :: "u8 \<times> u8 \<Rightarrow> u8 \<times> u8" where
  "crc8_bit s =
     (let (crc, byte) = s; mix = (crc XOR byte) AND 1; crc = drop_bit 1 crc in
      (if mix \<noteq> 0 then crc XOR 0x8C else crc, drop_bit 1 byte))"

definition CRC8 :: bytes where
  "CRC8 = map (\<lambda>i. fst ((crc8_bit ^^ 8) (0, of_nat i))) [0..<256]"

definition crc32_bit :: "u32 \<Rightarrow> u32" where
  "crc32_bit crc = (if crc AND 1 \<noteq> 0 then drop_bit 1 crc XOR 0xEDB88320 else drop_bit 1 crc)"

definition CRC32 :: "u32 list" where
  "CRC32 = map (\<lambda>i. (crc32_bit ^^ 8) (of_nat i)) [0..<256]"

definition crc32 :: "bytes \<Rightarrow> u32" where
  "crc32 data =
     NOT (foldl (\<lambda>crc b. CRC32 ! unat ((crc XOR ucast b) AND 0xFF) XOR drop_bit 8 crc) (NOT 0) data)"

text \<open>\<open>adjusted.iter().cycle()\<close> zipped with a region of \<open>n\<close> bytes, the running CRC-8 as its mask.\<close>

fun crc8_stream :: "nat \<Rightarrow> bytes \<Rightarrow> nat \<Rightarrow> u8 \<Rightarrow> bytes" where
  "crc8_stream 0 adjusted i crc = []"
| "crc8_stream (Suc n) adjusted i crc =
     (let crc = CRC8 ! unat (crc XOR adjusted ! (i mod length adjusted)) in
      crc # crc8_stream n adjusted (Suc i) crc)"

definition region_mask :: "bytes \<Rightarrow> nat \<Rightarrow> bytes" where
  "region_mask key n = (let base = of_nat (n + length key) in crc8_stream n (map (\<lambda>k. k + base) key) 0 0)"

definition key_ok :: "bytes \<Rightarrow> bool" where
  "key_ok key \<longleftrightarrow> key \<noteq> [] \<and> length key \<le> MAX_KEY_LEN"

definition apply_keystream :: "bytes \<Rightarrow> bytes \<Rightarrow> bytes option" where
  "apply_keystream buf key = (if key_ok key then Some (xor_prefix buf (region_mask key (length buf))) else None)"

definition looks_plain :: "bytes \<Rightarrow> bool" where
  "looks_plain buf \<longleftrightarrow> length buf \<ge> 4 \<and> 1 \<le> buf ! 0 \<and> buf ! 0 \<le> 4 \<and> buf ! 1 = 0 \<and> buf ! 2 = 0 \<and> buf ! 3 = 0"

definition dummy_bound :: "nat \<Rightarrow> u32 \<Rightarrow> u16 \<Rightarrow> nat \<Rightarrow> u16" where
  "dummy_bound len msg_type max_dummy ob =
     (let room = DUMMY_LIMIT - of_nat len;
          room = (if ob > 0 \<and> ob - len + 1 < unat room then of_nat (ob - len + 1) else room)
      in if msg_type = 1 \<or> msg_type = 2 then min room HANDSHAKE_DUMMY_LIMIT
         else if (msg_type = 3 \<or> msg_type = 4) \<and> max_dummy > 0 then min room max_dummy
         else 0)"

text \<open>The message \<open>buf[start..]\<close> and its encoding; the bytes before \<open>start\<close> are left alone.\<close>

definition encode :: "bytes \<Rightarrow> nat \<Rightarrow> bytes \<Rightarrow> u16 \<Rightarrow> u32 \<Rightarrow> rng \<Rightarrow> (bytes \<times> rng) option" where
  "encode buf start key max_dummy obfuscate_bytes rng =
     (let msg = drop start buf; len = length msg; ob = unat obfuscate_bytes;
          partial = (ob > 0 \<and> ob < len)
      in if len < 4 then None
         else let msg_type = of_le_bytes (take 4 msg) :: u32;
                  (r, rng) = gen_range_u32 1 255 rng;
                  bound = (if \<not> partial \<and> len < unat DUMMY_LIMIT then dummy_bound len msg_type max_dummy ob else 0);
                  (dummy, rng) = (if bound > 0 then gen_range_u16 0 (bound - 1) rng else (0, rng));
                  (tail, rng) = fill_bytes (unat dummy) rng;
                  payload = (msg ! 0 XOR ucast r) # ucast r # le_bytes 2 dummy @ drop 4 msg @ tail;
                  masked = (if partial then ob else length payload)
              in case apply_keystream (take masked payload) key of
                   None \<Rightarrow> None
                 | Some region \<Rightarrow> Some (take start buf @ region @ drop masked payload, rng))"

text \<open>The payload as it is left in place, with the length of the message in it.\<close>

definition decode :: "bytes \<Rightarrow> bytes \<Rightarrow> u32 \<Rightarrow> (bytes \<times> nat option) option" where
  "decode payload key obfuscate_bytes =
     (let len = length payload; ob = unat obfuscate_bytes;
          masked = (if ob > 0 \<and> ob < len then ob else len)
      in if len < 4 then Some (payload, None)
         else case apply_keystream (take masked payload) key of
                None \<Rightarrow> None
              | Some region \<Rightarrow>
                  let payload = region @ drop masked payload in
                  if looks_plain payload then Some (payload, Some len)
                  else let dummy = unat (of_le_bytes (slice payload 2 4) :: u16);
                           payload = (payload ! 0 XOR payload ! 1) # 0 # 0 # 0 # drop 4 payload
                       in Some (payload, if dummy \<le> len \<and> len - dummy \<ge> 4 then Some (len - dummy) else None))"

section \<open>STUN\<close>

definition write_stun_header :: "bytes \<Rightarrow> u16 \<Rightarrow> u16 \<Rightarrow> bytes \<Rightarrow> bytes option" where
  "write_stun_header out msg_type msg_len txid =
     write_at out 0 (be_bytes 2 msg_type @ be_bytes 2 msg_len @ STUN_COOKIE @ txid)"

definition finish_with_fingerprint :: "bytes \<Rightarrow> nat \<Rightarrow> bytes option" where
  "finish_with_fingerprint packet at =
     Option.bind (write_at packet 2 [0, 0]) (\<lambda>packet.
       let fp = crc32 (take at packet) XOR STUN_FINGERPRINT_XOR in
       Option.bind (write_at packet at (be_bytes 2 STUN_ATTR_FINGERPRINT @ be_bytes 2 (4 :: u16) @ be_bytes 4 fp))
         (\<lambda>packet. write_at packet 2 (be_bytes 2 (of_nat (at + 8 - STUN_HEADER_LEN) :: u16))))"

definition build_binding_request :: "bytes \<Rightarrow> bytes option" where
  "build_binding_request txid =
     Option.bind (write_stun_header (replicate BINDING_REQUEST_LEN 0) STUN_BINDING_REQUEST 0 txid)
       (\<lambda>out. finish_with_fingerprint out STUN_HEADER_LEN)"

text \<open>\<open>SocketAddr\<close>: the octets of the address and the port.\<close>

datatype socket_addr = SocketAddrV4 (sa_octets: bytes) (sa_port: u16) | SocketAddrV6 (sa_octets: bytes) (sa_port: u16)

definition to_ipv4_mapped :: "bytes \<Rightarrow> bytes option" where
  "to_ipv4_mapped ip = (if take 12 ip = replicate 10 0 @ [0xFF, 0xFF] then Some (drop 12 ip) else None)"

fun source_ipv4 :: "socket_addr \<Rightarrow> bytes option" where
  "source_ipv4 (SocketAddrV4 ip port) = Some ip"
| "source_ipv4 (SocketAddrV6 ip port) = to_ipv4_mapped ip"

text \<open>The outer \<^const>\<open>None\<close> is a panic, the inner one the missing reply.\<close>

definition build_binding_success :: "bytes \<Rightarrow> socket_addr \<Rightarrow> bytes option option" where
  "build_binding_success txid source =
     (case source_ipv4 source of
        None \<Rightarrow> Some None
      | Some ip \<Rightarrow>
          map_option Some
            (Option.bind (write_stun_header (replicate BINDING_SUCCESS_LEN 0) STUN_BINDING_SUCCESS 0 txid) (\<lambda>out.
             Option.bind (write_at out 20
               (be_bytes 2 STUN_ATTR_XOR_MAPPED_ADDRESS @ be_bytes 2 (8 :: u16) @ [0, 0x01] @
                xor_prefix (be_bytes 2 (sa_port source)) STUN_COOKIE @ xor_prefix ip STUN_COOKIE)) (\<lambda>out.
             finish_with_fingerprint out 32))))"

datatype stun_outcome = StunData nat | StunReply bytes | StunDrop

text \<open>Called on datagrams that carry the cookie, so of eight bytes or more.\<close>

definition handle_stun :: "bytes \<Rightarrow> socket_addr \<Rightarrow> stun_outcome option" where
  "handle_stun datagram source =
     (let n = length datagram; msg_type = of_be_bytes (slice datagram 0 2) :: u16 in
      if n < 2 then None
      else if msg_type = STUN_BINDING_REQUEST then
        (if n < STUN_HEADER_LEN then Some StunDrop
         else map_option (\<lambda>r. case r of Some reply \<Rightarrow> StunReply reply | None \<Rightarrow> StunDrop)
                (build_binding_success (slice datagram 8 20) source))
      else if msg_type = STUN_DATA_INDICATION then
        (if n < STUN_DATA_HEADER_LEN then Some StunDrop
         else let msg_len = unat (of_be_bytes (slice datagram 2 4) :: u16);
                  attr = of_be_bytes (slice datagram 20 22) :: u16;
                  data_len = unat (of_be_bytes (slice datagram 22 24) :: u16)
              in if msg_len + STUN_HEADER_LEN > n \<or> attr \<noteq> STUN_ATTR_DATA \<or> data_len + STUN_DATA_HEADER_LEN > n
                 then Some StunDrop else Some (StunData data_len))
      else Some StunDrop)"

definition has_stun_cookie :: "bytes \<Rightarrow> bool" where
  "has_stun_cookie datagram \<longleftrightarrow> length datagram \<ge> 8 \<and> slice datagram 4 8 = STUN_COOKIE"

section \<open>RTP\<close>

record rtp_stream =
  rs_sequence :: u16
  rs_timestamp :: u32
  rs_ssrc :: u32
  rs_timestamp_step :: u16
  rs_payload_type :: u8

definition RtpStream_new :: "media_params \<Rightarrow> rng \<Rightarrow> rtp_stream \<times> rng" where
  "RtpStream_new params rng =
     (let (sequence, rng) = gen_range_u16 0 0xFFFF rng;
          (timestamp, rng) = gen_range_u32 0 0xFFFFFFFF rng;
          (ssrc, rng) = (if mp_ssrc params \<noteq> 0 then (mp_ssrc params, rng) else gen_range_u32 1 0xFFFFFFFF rng);
          (preset, rng) = gen_range_u32 0 (of_nat (length MEDIA_PRESETS) - 1) rng;
          (preset_pt, preset_step) = MEDIA_PRESETS ! unat preset
      in (\<lparr>rs_sequence = sequence, rs_timestamp = timestamp, rs_ssrc = ssrc,
           rs_timestamp_step = (if mp_timestamp_step params \<noteq> 0 then mp_timestamp_step params else preset_step),
           rs_payload_type = (if mp_payload_type params \<noteq> 0 then mp_payload_type params else preset_pt)\<rparr>, rng))"

definition RtpStream_write_header :: "rtp_stream \<Rightarrow> bytes \<Rightarrow> (bytes \<times> rtp_stream) option" where
  "RtpStream_write_header s out =
     map_option (\<lambda>out. (out, s\<lparr>rs_sequence := rs_sequence s + 1,
                               rs_timestamp := rs_timestamp s + ucast (rs_timestamp_step s)\<rparr>))
       (write_at out 0 ([0x80, 0x80 OR (rs_payload_type s AND 0x7F)] @ be_bytes 2 (rs_sequence s) @
                        be_bytes 4 (rs_timestamp s) @ be_bytes 4 (rs_ssrc s)))"

section \<open>The codec\<close>

datatype wrap_error = WrapTooShort | WrapTooLong

datatype unwrapped = UnwrappedWireGuard bytes | UnwrappedReply bytes | UnwrappedDrop

record phobos_codec =
  pc_config :: phobos_config
  pc_obfuscate_bytes :: u32
  pc_rng :: rng
  pc_rtp :: "rtp_stream option"

definition PhobosCodec_with_rng :: "phobos_config \<Rightarrow> rng \<Rightarrow> ConfigError + phobos_codec" where
  "PhobosCodec_with_rng config rng =
     and_then (PhobosConfig_validate config) (\<lambda>_.
       Ok \<lparr>pc_config = config, pc_obfuscate_bytes = effective_obfuscate_bytes config, pc_rng = rng, pc_rtp = None\<rparr>)"

definition binding_request :: "phobos_codec \<Rightarrow> (bytes \<times> phobos_codec) option" where
  "binding_request c =
     (let (txid, rng) = fill_bytes 12 (pc_rng c) in
      map_option (\<lambda>req. (req, c\<lparr>pc_rng := rng\<rparr>)) (build_binding_request txid))"

text \<open>The frame around an encoded payload, written over the first \<open>overhead\<close> bytes of \<open>out\<close>.\<close>

definition write_frame :: "phobos_codec \<Rightarrow> bytes \<Rightarrow> nat \<Rightarrow> (bytes \<times> phobos_codec) option" where
  "write_frame c out payload_len =
     (case ph_masking (pc_config c) of
        MaskingNone \<Rightarrow> Some (out, c)
      | Stun \<Rightarrow>
          (let (txid, rng) = fill_bytes 12 (pc_rng c) in
           Option.bind (write_stun_header out STUN_DATA_INDICATION 0 txid) (\<lambda>out.
           Option.bind (write_at out 20 (be_bytes 2 STUN_ATTR_DATA @ be_bytes 2 (of_nat payload_len :: u16))) (\<lambda>out.
           Some (out, c\<lparr>pc_rng := rng\<rparr>))))
      | Media \<Rightarrow>
          (let (s, rng) = (case pc_rtp c of Some s \<Rightarrow> (s, pc_rng c)
                                          | None \<Rightarrow> RtpStream_new (ph_media (pc_config c)) (pc_rng c)) in
           map_option (\<lambda>(out, s). (out, c\<lparr>pc_rng := rng, pc_rtp := Some s\<rparr>)) (RtpStream_write_header s out)))"

text \<open>The request to send first, if any, the wrapped datagram and the codec.\<close>

definition wrap :: "phobos_codec \<Rightarrow> bytes \<Rightarrow> (wrap_error, bytes option \<times> bytes \<times> phobos_codec) fallible" where
  "wrap c datagram =
     (let masking = ph_masking (pc_config c); header = overhead masking in
      if length datagram < 4 then Some (Err WrapTooShort)
      else if (case max_message_len masking of Some m \<Rightarrow> length datagram > m | None \<Rightarrow> False) then Some (Err WrapTooLong)
      else
        Option.bind
          (if of_le_bytes (take 4 datagram) = WG_HANDSHAKE_INITIATION \<and> control_interval masking \<noteq> None
           then map_option (\<lambda>(req, c). (Some req, c)) (binding_request c) else Some (None, c)) (\<lambda>(preamble, c).
        Option.bind
          (encode (replicate header 0 @ datagram) header (ph_key (pc_config c)) (ph_max_dummy (pc_config c))
             (pc_obfuscate_bytes c) (pc_rng c)) (\<lambda>(out, rng).
        map_option (\<lambda>(out, c). Ok (preamble, out, c))
          (write_frame (c\<lparr>pc_rng := rng\<rparr>) out (length out - header)))))"

text \<open>Where the payload of a datagram lies, or the result when it carries none.\<close>

definition locate_payload :: "phobos_codec \<Rightarrow> bytes \<Rightarrow> socket_addr \<Rightarrow> (unwrapped + nat \<times> nat) option" where
  "locate_payload c datagram source =
     (let n = length datagram; media = ph_media (pc_config c);
          stun = map_option (\<lambda>o'. case o' of StunData len \<Rightarrow> Inr (STUN_DATA_HEADER_LEN, len)
                                          | StunReply reply \<Rightarrow> Inl (UnwrappedReply reply)
                                          | StunDrop \<Rightarrow> Inl UnwrappedDrop) (handle_stun datagram source)
      in case ph_masking (pc_config c) of
           MaskingNone \<Rightarrow> Some (Inr (0, n))
         | Stun \<Rightarrow> if \<not> has_stun_cookie datagram then Some (Inl UnwrappedDrop) else stun
         | Media \<Rightarrow>
             if has_stun_cookie datagram then stun
             else if n < RTP_HEADER_LEN + 4 \<or> datagram ! 0 AND 0xC0 \<noteq> 0x80
                  \<or> (mp_payload_type media \<noteq> 0 \<and> datagram ! 1 AND 0x7F \<noteq> mp_payload_type media)
                  \<or> (mp_ssrc media \<noteq> 0 \<and> slice datagram 8 12 \<noteq> be_bytes 4 (mp_ssrc media))
             then Some (Inl UnwrappedDrop)
             else Some (Inr (RTP_HEADER_LEN, n - RTP_HEADER_LEN)))"

definition unwrap :: "phobos_codec \<Rightarrow> bytes \<Rightarrow> socket_addr \<Rightarrow> unwrapped option" where
  "unwrap c datagram source =
     (if length datagram < 4 \<or> looks_plain datagram then Some UnwrappedDrop
      else
        Option.bind (locate_payload c datagram source) (\<lambda>p.
          case p of
            Inl u \<Rightarrow> Some u
          | Inr (offset, len) \<Rightarrow>
              if len < 4 then Some UnwrappedDrop
              else if offset + len > length datagram then None
              else map_option (\<lambda>(payload, m). case m of Some m \<Rightarrow> UnwrappedWireGuard (take m payload) | None \<Rightarrow> UnwrappedDrop)
                     (decode (slice datagram offset (offset + len)) (ph_key (pc_config c)) (pc_obfuscate_bytes c))))"

section \<open>Tables and masks\<close>

lemma crc32_bit_alt: "crc32_bit x = drop_bit 1 x XOR (if bit x 0 then 0xEDB88320 else 0)"
  by (simp add: crc32_bit_def and_one_eq bit_0 odd_iff_mod_2_eq_one)

lemma crc32_bit_xor: "crc32_bit (x XOR y) = crc32_bit x XOR crc32_bit y"
  by (auto simp: crc32_bit_alt bit_xor_iff ac_simps)

lemma crc32_bits_xor: "(crc32_bit ^^ n) (x XOR y) = (crc32_bit ^^ n) x XOR (crc32_bit ^^ n) y"
  by (induction n) (simp_all add: crc32_bit_xor)

lemma crc32_bits_high:
  assumes "\<And>i. i < n \<Longrightarrow> \<not> bit x i"
  shows "(crc32_bit ^^ n) x = drop_bit n x"
  using assms
proof (induction n)
  case (Suc n)
  then have "(crc32_bit ^^ n) x = drop_bit n x" by simp
  then have "(crc32_bit ^^ Suc n) x = crc32_bit (drop_bit n x)" by simp
  also have "\<dots> = drop_bit (Suc n) x"
    using Suc.prems [of n] by (simp add: crc32_bit_alt bit_drop_bit_eq)
  finally show ?case .
qed simp

lemma crc32_byte_step: "(crc32_bit ^^ 8) x = CRC32 ! unat (x AND 0xFF) XOR drop_bit 8 x"
proof -
  have low: "x AND 0xFF = take_bit 8 x" by (simp add: take_bit_eq_mask mask_eq_exp_minus_1)
  have "x = take_bit 8 x XOR (x AND NOT (mask 8))"
    by (rule bit_eqI) (auto simp: bit_simps)
  then have "(crc32_bit ^^ 8) x = (crc32_bit ^^ 8) (take_bit 8 x) XOR (crc32_bit ^^ 8) (x AND NOT (mask 8))"
    by (metis crc32_bits_xor)
  moreover have "(crc32_bit ^^ 8) (x AND NOT (mask 8)) = drop_bit 8 (x AND NOT (mask 8))"
    by (rule crc32_bits_high) (simp add: bit_simps)
  moreover have "drop_bit 8 (x AND NOT (mask 8)) = drop_bit 8 x"
    by (rule bit_eqI) (auto simp: bit_simps dest: bit_imp_le_length)
  moreover have "unat (take_bit 8 x) < 256"
    using take_bit_nat_less_exp [of 8 "unat x"] by (simp add: unsigned_take_bit_eq)
  then have "CRC32 ! unat (take_bit 8 x) = (crc32_bit ^^ 8) (take_bit 8 x)"
    by (simp add: CRC32_def)
  ultimately show ?thesis by (simp only: low)
qed

text \<open>The reference: one division step per bit, least significant bit first.\<close>

definition crc32_bitwise :: "bytes \<Rightarrow> u32" where
  "crc32_bitwise data = NOT (foldl (\<lambda>crc b. (crc32_bit ^^ 8) (crc XOR ucast b)) (NOT 0) data)"

lemma length_crc8_stream [simp, length_simps]: "length (crc8_stream n adjusted i crc) = n"
  by (induction n arbitrary: i crc) (simp_all add: Let_def)

lemma length_region_mask [simp, length_simps]: "length (region_mask key n) = n"
  by (simp add: region_mask_def Let_def)

lemma apply_keystream_some: "key_ok key \<Longrightarrow> apply_keystream buf key = Some (xor_prefix buf (region_mask key (length buf)))"
  by (simp add: apply_keystream_def)

section \<open>Encoding and decoding\<close>

lemma crc32_byte_drop: "drop_bit 8 (ucast (b :: u8) :: u32) = 0"
  by (rule bit_eqI) (auto simp: bit_simps dest: bit_imp_le_length)

lemma unat_dummy_bound:
  assumes "len < 1024" "ob = 0 \<or> len \<le> ob"
  shows "len + unat (dummy_bound len ty md ob) \<le> 1024"
    and "0 < ob \<Longrightarrow> len + unat (dummy_bound len ty md ob) \<le> ob + 1"
proof -
  have len: "unat (of_nat len :: u16) = len"
    using assms by (intro unat_of_nat_small) simp
  then have "(of_nat len :: u16) \<le> DUMMY_LIMIT"
    using assms by (simp add: word_le_nat_alt DUMMY_LIMIT_def)
  then have room: "unat (DUMMY_LIMIT - of_nat len) = 1024 - len"
    by (simp add: unat_diff_le len DUMMY_LIMIT_def)
  define rm where "rm = (if ob > 0 \<and> ob - len + 1 < unat (DUMMY_LIMIT - of_nat len) then of_nat (ob - len + 1)
                         else DUMMY_LIMIT - of_nat len :: u16)"
  have rm: "unat rm \<le> 1024 - len" "0 < ob \<Longrightarrow> unat rm \<le> ob - len + 1"
    unfolding rm_def using assms room unat_of_nat_small [of "ob - len + 1", where 'a = 16]
    by (auto simp del: of_nat_add of_nat_Suc of_nat_diff)
  have "dummy_bound len ty md ob \<le> rm"
    unfolding dummy_bound_def rm_def [symmetric] Let_def by simp
  then have "unat (dummy_bound len ty md ob) \<le> unat rm"
    by (simp add: word_le_nat_alt)
  then show "len + unat (dummy_bound len ty md ob) \<le> 1024"
    and "0 < ob \<Longrightarrow> len + unat (dummy_bound len ty md ob) \<le> ob + 1"
    using rm assms by auto
qed

text \<open>
  What \<open>encode\<close> leaves: the message with its first four bytes replaced by a random byte and the
  length of the tail, followed by the tail. Sender and receiver mask the same region of it.
\<close>

definition scrambled :: "bytes \<Rightarrow> u8 \<Rightarrow> u16 \<Rightarrow> bytes \<Rightarrow> bytes" where
  "scrambled msg r dummy tail = (msg ! 0 XOR r) # r # le_bytes 2 dummy @ drop 4 msg @ tail"

definition masked_len :: "u32 \<Rightarrow> nat \<Rightarrow> nat" where
  "masked_len ob len = (if unat ob > 0 \<and> unat ob < len then unat ob else len)"

definition mask_region :: "bytes \<Rightarrow> u32 \<Rightarrow> bytes \<Rightarrow> bytes" where
  "mask_region key ob p =
     (let n = masked_len ob (length p) in xor_prefix (take n p) (region_mask key n) @ drop n p)"

lemma masked_len_le: "masked_len ob len \<le> len"
  by (simp add: masked_len_def)

lemma length_mask_region [simp, length_simps]: "length (mask_region key ob p) = length p"
  by (simp add: mask_region_def Let_def masked_len_le)

lemma mask_region_involution [simp]: "mask_region key ob (mask_region key ob p) = p"
proof -
  define n where "n = masked_len ob (length p)"
  have n: "n \<le> length p" by (simp add: n_def masked_len_le)
  have "length (xor_prefix (take n p) (region_mask key n) @ drop n p) = length p"
    using n by simp
  then show ?thesis
    using n unfolding mask_region_def Let_def n_def [symmetric] by (simp add: n_def [symmetric])
qed

lemma length_scrambled: "4 \<le> length msg \<Longrightarrow> length (scrambled msg r d tail) = length msg + length tail"
  by (simp add: scrambled_def)

lemma random_byte_nonzero: "gen_range_u32 1 255 rng = (r, rng') \<Longrightarrow> (ucast r :: u8) \<noteq> 0"
proof -
  assume "gen_range_u32 1 255 rng = (r, rng')"
  then have "1 \<le> r" "r \<le> 255"
    using gen_range_u32_bounds [of 1 255 rng] by simp_all
  then have "1 \<le> unat r" "unat r \<le> 255"
    by (simp_all add: word_le_nat_alt)
  then have "unat (ucast r :: u8) = unat r"
    by (intro unat_ucast_small) simp
  with \<open>1 \<le> unat r\<close> show ?thesis
    by (metis not_one_le_zero unat_0)
qed

lemma dummy_draw:
  assumes "(if bound > 0 then gen_range_u16 0 (bound - 1) rng else (0, rng)) = (d, rng')"
  shows "d = 0 \<or> unat d < unat bound"
proof (cases "bound > 0")
  case True
  then have "d \<le> bound - 1"
    using assms gen_range_u16_bounds [of 0 "bound - 1" rng] by simp
  moreover have "unat (bound - 1) = unat bound - 1" "0 < unat bound"
    using True by (simp_all add: unat_minus_one word_greater_zero_iff unat_gt_0)
  ultimately have "unat d < unat bound"
    unfolding word_le_nat_alt by linarith
  then show ?thesis ..
qed (use assms in simp)

lemma encode_shape:
  assumes key: "key_ok key" and len: "4 \<le> length msg" and start: "length pre = start"
  obtains r d tail rng' where
    "encode (pre @ msg) start key md ob rng = Some (pre @ mask_region key ob (scrambled msg r d tail), rng')"
    "r \<noteq> 0" "length tail = unat d" "d = 0 \<or> length msg + unat d < 1024"
proof -
  define partial where "partial \<longleftrightarrow> unat ob > 0 \<and> unat ob < length msg"
  define bound where "bound = (if \<not> partial \<and> length msg < unat DUMMY_LIMIT
    then dummy_bound (length msg) (of_le_bytes (take 4 msg)) md (unat ob) else 0)"
  obtain rr rng1 where r: "gen_range_u32 1 255 rng = (rr, rng1)" by fastforce
  obtain d rng2 where d: "(if bound > 0 then gen_range_u16 0 (bound - 1) rng1 else (0, rng1)) = (d, rng2)" by fastforce
  obtain tail rng3 where t: "fill_bytes (unat d) rng2 = (tail, rng3)" by fastforce
  have tail: "length tail = unat d" using t by (rule fill_bytes_length)
  have draw: "d = 0 \<or> \<not> partial \<and> length msg < 1024 \<and>
      unat d < unat (dummy_bound (length msg) (of_le_bytes (take 4 msg)) md (unat ob))"
    using dummy_draw [OF d] unfolding bound_def by (auto simp: DUMMY_LIMIT_def split: if_splits)
  define p where "p = scrambled msg (ucast rr) d tail"
  have lp: "length p = length msg + unat d"
    using len tail by (simp add: p_def length_scrambled)
  have fits: "unat d = 0 \<or> length msg + unat d < 1024 \<and> (unat ob = 0 \<or> length msg + unat d \<le> unat ob)"
    using draw unat_dummy_bound [of "length msg" "unat ob" "of_le_bytes (take 4 msg)" md]
    unfolding partial_def by (cases "unat ob = 0") (auto simp: not_less)
  have masked: "(if partial then unat ob else length p) = masked_len ob (length p)"
    using fits unfolding partial_def masked_len_def lp by auto
  have "encode (pre @ msg) start key md ob rng = Some (pre @ mask_region key ob p, rng3)"
  proof -
    have buf: "drop start (pre @ msg) = msg" "take start (pre @ msg) = pre" "\<not> length msg < 4"
      using start len by simp_all
    show ?thesis
      unfolding encode_def Let_def buf(1,2) partial_def [symmetric] bound_def [symmetric] r prod.case d t
        scrambled_def [symmetric] p_def [symmetric] masked apply_keystream_some [OF key] mask_region_def
      using buf(3) by (simp add: masked_len_le min_absorb2)
  qed
  moreover have "d = 0 \<or> length msg + unat d < 1024"
    using fits by (auto simp: unat_eq_zero)
  ultimately show thesis
    using that [of "ucast rr" d tail rng3] random_byte_nonzero [OF r] tail unfolding p_def by blast
qed

lemma scrambled_fields:
  assumes "4 \<le> length msg"
  shows "scrambled msg r d tail ! 0 = msg ! 0 XOR r" "scrambled msg r d tail ! 1 = r"
    "slice (scrambled msg r d tail) 2 4 = le_bytes 2 d" "drop 4 (scrambled msg r d tail) = drop 4 msg @ tail"
  by (simp_all add: scrambled_def slice_def)

lemma plain_rebuild:
  assumes "looks_plain msg"
  shows "msg ! 0 # 0 # 0 # 0 # drop 4 msg = msg"
proof -
  have "4 \<le> length msg" "msg ! 1 = 0" "msg ! 2 = 0" "msg ! 3 = 0"
    using assms by (auto simp: looks_plain_def)
  then have "take 4 msg = [msg ! 0, 0, 0, 0]"
    by (auto simp: list_eq_iff_nth_eq nth_Cons' numeral_eq_Suc less_Suc_eq)
  then show ?thesis
    by (metis append_Cons append_Nil append_take_drop_id)
qed

lemma decode_unmasked:
  assumes "key_ok key" "4 \<le> length payload" "p = mask_region key ob payload"
  shows "decode payload key ob =
     (if looks_plain p then Some (p, Some (length payload))
      else let dummy = unat (of_le_bytes (slice p 2 4) :: u16) in
           Some ((p ! 0 XOR p ! 1) # 0 # 0 # 0 # drop 4 p,
                 if dummy \<le> length payload \<and> length payload - dummy \<ge> 4 then Some (length payload - dummy) else None))"
proof -
  define n where "n = masked_len ob (length payload)"
  have n: "length (take n payload) = n" by (simp add: n_def masked_len_le min_absorb2)
  have p: "xor_prefix (take n payload) (region_mask key n) @ drop n payload = p"
    unfolding assms(3) mask_region_def Let_def n_def ..
  have "\<not> length payload < 4" using assms by simp
  then show ?thesis
    unfolding decode_def Let_def masked_len_def [symmetric] n_def [symmetric] apply_keystream_some [OF assms(1)]
      n option.case p by (simp only: if_False)
qed

lemma decode_scrambled:
  assumes "key_ok key" "looks_plain msg" "r \<noteq> 0" "length tail = unat d"
  shows "decode (mask_region key ob (scrambled msg r d tail)) key ob = Some (msg @ tail, Some (length msg))"
proof -
  define p where "p = scrambled msg r d tail"
  have len: "4 \<le> length msg" using assms by (simp add: looks_plain_def)
  have lp: "length p = length msg + unat d" using len assms by (simp add: p_def length_scrambled)
  have not_plain: "\<not> looks_plain p"
    unfolding looks_plain_def p_def scrambled_fields(2) [OF len] using assms(3) by simp
  have bits: "(p ! 0 XOR p ! 1) # 0 # 0 # 0 # drop 4 p = msg @ tail"
  proof -
    have "(msg ! 0 XOR r) XOR r = msg ! 0" by (simp add: xor.assoc)
    moreover have "(msg ! 0 # 0 # 0 # 0 # drop 4 msg) @ tail = msg @ tail"
      by (simp only: plain_rebuild [OF assms(2)])
    ultimately show ?thesis
      unfolding p_def scrambled_fields [OF len] by simp
  qed
  have dummy: "unat (of_le_bytes (slice p 2 4) :: u16) = unat d"
    using len by (simp add: p_def scrambled_fields of_le_bytes_le_bytes take_bit_word_eq_self)
  have "decode (mask_region key ob p) key ob =
      Some (msg @ tail, if unat d \<le> length p \<and> 4 \<le> length p - unat d then Some (length p - unat d) else None)"
    using decode_unmasked [OF assms(1), of "mask_region key ob p" p ob] lp len not_plain
    unfolding Let_def bits dummy by simp
  then show ?thesis
    using lp len unfolding p_def by simp
qed

section \<open>Control traffic\<close>

lemmas stun_consts = STUN_HEADER_LEN_def STUN_DATA_HEADER_LEN_def RTP_HEADER_LEN_def STUN_COOKIE_def
  STUN_BINDING_REQUEST_def STUN_BINDING_SUCCESS_def STUN_DATA_INDICATION_def STUN_ATTR_DATA_def
  BINDING_REQUEST_LEN_def BINDING_SUCCESS_LEN_def

definition fingerprint :: "bytes \<Rightarrow> bytes" where
  "fingerprint bs = be_bytes 2 STUN_ATTR_FINGERPRINT @ be_bytes 2 (4 :: u16) @ be_bytes 4 (crc32 bs XOR STUN_FINGERPRINT_XOR)"

lemma length_fingerprint [simp, length_simps]: "length (fingerprint bs) = 8"
  by (simp add: fingerprint_def)

lemma length_STUN_COOKIE [simp, length_simps]: "length STUN_COOKIE = 4"
  by (simp add: STUN_COOKIE_def)

lemma write_at_prefix:
  "length bs \<le> n \<Longrightarrow> write_at (replicate n x) 0 bs = Some (bs @ replicate (n - length bs) x)"
  by (simp add: write_at_def)

lemma finish_with_fingerprint_shape:
  assumes "length a = 2" "length b = 2" "length d = 8" "at = 4 + length body"
  shows "finish_with_fingerprint (a @ b @ body @ d) at =
           Some (a @ be_bytes 2 (of_nat (at + 8 - 20) :: u16) @ body @ fingerprint (a @ [0, 0] @ body))"
proof -
  have zero: "write_at (a @ b @ body @ d) 2 [0, 0] = Some (a @ [0, 0] @ body @ d)"
    by (rule write_at_append) (simp_all add: assms)
  have attr: "write_at (a @ [0, 0] @ body @ d) at (fingerprint (a @ [0, 0] @ body)) =
      Some (a @ [0, 0] @ body @ fingerprint (a @ [0, 0] @ body))"
    using write_at_append [of "a @ [0, 0] @ body" at d "fingerprint (a @ [0, 0] @ body)" "[]"] assms by simp
  have len: "write_at (a @ [0, 0] @ body @ x) 2 (be_bytes 2 w) = Some (a @ be_bytes 2 w @ body @ x)" for x and w :: u16
    by (rule write_at_append) (simp_all add: assms)
  have "take at (a @ [0, 0] @ body @ d) = a @ [0, 0] @ body"
    using assms by simp
  then show ?thesis
    unfolding finish_with_fingerprint_def zero bind.simps Let_def fingerprint_def [symmetric] STUN_HEADER_LEN_def
    by (simp only: attr bind.simps len fingerprint_def [symmetric])
qed

lemma build_binding_request_shape:
  assumes "length txid = 12"
  shows "build_binding_request txid =
     Some (be_bytes 2 STUN_BINDING_REQUEST @ be_bytes 2 (8 :: u16) @ (STUN_COOKIE @ txid) @
           fingerprint (be_bytes 2 STUN_BINDING_REQUEST @ [0, 0] @ STUN_COOKIE @ txid))"
proof -
  have "write_stun_header (replicate BINDING_REQUEST_LEN 0) STUN_BINDING_REQUEST 0 txid =
      Some (be_bytes 2 STUN_BINDING_REQUEST @ be_bytes 2 (0 :: u16) @ (STUN_COOKIE @ txid) @ replicate 8 0)"
    using assms by (simp add: write_stun_header_def write_at_prefix BINDING_REQUEST_LEN_def)
  then show ?thesis
    unfolding build_binding_request_def
    using finish_with_fingerprint_shape [of "be_bytes 2 STUN_BINDING_REQUEST" "be_bytes 2 (0 :: u16)" "replicate 8 0" 20
        "STUN_COOKIE @ txid"] assms
    by (simp add: STUN_HEADER_LEN_def)
qed

definition mapped_address :: "bytes \<Rightarrow> u16 \<Rightarrow> bytes" where
  "mapped_address ip port =
     be_bytes 2 STUN_ATTR_XOR_MAPPED_ADDRESS @ be_bytes 2 (8 :: u16) @ [0, 0x01] @
     xor_prefix (be_bytes 2 port) STUN_COOKIE @ xor_prefix ip STUN_COOKIE"

lemma length_mapped_address [simp, length_simps]: "length (mapped_address ip port) = 8 + length ip"
  by (simp add: mapped_address_def)

lemma build_binding_success_shape:
  assumes "length txid = 12" "source_ipv4 source = Some ip" "length ip = 4"
  shows "build_binding_success txid source =
     Some (Some (be_bytes 2 STUN_BINDING_SUCCESS @ be_bytes 2 (20 :: u16) @ (STUN_COOKIE @ txid @ mapped_address ip (sa_port source)) @
       fingerprint (be_bytes 2 STUN_BINDING_SUCCESS @ [0, 0] @ STUN_COOKIE @ txid @ mapped_address ip (sa_port source))))"
proof -
  define hd where "hd = be_bytes 2 STUN_BINDING_SUCCESS @ be_bytes 2 (0 :: u16) @ STUN_COOKIE @ txid"
  have hd: "length hd = 20" using assms by (simp add: hd_def)
  have "write_stun_header (replicate BINDING_SUCCESS_LEN 0) STUN_BINDING_SUCCESS 0 txid = Some (hd @ replicate 20 0)"
    using hd unfolding write_stun_header_def hd_def [symmetric] by (simp add: write_at_prefix BINDING_SUCCESS_LEN_def)
  moreover have "write_at (hd @ replicate 20 0) 20 (mapped_address ip (sa_port source)) =
      Some (hd @ mapped_address ip (sa_port source) @ replicate 8 0)"
    using write_at_append [of hd 20 "replicate 12 0" "mapped_address ip (sa_port source)" "replicate 8 0"] hd assms
    by (simp add: replicate_add [symmetric])
  moreover have "hd @ mapped_address ip (sa_port source) @ replicate 8 0 =
      be_bytes 2 STUN_BINDING_SUCCESS @ be_bytes 2 (0 :: u16) @ (STUN_COOKIE @ txid @ mapped_address ip (sa_port source)) @ replicate 8 0"
    by (simp add: hd_def)
  ultimately show ?thesis
    unfolding build_binding_success_def assms(2) option.case mapped_address_def [symmetric]
    using finish_with_fingerprint_shape [of "be_bytes 2 STUN_BINDING_SUCCESS" "be_bytes 2 (0 :: u16)" "replicate 8 0" 32
        "STUN_COOKIE @ txid @ mapped_address ip (sa_port source)"] assms
    by simp
qed

section \<open>The codec\<close>

fun source_ok :: "socket_addr \<Rightarrow> bool" where
  "source_ok (SocketAddrV4 ip port) \<longleftrightarrow> length ip = 4"
| "source_ok (SocketAddrV6 ip port) \<longleftrightarrow> length ip = 16"

definition rtp_ok :: "media_params \<Rightarrow> rtp_stream \<Rightarrow> bool" where
  "rtp_ok m s \<longleftrightarrow> (mp_ssrc m \<noteq> 0 \<longrightarrow> rs_ssrc s = mp_ssrc m) \<and>
     (mp_payload_type m \<noteq> 0 \<longrightarrow> rs_payload_type s = mp_payload_type m)"

definition codec_ok :: "phobos_codec \<Rightarrow> bool" where
  "codec_ok c \<longleftrightarrow> PhobosConfig_validate (pc_config c) = Ok () \<and>
     pc_obfuscate_bytes c = effective_obfuscate_bytes (pc_config c) \<and>
     (case pc_rtp c of None \<Rightarrow> True | Some s \<Rightarrow> rtp_ok (ph_media (pc_config c)) s)"

lemma codec_okD:
  assumes "codec_ok c"
  shows "key_ok (ph_key (pc_config c))" "mp_payload_type (ph_media (pc_config c)) \<le> 127"
  using assms by (auto simp: codec_ok_def PhobosConfig_validate_def validate_key_def key_ok_def not_less split: if_splits)

lemma codec_ok_rng [simp]: "codec_ok (c\<lparr>pc_rng := r\<rparr>) = codec_ok c"
  by (cases "pc_rtp c") (simp_all add: codec_ok_def)

lemma with_rng_ok: "PhobosCodec_with_rng cfg rng = Ok c \<Longrightarrow> codec_ok c \<and> pc_config c = cfg"
  by (auto simp: PhobosCodec_with_rng_def codec_ok_def and_then_eq_Inr)

lemma source_ipv4_length: "source_ok s \<Longrightarrow> source_ipv4 s = Some ip \<Longrightarrow> length ip = 4"
  by (cases s) (auto simp: to_ipv4_mapped_def split: if_splits)

lemma handle_stun_total:
  assumes "source_ok source" "2 \<le> length datagram"
  obtains o' where "handle_stun datagram source = Some o'"
    "\<And>n. o' = StunData n \<Longrightarrow> n + STUN_DATA_HEADER_LEN \<le> length datagram"
proof -
  have reply: "\<exists>y. build_binding_success (slice datagram 8 20) source = Some y" if "\<not> length datagram < STUN_HEADER_LEN"
    using build_binding_success_shape [of "slice datagram 8 20" source] source_ipv4_length [OF assms(1)] that
    by (cases "source_ipv4 source") (auto simp: build_binding_success_def stun_consts)
  have "\<exists>y. handle_stun datagram source = Some y"
    using reply assms(2) unfolding handle_stun_def Let_def by auto
  then obtain y where y: "handle_stun datagram source = Some y" ..
  moreover have "n + STUN_DATA_HEADER_LEN \<le> length datagram" if "y = StunData n" for n
    using y that unfolding handle_stun_def Let_def by (auto split: if_splits option.splits)
  ultimately show thesis
    using that by blast
qed

lemma decode_total: "key_ok key \<Longrightarrow> \<exists>p m. decode payload key ob = Some (p, m)"
  by (simp add: decode_def apply_keystream_def Let_def)

lemma RtpStream_new_ok: "RtpStream_new m rng = (s, rng') \<Longrightarrow> rtp_ok m s"
  by (auto simp: RtpStream_new_def rtp_ok_def Let_def split: prod.splits if_splits)

definition rtp_header :: "rtp_stream \<Rightarrow> bytes" where
  "rtp_header s = [0x80, 0x80 OR (rs_payload_type s AND 0x7F)] @ be_bytes 2 (rs_sequence s) @
     be_bytes 4 (rs_timestamp s) @ be_bytes 4 (rs_ssrc s)"

definition stun_data_header :: "bytes \<Rightarrow> nat \<Rightarrow> bytes" where
  "stun_data_header txid n = be_bytes 2 STUN_DATA_INDICATION @ be_bytes 2 (0 :: u16) @ STUN_COOKIE @ txid @
     be_bytes 2 STUN_ATTR_DATA @ be_bytes 2 (of_nat n :: u16)"

lemma length_rtp_header [simp, length_simps]: "length (rtp_header s) = 12"
  by (simp add: rtp_header_def)

text \<open>The frame by masking: nothing, a Data Indication, or the header of the codec's stream.\<close>

definition framed :: "phobos_codec \<Rightarrow> nat \<Rightarrow> bytes \<Rightarrow> bool" where
  "framed c n hdr \<longleftrightarrow>
     (case ph_masking (pc_config c) of
        MaskingNone \<Rightarrow> hdr = []
      | Stun \<Rightarrow> \<exists>txid. length txid = 12 \<and> hdr = stun_data_header txid n
      | Media \<Rightarrow> \<exists>s. rtp_ok (ph_media (pc_config c)) s \<and> hdr = rtp_header s)"

definition stream_header :: "phobos_codec \<Rightarrow> bytes \<Rightarrow> bool" where
  "stream_header c hdr \<longleftrightarrow>
     (ph_masking (pc_config c) = Media \<longrightarrow> (case pc_rtp c of None \<Rightarrow> True | Some s \<Rightarrow> hdr = rtp_header s))"

lemma stream_header_rng [simp]: "stream_header (c\<lparr>pc_rng := r\<rparr>) hdr = stream_header c hdr"
  by (simp add: stream_header_def)

lemma write_frame_shape:
  assumes "codec_ok c" "length pre = overhead (ph_masking (pc_config c))"
  obtains hdr c' where "write_frame c (pre @ p) n = Some (hdr @ p, c')" "framed c n hdr"
    "codec_ok c'" "pc_config c' = pc_config c"
    "stream_header c hdr"
proof (cases "ph_masking (pc_config c)")
  case MaskingNone
  then show thesis
    using that [of "[]" c] assms by (simp add: write_frame_def framed_def stream_header_def)
next
  case Stun
  obtain txid rng where t: "fill_bytes 12 (pc_rng c) = (txid, rng)" by fastforce
  have l: "length txid = 12" using t by (rule fill_bytes_length)
  define h where "h = be_bytes 2 STUN_DATA_INDICATION @ be_bytes 2 (0 :: u16) @ STUN_COOKIE @ txid"
  have h: "length h = 20" using l by (simp add: h_def)
  have pre: "length pre = 24" using assms Stun by (simp add: stun_consts)
  have "write_stun_header (pre @ p) STUN_DATA_INDICATION 0 txid = Some (h @ drop 20 pre @ p)"
    using write_at_append [of "[]" 0 "take 20 pre" h "drop 20 pre @ p"] pre h
    unfolding write_stun_header_def h_def [symmetric] by (simp flip: append_assoc)
  moreover have "write_at (h @ drop 20 pre @ p) 20 (be_bytes 2 STUN_ATTR_DATA @ be_bytes 2 (of_nat n :: u16)) =
      Some (stun_data_header txid n @ p)"
    using write_at_append [of h 20 "drop 20 pre" "be_bytes 2 STUN_ATTR_DATA @ be_bytes 2 (of_nat n :: u16)" p] pre h
    by (simp add: stun_data_header_def h_def)
  ultimately have "write_frame c (pre @ p) n = Some (stun_data_header txid n @ p, c\<lparr>pc_rng := rng\<rparr>)"
    using Stun t by (simp add: write_frame_def)
  moreover have "framed c n (stun_data_header txid n)"
    using Stun l by (auto simp: framed_def)
  ultimately show thesis
    using that assms(1) Stun by (simp add: stream_header_def)
next
  case Media
  obtain s rng where s: "(case pc_rtp c of Some s \<Rightarrow> (s, pc_rng c)
      | None \<Rightarrow> RtpStream_new (ph_media (pc_config c)) (pc_rng c)) = (s, rng)" by fastforce
  have ok: "rtp_ok (ph_media (pc_config c)) s"
    using s assms(1) RtpStream_new_ok by (auto simp: codec_ok_def split: option.splits)
  have "write_at (pre @ p) 0 (rtp_header s) = Some (rtp_header s @ p)"
    using write_at_append [of "[]" 0 pre "rtp_header s" p] assms(2) Media by (simp add: stun_consts)
  then obtain s' where "RtpStream_write_header s (pre @ p) = Some (rtp_header s @ p, s')"
    "rs_ssrc s' = rs_ssrc s" "rs_payload_type s' = rs_payload_type s"
    unfolding RtpStream_write_header_def rtp_header_def [symmetric] by simp
  moreover from this have "rtp_ok (ph_media (pc_config c)) s'"
    using ok by (simp add: rtp_ok_def)
  moreover have "framed c n (rtp_header s)"
    using Media ok by (auto simp: framed_def)
  moreover have "stream_header c (rtp_header s)"
    using s by (cases "pc_rtp c") (simp_all add: stream_header_def)
  ultimately show thesis
    using that [of "rtp_header s" "c\<lparr>pc_rng := rng, pc_rtp := Some s'\<rparr>"] assms(1) Media s
    by (simp add: write_frame_def codec_ok_def)
qed

lemma wrap_shape:
  assumes ok: "codec_ok c" and len: "4 \<le> length m" and stun: "ph_masking (pc_config c) = Stun \<longrightarrow> length m \<le> 65535"
  obtains preamble hdr r d tail c' where
    "wrap c m = Some (Ok (preamble, hdr @ mask_region (ph_key (pc_config c)) (pc_obfuscate_bytes c) (scrambled m r d tail), c'))"
    "framed c (length m + unat d) hdr" "r \<noteq> 0" "length tail = unat d" "d = 0 \<or> length m + unat d < 1024"
    "codec_ok c'" "pc_config c' = pc_config c"
    "stream_header c hdr"
proof -
  define k where "k = overhead (ph_masking (pc_config c))"
  let ?first = "if of_le_bytes (take 4 m) = WG_HANDSHAKE_INITIATION \<and> control_interval (ph_masking (pc_config c)) \<noteq> None
    then map_option (\<lambda>(req, c). (Some req, c)) (binding_request c) else Some (None, c)"
  have "\<exists>preamble rng. ?first = Some (preamble, c\<lparr>pc_rng := rng\<rparr>)"
  proof -
    obtain txid rng where t: "fill_bytes 12 (pc_rng c) = (txid, rng)" by fastforce
    have "\<exists>req. binding_request c = Some (req, c\<lparr>pc_rng := rng\<rparr>)"
      using build_binding_request_shape [OF fill_bytes_length [OF t]] by (simp add: binding_request_def t)
    then obtain req where "binding_request c = Some (req, c\<lparr>pc_rng := rng\<rparr>)" ..
    then have "?first = Some (Some req, c\<lparr>pc_rng := rng\<rparr>) \<or> ?first = Some (None, c\<lparr>pc_rng := pc_rng c\<rparr>)" by simp
    then show ?thesis by blast
  qed
  then obtain preamble rng where pre: "?first = Some (preamble, c\<lparr>pc_rng := rng\<rparr>)" by blast
  obtain r d tail rng' where enc: "encode (replicate k 0 @ m) k (ph_key (pc_config c)) (ph_max_dummy (pc_config c))
      (pc_obfuscate_bytes c) rng = Some (replicate k 0 @ mask_region (ph_key (pc_config c)) (pc_obfuscate_bytes c) (scrambled m r d tail), rng')"
    and r: "r \<noteq> 0" and t: "length tail = unat d" and d: "d = 0 \<or> length m + unat d < 1024"
    by (rule encode_shape [OF codec_okD(1) [OF ok] len length_replicate, of k 0 "ph_max_dummy (pc_config c)" "pc_obfuscate_bytes c" rng])
  define p where "p = mask_region (ph_key (pc_config c)) (pc_obfuscate_bytes c) (scrambled m r d tail)"
  have lp: "length (replicate k (0 :: u8) @ p) - k = length m + unat d"
    using len t by (simp add: p_def length_scrambled)
  obtain hdr c' where fr: "write_frame (c\<lparr>pc_rng := rng'\<rparr>) (replicate k 0 @ p) (length m + unat d) = Some (hdr @ p, c')"
    "framed (c\<lparr>pc_rng := rng'\<rparr>) (length m + unat d) hdr" "codec_ok c'" "pc_config c' = pc_config c"
    "stream_header c hdr"
    using write_frame_shape [of "c\<lparr>pc_rng := rng'\<rparr>" "replicate k 0" p "length m + unat d"] ok by (auto simp: k_def)
  have short: "\<not> length m < 4" "\<not> (case max_message_len (ph_masking (pc_config c)) of Some n \<Rightarrow> length m > n | None \<Rightarrow> False)"
    using len stun by (cases "ph_masking (pc_config c)"; simp)+
  have "wrap c m = Some (Ok (preamble, hdr @ p, c'))"
    unfolding wrap_def Let_def pre k_def [symmetric]
    using short enc fr(1) lp by (simp add: p_def [symmetric])
  moreover have "framed c (length m + unat d) hdr"
    using fr(2) by (simp add: framed_def cong: Masking.case_cong)
  ultimately show thesis
    using that r t d fr(3-5) unfolding p_def by blast
qed

lemma payload_type_kept: "pt \<le> 127 \<Longrightarrow> (0x80 OR (pt AND 0x7F)) AND 0x7F = (pt :: u8)"
proof -
  assume "pt \<le> 127"
  then have "unat pt < 2 ^ 7" by (simp add: word_le_nat_alt)
  then have "take_bit 7 pt = pt"
    by (metis take_bit_nat_eq_self unsigned_take_bit_eq unsigned_word_eqI)
  moreover have "pt AND 0x7F = take_bit 7 pt"
    by (simp add: take_bit_eq_mask mask_eq_exp_minus_1)
  moreover have "(0x80 :: u8) AND 0x7F = 0" by simp
  ultimately show ?thesis by (simp add: bit.conj_disj_distrib2)
qed

lemma length_framed: "framed c n hdr \<Longrightarrow> length hdr = overhead (ph_masking (pc_config c))"
  by (auto simp: framed_def stun_data_header_def stun_consts split: Masking.splits)

lemma stun_header_fields:
  assumes "length txid = 12"
  shows "slice (stun_data_header txid n @ p) 0 2 = be_bytes 2 STUN_DATA_INDICATION"
    "slice (stun_data_header txid n @ p) 2 4 = be_bytes 2 (0 :: u16)"
    "slice (stun_data_header txid n @ p) 4 8 = STUN_COOKIE"
    "slice (stun_data_header txid n @ p) 20 22 = be_bytes 2 STUN_ATTR_DATA"
    "slice (stun_data_header txid n @ p) 22 24 = be_bytes 2 (of_nat n :: u16)"
    "length (stun_data_header txid n) = 24"
  unfolding stun_data_header_def append_assoc
  by (simp_all only: slice_append_right slice_append_left length_be_bytes length_STUN_COOKIE assms slice_full) (simp_all add: assms)

lemma rtp_header_fields:
  "(rtp_header s @ p) ! 0 = 0x80" "(rtp_header s @ p) ! 1 = 0x80 OR (rs_payload_type s AND 0x7F)"
  "slice (rtp_header s @ p) 8 12 = be_bytes 4 (rs_ssrc s)"
proof -
  show "slice (rtp_header s @ p) 8 12 = be_bytes 4 (rs_ssrc s)"
    using slice_middle [of "[0x80, 0x80 OR (rs_payload_type s AND 0x7F)] @ be_bytes 2 (rs_sequence s) @ be_bytes 4 (rs_timestamp s)"
        8 "be_bytes 4 (rs_ssrc s)" 12 p] by (simp add: rtp_header_def)
qed (simp_all add: rtp_header_def)

lemma locate_stun:
  assumes "length txid = 12" "length p < 65536"
  shows "has_stun_cookie (stun_data_header txid (length p) @ p)"
    "handle_stun (stun_data_header txid (length p) @ p) source = Some (StunData (length p))"
    "\<not> looks_plain (stun_data_header txid (length p) @ p)"
proof -
  note f = stun_header_fields(1-5) [OF assms(1), of "length p" p] stun_header_fields(6) [OF assms(1), of "length p"]
  have w: "of_be_bytes (be_bytes 2 v) = v" for v :: u16
    by (simp add: of_be_bytes_be_bytes take_bit_word_eq_self)
  show "has_stun_cookie (stun_data_header txid (length p) @ p)"
    unfolding has_stun_cookie_def f(3) using f(6) by simp
  have n: "unat (of_nat (length p) :: u16) = length p"
    by (rule unat_of_nat_small) (use assms(2) in simp)
  have total: "length (stun_data_header txid (length p) @ p) = 24 + length p"
    using f(6) by simp
  have types: "STUN_DATA_INDICATION \<noteq> STUN_BINDING_REQUEST"
    by (simp add: STUN_BINDING_REQUEST_def STUN_DATA_INDICATION_def)
  show "handle_stun (stun_data_header txid (length p) @ p) source = Some (StunData (length p))"
    unfolding handle_stun_def Let_def f(1,2,4,5) w n total STUN_HEADER_LEN_def STUN_DATA_HEADER_LEN_def
    using types by simp
  have "be_bytes 2 STUN_DATA_INDICATION = [0x01, 0x15]"
    by code_simp
  then have "(stun_data_header txid (length p) @ p) ! 1 = 0x15"
    unfolding stun_data_header_def by simp
  then show "\<not> looks_plain (stun_data_header txid (length p) @ p)"
    unfolding looks_plain_def by simp
qed

lemma rtp_not_plain: "\<not> looks_plain (rtp_header s @ p)"
  unfolding looks_plain_def rtp_header_fields by simp

lemma locate_rtp:
  assumes "rtp_ok (ph_media (pc_config c)) s" "mp_payload_type (ph_media (pc_config c)) \<le> 127"
    "ph_masking (pc_config c) = Media" "\<not> has_stun_cookie (rtp_header s @ p)" "4 \<le> length p"
  shows "locate_payload c (rtp_header s @ p) source = Some (Inr (12, length p))"
proof -
  have pt: "mp_payload_type (ph_media (pc_config c)) \<noteq> 0 \<longrightarrow>
      (rtp_header s @ p) ! 1 AND 0x7F = mp_payload_type (ph_media (pc_config c))"
    unfolding rtp_header_fields using assms(1,2) payload_type_kept by (auto simp: rtp_ok_def)
  have ssrc: "mp_ssrc (ph_media (pc_config c)) \<noteq> 0 \<longrightarrow>
      slice (rtp_header s @ p) 8 12 = be_bytes 4 (mp_ssrc (ph_media (pc_config c)))"
    unfolding rtp_header_fields using assms(1) by (auto simp: rtp_ok_def)
  have first: "(rtp_header s @ p) ! 0 AND 0xC0 = 0x80"
    unfolding rtp_header_fields by simp
  show ?thesis
    unfolding locate_payload_def Let_def assms(3) using assms(4,5) pt ssrc first by (auto simp: stun_consts)
qed

lemma unwrap_framed:
  assumes "codec_ok c" "framed c (length p) hdr" "4 \<le> length p"
    "ph_masking (pc_config c) = Stun \<longrightarrow> length p < 65536"
    "ph_masking (pc_config c) = MaskingNone \<longrightarrow> \<not> looks_plain p"
    "ph_masking (pc_config c) = Media \<longrightarrow> \<not> has_stun_cookie (hdr @ p)"
  shows "unwrap c (hdr @ p) source =
    map_option (\<lambda>(payload, m). case m of Some m \<Rightarrow> UnwrappedWireGuard (take m payload) | None \<Rightarrow> UnwrappedDrop)
      (decode p (ph_key (pc_config c)) (pc_obfuscate_bytes c))"
proof -
  have "locate_payload c (hdr @ p) source = Some (Inr (length hdr, length p)) \<and> \<not> looks_plain (hdr @ p)"
  proof (cases "ph_masking (pc_config c)")
    case MaskingNone
    then show ?thesis using assms by (simp add: framed_def locate_payload_def)
  next
    case Stun
    then obtain txid where "length txid = 12" "hdr = stun_data_header txid (length p)"
      using assms(2) by (auto simp: framed_def)
    then show ?thesis
      using Stun assms(4) locate_stun(1,3) [of txid p] locate_stun(2) [of txid p source] stun_header_fields(6) [of txid "length p"]
      by (simp add: locate_payload_def Let_def STUN_DATA_HEADER_LEN_def)
  next
    case Media
    then obtain s where "rtp_ok (ph_media (pc_config c)) s" "hdr = rtp_header s"
      using assms(2) by (auto simp: framed_def)
    then show ?thesis
      using Media locate_rtp [of c s p source] codec_okD(2) [OF assms(1)] assms(3,6) rtp_not_plain by simp
  qed
  moreover have "slice (hdr @ p) (length hdr) (length hdr + length p) = p"
    by (simp add: slice_def)
  ultimately show ?thesis
    using assms(3) by (simp add: unwrap_def)
qed

definition request_bytes :: "bytes \<Rightarrow> bytes" where
  "request_bytes txid = be_bytes 2 STUN_BINDING_REQUEST @ be_bytes 2 (8 :: u16) @ STUN_COOKIE @ txid @
     fingerprint (be_bytes 2 STUN_BINDING_REQUEST @ [0, 0] @ STUN_COOKIE @ txid)"

definition reply_bytes :: "bytes \<Rightarrow> bytes \<Rightarrow> u16 \<Rightarrow> bytes" where
  "reply_bytes txid ip port =
     (let body = STUN_COOKIE @ txid @ mapped_address ip port in
      be_bytes 2 STUN_BINDING_SUCCESS @ be_bytes 2 (20 :: u16) @ body @
      fingerprint (be_bytes 2 STUN_BINDING_SUCCESS @ [0, 0] @ body))"

lemma slice_at:
  "xs = pre @ mid @ post \<Longrightarrow> length pre = i \<Longrightarrow> length mid = j - i \<Longrightarrow> i \<le> j \<Longrightarrow> slice xs i j = mid"
  by (simp add: slice_middle)

lemma request_fields:
  assumes "length txid = 12"
  shows "length (request_bytes txid) = 28" "slice (request_bytes txid) 0 2 = be_bytes 2 STUN_BINDING_REQUEST"
    "slice (request_bytes txid) 4 8 = STUN_COOKIE" "slice (request_bytes txid) 8 20 = txid"
    "\<not> looks_plain (request_bytes txid)"
proof -
  show "length (request_bytes txid) = 28"
    using assms by (simp add: request_bytes_def)
  show "slice (request_bytes txid) 0 2 = be_bytes 2 STUN_BINDING_REQUEST"
    by (rule slice_at [of _ "[]"]) (simp_all add: request_bytes_def)
  show "slice (request_bytes txid) 4 8 = STUN_COOKIE"
    by (rule slice_at [of _ "be_bytes 2 STUN_BINDING_REQUEST @ be_bytes 2 (8 :: u16)"]) (simp_all add: request_bytes_def)
  show "slice (request_bytes txid) 8 20 = txid"
    by (rule slice_at [of _ "be_bytes 2 STUN_BINDING_REQUEST @ be_bytes 2 (8 :: u16) @ STUN_COOKIE"])
      (simp_all add: request_bytes_def assms)
  have "be_bytes 2 STUN_BINDING_REQUEST = [0x00, 0x01]"
    by (simp add: be_bytes_def STUN_BINDING_REQUEST_def numeral_2_eq_2)
  then have "request_bytes txid ! 0 = 0"
    unfolding request_bytes_def by simp
  then show "\<not> looks_plain (request_bytes txid)" by (simp add: looks_plain_def)
qed

lemma build_binding_request_bytes: "length txid = 12 \<Longrightarrow> build_binding_request txid = Some (request_bytes txid)"
  by (simp add: build_binding_request_shape request_bytes_def)

lemma reply_fields:
  assumes "length txid = 12" "length ip = 4"
  shows "length (reply_bytes txid ip port) = 40" "slice (reply_bytes txid ip port) 8 20 = txid"
    "slice (reply_bytes txid ip port) 26 28 = xor_prefix (be_bytes 2 port) STUN_COOKIE"
    "slice (reply_bytes txid ip port) 28 32 = xor_prefix ip STUN_COOKIE"
    "slice (reply_bytes txid ip port) 32 40 =
       fingerprint (slice (reply_bytes txid ip port) 0 2 @ [0, 0] @ slice (reply_bytes txid ip port) 4 32)"
proof -
  let ?r = "reply_bytes txid ip port"
  let ?h = "be_bytes 2 STUN_BINDING_SUCCESS @ be_bytes 2 (20 :: u16) @ STUN_COOKIE"
  let ?a = "be_bytes 2 STUN_ATTR_XOR_MAPPED_ADDRESS @ be_bytes 2 (8 :: u16) @ [0, 0x01]"
  show "length ?r = 40" using assms by (simp add: reply_bytes_def Let_def)
  show "slice ?r 8 20 = txid"
    by (rule slice_at [of _ ?h]) (simp_all add: reply_bytes_def Let_def assms)
  show "slice ?r 26 28 = xor_prefix (be_bytes 2 port) STUN_COOKIE"
    by (rule slice_at [of _ "?h @ txid @ ?a"]) (simp_all add: reply_bytes_def mapped_address_def Let_def assms)
  show "slice ?r 28 32 = xor_prefix ip STUN_COOKIE"
    by (rule slice_at [of _ "?h @ txid @ ?a @ xor_prefix (be_bytes 2 port) STUN_COOKIE"])
      (simp_all add: reply_bytes_def mapped_address_def Let_def assms)
  have "slice ?r 0 2 = be_bytes 2 STUN_BINDING_SUCCESS"
    by (rule slice_at [of _ "[]"]) (simp_all add: reply_bytes_def Let_def)
  moreover have "slice ?r 4 32 = STUN_COOKIE @ txid @ mapped_address ip port"
    by (rule slice_at [of _ "be_bytes 2 STUN_BINDING_SUCCESS @ be_bytes 2 (20 :: u16)"])
      (simp_all add: reply_bytes_def Let_def assms)
  moreover have "slice ?r 32 40 = fingerprint (be_bytes 2 STUN_BINDING_SUCCESS @ [0, 0] @ STUN_COOKIE @ txid @ mapped_address ip port)"
    by (rule slice_at [of _ "?h @ txid @ mapped_address ip port" _ "[]"]) (simp_all add: reply_bytes_def Let_def assms)
  ultimately show "slice ?r 32 40 = fingerprint (slice ?r 0 2 @ [0, 0] @ slice ?r 4 32)" by simp
qed

text \<open>An RTP header is neither a Binding Request nor a data indication.\<close>

lemma rtp_stun_drop: "handle_stun (rtp_header s @ p) source = Some StunDrop"
proof -
  define x where "x = 0x80 OR (rs_payload_type s AND 0x7F)"
  have two: "slice (rtp_header s @ p) 0 2 = [0x80, x]"
    by (rule slice_at [of _ "[]"]) (simp_all add: rtp_header_def x_def)
  have "be_bytes 2 (of_be_bytes [0x80, x] :: u16) = [0x80, x]"
  proof -
    have "le_bytes 2 (of_le_bytes [x, 0x80] :: u16) = [x, 0x80]"
      using le_bytes_of_le_bytes [of "[x, 0x80]", where 'a = 16]
      by (simp del: le_bytes.simps of_le_bytes.simps add: numeral_2_eq_2 [symmetric])
    then show ?thesis
      by (simp del: le_bytes.simps of_le_bytes.simps add: be_bytes_def of_be_bytes_def)
  qed
  moreover have "be_bytes 2 STUN_BINDING_REQUEST = [0x00, 0x01]" "be_bytes 2 STUN_DATA_INDICATION = [0x01, 0x15]"
    by code_simp+
  ultimately have "(of_be_bytes [0x80, x] :: u16) \<noteq> STUN_BINDING_REQUEST" "(of_be_bytes [0x80, x] :: u16) \<noteq> STUN_DATA_INDICATION"
    by auto
  then show ?thesis
    unfolding handle_stun_def Let_def two by (simp add: rtp_header_def)
qed

lemma rtp_cookie:
  assumes "rs_timestamp s = 0x2112A442"
  shows "has_stun_cookie (rtp_header s @ p)"
proof -
  have "be_bytes 4 (0x2112A442 :: u32) = STUN_COOKIE" by code_simp
  then have "slice (rtp_header s @ p) 4 8 = STUN_COOKIE"
    using assms by (intro slice_at [of _ "[0x80, 0x80 OR (rs_payload_type s AND 0x7F)] @ be_bytes 2 (rs_sequence s)"])
      (simp_all add: rtp_header_def)
  then show ?thesis
    by (simp add: has_stun_cookie_def)
qed

lemma unwrap_rtp_cookie:
  assumes "ph_masking (pc_config d) = Media" "has_stun_cookie (rtp_header s @ p)"
  shows "unwrap d (rtp_header s @ p) source = Some UnwrappedDrop"
  using assms rtp_not_plain [of s p] by (simp add: unwrap_def locate_payload_def rtp_stun_drop)

lemma unwrap_request:
  assumes "ph_masking (pc_config c) \<noteq> MaskingNone" "slice req 0 2 = be_bytes 2 STUN_BINDING_REQUEST" "has_stun_cookie req"
  shows "unwrap c req source = Option.bind (handle_stun req source) (\<lambda>o'. case o' of
      StunReply reply \<Rightarrow> Some (UnwrappedReply reply) | StunDrop \<Rightarrow> Some UnwrappedDrop | StunData n \<Rightarrow> unwrap c req source)"
proof -
  have len: "8 \<le> length req" using assms(3) by (simp add: has_stun_cookie_def)
  have "slice req 0 2 = [0, 1]"
    unfolding assms(2) by code_simp
  then have "req ! 0 = 0"
    using len by (cases req) (auto simp: slice_def numeral_2_eq_2)
  then have "\<not> looks_plain req" by (simp add: looks_plain_def)
  then show ?thesis
    using assms(1,3) len by (cases "ph_masking (pc_config c)"; cases "handle_stun req source")
      (auto simp: unwrap_def locate_payload_def split: stun_outcome.splits)
qed

section \<open>Properties\<close>

text \<open>
  C10. What becomes of a plain WireGuard message between two codecs with the same configuration.
  A message of more than 65535 bytes does not fit a STUN frame and is refused. Any other is
  wrapped, the codec stays well formed, and \<open>unwrap\<close> at the other end delivers exactly the
  message, tail, masking and frame removed, with two exceptions, in which it drops the datagram:
  without a frame, when the scrambled datagram happens to look like a plain message, and in an
  RTP frame, when the STUN cookie stands in the place of the timestamp.
\<close>

theorem phobos_roundtrip:
  assumes "codec_ok c" "codec_ok d" "pc_config d = pc_config c" "looks_plain m"
  shows "if ph_masking (pc_config c) = Stun \<and> 65535 < length m then wrap c m = Some (Err WrapTooLong)
    else \<exists>preamble out c'. wrap c m = Some (Ok (preamble, out, c')) \<and> codec_ok c' \<and> pc_config c' = pc_config c \<and>
      unwrap d out source =
        Some (if ph_masking (pc_config c) = MaskingNone \<and> looks_plain out \<or> ph_masking (pc_config c) = Media \<and> has_stun_cookie out
              then UnwrappedDrop else UnwrappedWireGuard m)"
proof (cases "ph_masking (pc_config c) = Stun \<and> 65535 < length m")
  case True
  then show ?thesis using assms(4) by (simp add: wrap_def looks_plain_def)
next
  case False
  then have stun: "ph_masking (pc_config c) = Stun \<longrightarrow> length m \<le> 65535" by auto
  have len: "4 \<le> length m" using assms(4) by (simp add: looks_plain_def)
  obtain preamble hdr r t tail c' where w:
    "wrap c m = Some (Ok (preamble, hdr @ mask_region (ph_key (pc_config c)) (pc_obfuscate_bytes c) (scrambled m r t tail), c'))"
    "framed c (length m + unat t) hdr" "r \<noteq> 0" "length tail = unat t" "t = 0 \<or> length m + unat t < 1024"
    "codec_ok c'" "pc_config c' = pc_config c"
    by (rule wrap_shape [OF assms(1) len stun])
  define p where "p = mask_region (ph_key (pc_config c)) (pc_obfuscate_bytes c) (scrambled m r t tail)"
  have lp: "length p = length m + unat t" using len w(4) by (simp add: p_def length_scrambled)
  have ob: "pc_obfuscate_bytes d = pc_obfuscate_bytes c" using assms(1-3) by (simp add: codec_ok_def)
  have dec: "decode p (ph_key (pc_config d)) (pc_obfuscate_bytes d) = Some (m @ tail, Some (length m))"
    unfolding p_def assms(3) ob using decode_scrambled [OF codec_okD(1) [OF assms(1)] assms(4) w(3,4)] .
  have fr: "framed d (length p) hdr" using w(2) unfolding framed_def assms(3) lp .
  have none: "ph_masking (pc_config d) = MaskingNone \<longrightarrow> hdr = []"
    using fr by (auto simp: framed_def)
  have short: "ph_masking (pc_config d) = Stun \<longrightarrow> length p < 65536"
    using w(5) assms(3) stun lp by auto
  let ?drop = "ph_masking (pc_config c) = MaskingNone \<and> looks_plain (hdr @ p) \<or> ph_masking (pc_config c) = Media \<and> has_stun_cookie (hdr @ p)"
  have "unwrap d (hdr @ p) source = Some UnwrappedDrop" if ?drop
    using that
  proof
    assume "ph_masking (pc_config c) = MaskingNone \<and> looks_plain (hdr @ p)"
    then show ?thesis by (simp add: unwrap_def)
  next
    assume "ph_masking (pc_config c) = Media \<and> has_stun_cookie (hdr @ p)"
    then show ?thesis using fr assms(3) by (auto simp: framed_def intro: unwrap_rtp_cookie)
  qed
  moreover have "unwrap d (hdr @ p) source = Some (UnwrappedWireGuard m)" if "\<not> ?drop"
  proof -
    have "ph_masking (pc_config d) = MaskingNone \<longrightarrow> \<not> looks_plain p"
      using none that assms(3) by simp
    from unwrap_framed [OF assms(2) fr _ short this, of source] show ?thesis
      using that lp len assms(3) by (simp add: dec [unfolded assms(3)])
  qed
  ultimately show ?thesis
    using False w(1,6,7) unfolding p_def [symmetric] by simp
qed

text \<open>
  C27. \<open>unwrap\<close> never panics: whatever the datagram and its source, a well formed codec answers,
  with no slice out of range.
\<close>

theorem unwrap_never_panics:
  assumes "codec_ok c" "source_ok source"
  shows "\<exists>u. unwrap c datagram source = Some u"
proof (cases "length datagram < 4 \<or> looks_plain datagram")
  case False
  then obtain o' where o': "handle_stun datagram source = Some o'"
    "\<And>n. o' = StunData n \<Longrightarrow> n + STUN_DATA_HEADER_LEN \<le> length datagram"
    using handle_stun_total [OF assms(2), of datagram] by auto
  have "\<exists>v. locate_payload c datagram source = Some v \<and> (\<forall>off n. v = Inr (off, n) \<longrightarrow> off + n \<le> length datagram)"
  proof (cases "ph_masking (pc_config c)")
    case MaskingNone
    then show ?thesis by (simp add: locate_payload_def)
  next
    case Stun
    then show ?thesis using o' by (cases o') (simp_all add: locate_payload_def)
  next
    case Media
    then show ?thesis
      using o' by (cases "has_stun_cookie datagram"; cases o') (simp_all add: locate_payload_def Let_def stun_consts)
  qed
  then obtain v where v: "locate_payload c datagram source = Some v"
    "\<And>off n. v = Inr (off, n) \<Longrightarrow> off + n \<le> length datagram" by blast
  show ?thesis
  proof (cases v)
    case (Inr q)
    obtain off n where q: "q = (off, n)" by fastforce
    obtain pl k where "decode (slice datagram off (off + n)) (ph_key (pc_config c)) (pc_obfuscate_bytes c) = Some (pl, k)"
      using decode_total [OF codec_okD(1) [OF assms(1)]] by blast
    then show ?thesis
      using False v(1) v(2) [of off n] Inr q by (simp add: unwrap_def)
  qed (use False v(1) in \<open>simp add: unwrap_def\<close>)
qed (simp add: unwrap_def)

text \<open>
  The table-driven \<open>crc32\<close> is the bit-by-bit division by the reflected polynomial.
\<close>

theorem crc32_table: "crc32 data = crc32_bitwise data"
  unfolding crc32_def crc32_bitwise_def by (simp add: crc32_byte_step drop_bit_xor crc32_byte_drop)

text \<open>
  Every setting keeps the configuration valid: a configuration built by \<open>new\<close> and changed by
  any \<open>name = value\<close> lines passes \<open>validate\<close>, whatever the lines say.
\<close>

theorem phobos_set_keeps_valid:
  assumes "PhobosConfig_validate c = Ok ()" "PhobosConfig_set name value c = Ok (used, c')"
  shows "PhobosConfig_validate c' = Ok ()"
proof -
  have lim: "(of_int v :: u16) \<le> DUMMY_LIMIT" if "parse_int name (trim value) 0 (uint DUMMY_LIMIT) = Inr v" for v
    using that by (auto simp: parse_int_def DUMMY_LIMIT_def word_le_def uint_word_of_int_eq take_bit_int_eq_self
        split: sum.splits if_splits)
  have ob: "(of_int v :: u32) \<le> 0x7FFFFFFF" if "parse_int name (trim value) 0 (2 ^ 31 - 1) = Inr v" for v
    using that by (auto simp: parse_int_def word_le_def uint_word_of_int_eq take_bit_int_eq_self
        split: sum.splits if_splits)
  have pt: "(of_int v :: u8) \<le> 127" if "parse_int name (trim value) 0 127 = Inr v" for v
    using that by (auto simp: parse_int_def word_le_def uint_word_of_int_eq take_bit_int_eq_self
        split: sum.splits if_splits)
  have map_ok: "map_sum id g x = Inr y \<longleftrightarrow> (\<exists>z. x = Inr z \<and> y = g z)" for g :: "'x \<Rightarrow> 'y" and x :: "ConfigError + 'x" and y
    by (cases x) auto
  show ?thesis
    using assms lim ob pt
    by (auto simp: PhobosConfig_set_def Let_def map_ok set_key_def and_then_eq_Inr PhobosConfig_validate_def not_less
        simp flip: not_less split: if_splits)
qed

text \<open>
  C30. With STUN or RTP masking, every Binding Request with the cookie is handled as the protocol
  says: from an IPv4 or IPv4-mapped source a request with a whole header is answered, and the
  answer carries the transaction of the request, the address and port it came from, and the
  fingerprint of what precedes it; a shorter request and a request from any other IPv6 source
  are dropped. The requests a codec builds are of this form, with their transaction.
\<close>

theorem binding_exchange:
  assumes "ph_masking (pc_config c) \<noteq> MaskingNone" "source_ok source"
    and "slice req 0 2 = be_bytes 2 STUN_BINDING_REQUEST" "has_stun_cookie req"
  shows "(case source_ipv4 source of
      Some ip \<Rightarrow>
        if STUN_HEADER_LEN \<le> length req then
          \<exists>reply. unwrap c req source = Some (UnwrappedReply reply) \<and> length reply = BINDING_SUCCESS_LEN \<and>
            slice reply 8 20 = slice req 8 20 \<and> xor_prefix (slice reply 26 28) STUN_COOKIE = be_bytes 2 (sa_port source) \<and>
            xor_prefix (slice reply 28 32) STUN_COOKIE = ip \<and>
            slice reply 32 40 = fingerprint (slice reply 0 2 @ [0, 0] @ slice reply 4 32)
        else unwrap c req source = Some UnwrappedDrop
    | None \<Rightarrow> unwrap c req source = Some UnwrappedDrop) \<and>
    (length txid = 12 \<longrightarrow> (\<exists>built. build_binding_request txid = Some built \<and> length built = BINDING_REQUEST_LEN \<and>
       slice built 0 2 = be_bytes 2 STUN_BINDING_REQUEST \<and> has_stun_cookie built \<and> slice built 8 20 = txid))"
proof -
  have unwrap: "unwrap c req source = Option.bind (handle_stun req source) (\<lambda>o'. case o' of
      StunReply reply \<Rightarrow> Some (UnwrappedReply reply) | StunDrop \<Rightarrow> Some UnwrappedDrop | StunData n \<Rightarrow> unwrap c req source)"
    by (rule unwrap_request [OF assms(1,3,4)])
  have len: "8 \<le> length req" using assms(4) by (simp add: has_stun_cookie_def)
  have stun: "handle_stun req source =
      (if length req < STUN_HEADER_LEN then Some StunDrop
       else map_option (\<lambda>r. case r of Some reply \<Rightarrow> StunReply reply | None \<Rightarrow> StunDrop) (build_binding_success (slice req 8 20) source))"
    using len unfolding handle_stun_def Let_def assms(3) be16.dec_enc by simp
  have "case source_ipv4 source of
      Some ip \<Rightarrow>
        if STUN_HEADER_LEN \<le> length req then
          \<exists>reply. unwrap c req source = Some (UnwrappedReply reply) \<and> length reply = BINDING_SUCCESS_LEN \<and>
            slice reply 8 20 = slice req 8 20 \<and> xor_prefix (slice reply 26 28) STUN_COOKIE = be_bytes 2 (sa_port source) \<and>
            xor_prefix (slice reply 28 32) STUN_COOKIE = ip \<and>
            slice reply 32 40 = fingerprint (slice reply 0 2 @ [0, 0] @ slice reply 4 32)
        else unwrap c req source = Some UnwrappedDrop
    | None \<Rightarrow> unwrap c req source = Some UnwrappedDrop"
  proof (cases "source_ipv4 source")
    case None
    then show ?thesis using unwrap stun by (simp add: build_binding_success_def split: if_splits)
  next
    case (Some ip)
    note ip = source_ipv4_length [OF assms(2) Some]
    show ?thesis
    proof (cases "STUN_HEADER_LEN \<le> length req")
      case True
      then have tx: "length (slice req 8 20) = 12" by (simp add: STUN_HEADER_LEN_def)
      have "unwrap c req source = Some (UnwrappedReply (reply_bytes (slice req 8 20) ip (sa_port source)))"
        using unwrap stun True build_binding_success_shape [OF tx Some ip] by (simp add: reply_bytes_def Let_def)
      then show ?thesis
        using Some True reply_fields [OF tx ip, of "sa_port source"] ip by (simp add: BINDING_SUCCESS_LEN_def)
    qed (use Some unwrap stun in simp)
  qed
  moreover have "\<exists>built. build_binding_request txid = Some built \<and> length built = BINDING_REQUEST_LEN \<and>
       slice built 0 2 = be_bytes 2 STUN_BINDING_REQUEST \<and> has_stun_cookie built \<and> slice built 8 20 = txid" if "length txid = 12"
    using build_binding_request_bytes [OF that] request_fields [OF that] by (simp add: has_stun_cookie_def BINDING_REQUEST_LEN_def)
  ultimately show ?thesis by blast
qed

text \<open>
  C36. When the timestamp of the RTP stream is the STUN cookie, the datagram that \<open>wrap\<close> makes is
  dropped by every codec with media masking: it is taken for a STUN message of unknown type.
\<close>

theorem rtp_timestamp_cookie_dropped:
  assumes "codec_ok c" "ph_masking (pc_config c) = Media" "pc_rtp c = Some s" "rs_timestamp s = 0x2112A442" "4 \<le> length m"
  shows "\<exists>preamble out c'. wrap c m = Some (Ok (preamble, out, c')) \<and>
    (ph_masking (pc_config d) = Media \<longrightarrow> unwrap d out source = Some UnwrappedDrop)"
proof -
  obtain preamble hdr r t tail c' where w:
    "wrap c m = Some (Ok (preamble, hdr @ mask_region (ph_key (pc_config c)) (pc_obfuscate_bytes c) (scrambled m r t tail), c'))"
    "stream_header c hdr"
    by (rule wrap_shape [OF assms(1,5)]) (use assms(2) in simp)
  from this(2) have "hdr = rtp_header s"
    using assms(2,3) by (simp add: stream_header_def)
  moreover have "unwrap d (rtp_header s @ p) source = Some UnwrappedDrop" if "ph_masking (pc_config d) = Media" for p
    by (rule unwrap_rtp_cookie [OF that rtp_cookie [OF assms(4)]])
  ultimately show ?thesis
    using w(1) by blast
qed

text \<open>
  A media clock of one frame per second is accepted and stores the step 24464: the quotient
  90000 does not fit the 16-bit field it is cast to.
\<close>

theorem media_clock_truncated:
  "\<exists>c'. PhobosConfig_set ''media-clock'' ''1'' c = Ok (True, c') \<and> mp_timestamp_step (ph_media c') = 24464"
proof -
  have "trim ''media-clock'' = ''media-clock''" "trim ''1'' = ''1''" by code_simp+
  moreover have "parse_int ''media-clock'' ''1'' 0 1000 = Inr 1" by code_simp
  ultimately show ?thesis
    unfolding PhobosConfig_set_def Let_def by simp
qed

section \<open>Witnesses\<close>

definition sample_phobos :: "Masking \<Rightarrow> phobos_config" where
  "sample_phobos mk = \<lparr>ph_key = [0x6B, 0x65, 0x79], ph_masking = mk, ph_max_dummy = 4, ph_obfuscate_bytes = 0,
     ph_media = \<lparr>mp_payload_type = 96, mp_ssrc = 7, mp_timestamp_step = 3000\<rparr>\<rparr>"

definition sample_stream :: "u32 \<Rightarrow> rtp_stream" where
  "sample_stream ts = \<lparr>rs_sequence = 0, rs_timestamp = ts, rs_ssrc = 7, rs_timestamp_step = 3000, rs_payload_type = 96\<rparr>"

definition sample_codec :: "Masking \<Rightarrow> rtp_stream option \<Rightarrow> phobos_codec" where
  "sample_codec mk s = \<lparr>pc_config = sample_phobos mk, pc_obfuscate_bytes = effective_obfuscate_bytes (sample_phobos mk),
     pc_rng = (\<lambda>_. 0), pc_rtp = s\<rparr>"

definition sample_message :: bytes where
  "sample_message = 4 # 0 # 0 # 0 # replicate 28 9"

lemma sample_codec_ok: "codec_ok (sample_codec mk None)" "codec_ok (sample_codec mk (Some (sample_stream ts)))"
  by (simp_all add: codec_ok_def sample_codec_def sample_phobos_def sample_stream_def rtp_ok_def PhobosConfig_validate_def
      validate_key_def MAX_KEY_LEN_def DUMMY_LIMIT_def)

lemma sample_message_plain: "looks_plain sample_message" "length sample_message = 32"
  by (simp_all add: looks_plain_def sample_message_def)

theorem phobos_roundtrip_witness:
  "\<exists>preamble out c'. wrap (sample_codec Stun None) sample_message = Some (Ok (preamble, out, c')) \<and>
     unwrap (sample_codec Stun None) out (SocketAddrV4 [10, 0, 0, 1] 51820) = Some (UnwrappedWireGuard sample_message)"
  using phobos_roundtrip [OF sample_codec_ok(1) sample_codec_ok(1) refl sample_message_plain(1),
      of Stun "SocketAddrV4 [10, 0, 0, 1] 51820"]
  by (auto simp: sample_message_plain(2) sample_codec_def sample_phobos_def)

theorem unwrap_never_panics_witness:
  "\<exists>u. unwrap (sample_codec Media None) [0x80, 0x60, 0, 0, 0x21, 0x12, 0xA4, 0x42] (SocketAddrV4 [10, 0, 0, 1] 51820) = Some u"
  by (rule unwrap_never_panics [OF sample_codec_ok(1)]) simp

theorem phobos_set_keeps_valid_witness:
  "\<exists>c'. PhobosConfig_set ''target'' ''x'' (sample_phobos Stun) = Ok (False, c') \<and> PhobosConfig_validate c' = Ok ()"
proof -
  have "trim ''target'' = ''target''" by code_simp
  then have s: "PhobosConfig_set ''target'' ''x'' (sample_phobos Stun) = Ok (False, sample_phobos Stun)"
    unfolding PhobosConfig_set_def Let_def by simp
  moreover have "PhobosConfig_validate (sample_phobos Stun) = Ok ()"
    using sample_codec_ok(1) [of Stun] by (simp add: codec_ok_def sample_codec_def)
  ultimately show ?thesis
    using phobos_set_keeps_valid by blast
qed

theorem binding_exchange_witness:
  "\<exists>req reply. build_binding_request (replicate 12 5) = Some req \<and>
    unwrap (sample_codec Stun None) req (SocketAddrV4 [10, 0, 0, 1] 51820) = Some (UnwrappedReply reply) \<and>
    slice reply 8 20 = replicate 12 5 \<and> xor_prefix (slice reply 28 32) STUN_COOKIE = [10, 0, 0, 1]"
proof -
  have m: "ph_masking (pc_config (sample_codec Stun None)) \<noteq> MaskingNone" and s: "source_ok (SocketAddrV4 [10, 0, 0, 1] 51820)"
    by (simp_all add: sample_codec_def sample_phobos_def)
  have tx: "length (replicate 12 (5 :: u8)) = 12" by simp
  define req where "req = request_bytes (replicate 12 5)"
  note q = request_fields [OF tx, folded req_def]
  have built: "build_binding_request (replicate 12 5) = Some req"
    unfolding req_def by (rule build_binding_request_bytes [OF tx])
  have "has_stun_cookie req"
    using q by (simp add: has_stun_cookie_def)
  from binding_exchange [OF m s q(2) this] q(1,4) obtain reply where
    "unwrap (sample_codec Stun None) req (SocketAddrV4 [10, 0, 0, 1] 51820) = Some (UnwrappedReply reply)"
    "slice reply 8 20 = replicate 12 5" "xor_prefix (slice reply 28 32) STUN_COOKIE = [10, 0, 0, 1]"
    by (auto simp: STUN_HEADER_LEN_def)
  with built show ?thesis by blast
qed

theorem rtp_timestamp_cookie_dropped_witness:
  "\<exists>preamble out c'. wrap (sample_codec Media (Some (sample_stream 0x2112A442))) sample_message = Some (Ok (preamble, out, c')) \<and>
    unwrap (sample_codec Media None) out (SocketAddrV4 [10, 0, 0, 1] 51820) = Some UnwrappedDrop"
  using rtp_timestamp_cookie_dropped [OF sample_codec_ok(2), of Media "0x2112A442" "sample_stream 0x2112A442" sample_message
      "sample_codec Media None" "SocketAddrV4 [10, 0, 0, 1] 51820"]
  by (auto simp: sample_message_plain(2) sample_codec_def sample_phobos_def sample_stream_def)

end
