(* ===== verification/Cps.thy ===== *)
theory Cps
  imports AmneziaConfig
begin

text \<open>
  The custom protocol signature chains (I1-I5) of \<open>src/awgtun/src/amnezia.rs\<close>: the tags, the
  parser, the printer and the generator, and the configuration of the five init packets.
  The generator writes tag by tag into one zeroed buffer, and a slice out of range panics
  (\<^const>\<open>None\<close>); so does the parser on a hex argument sliced inside a character. The base64
  encoder is a parameter (\<open>b64\<close>), and the clock is the argument \<open>secs\<close>.
\<close>

definition AWG2_MAX_CPS_RANDOM_LEN :: nat where
  "AWG2_MAX_CPS_RANDOM_LEN = 65535"

datatype CpsTag =
    Bytes bytes
  | Timestamp
  | RandomBytes nat
  | RandomChars nat
  | RandomDigits nat
  | Data
  | DataString
  | DataSize nat

type_synonym cps_chain = "CpsTag list"

section \<open>Generation\<close>

fun CpsTag_encoded_len :: "nat \<Rightarrow> CpsTag \<Rightarrow> nat" where
  "CpsTag_encoded_len dl (Bytes bs) = length bs"
| "CpsTag_encoded_len dl Timestamp = 4"
| "CpsTag_encoded_len dl (RandomBytes n) = n"
| "CpsTag_encoded_len dl (RandomChars n) = n"
| "CpsTag_encoded_len dl (RandomDigits n) = n"
| "CpsTag_encoded_len dl Data = dl"
| "CpsTag_encoded_len dl DataString = (if dl = 0 then 0 else (dl + 2) div 3 * 4)"
| "CpsTag_encoded_len dl (DataSize n) = n"

definition CpsChain_encoded_len :: "cps_chain \<Rightarrow> nat \<Rightarrow> nat" where
  "CpsChain_encoded_len tags dl = sum_list (map (CpsTag_encoded_len dl) tags)"

definition encoded_len_for_init :: "cps_chain \<Rightarrow> nat" where
  "encoded_len_for_init tags = CpsChain_encoded_len tags 0"

definition char_byte :: "char \<Rightarrow> u8" where
  "char_byte c = of_nat (of_char c)"

definition ALPHA :: bytes where
  "ALPHA = map char_byte ''abcdefghijklmnopqrstuvwxyzABCDEFGHIJKLMNOPQRSTUVWXYZ''"

fun random_chars :: "nat \<Rightarrow> rng \<Rightarrow> bytes \<times> rng" where
  "random_chars 0 r = ([], r)"
| "random_chars (Suc n) r =
     (let (idx, r1) = gen_range_u32 0 (of_nat (length ALPHA - 1)) r;
          (bs, r2) = random_chars n r1
      in (ALPHA ! unat idx # bs, r2))"

fun random_digits :: "nat \<Rightarrow> rng \<Rightarrow> bytes \<times> rng" where
  "random_digits 0 r = ([], r)"
| "random_digits (Suc n) r =
     (let (d, r1) = gen_range_u32 0 9 r;
          (bs, r2) = random_digits n r1
      in ((char_byte CHR ''0'' + ucast d) # bs, r2))"

text \<open>The bytes a tag writes; \<^const>\<open>None\<close> is the underflow of \<open>8 - len\<close>.\<close>

fun CpsTag_bytes :: "(bytes \<Rightarrow> bytes) \<Rightarrow> nat \<Rightarrow> bytes \<Rightarrow> CpsTag \<Rightarrow> rng \<Rightarrow> (bytes \<times> rng) option" where
  "CpsTag_bytes b64 secs dat (Bytes bs) r = Some (bs, r)"
| "CpsTag_bytes b64 secs dat Timestamp r = Some (be_bytes 4 (of_nat secs :: u32), r)"
| "CpsTag_bytes b64 secs dat (RandomBytes n) r = Some (fill_bytes n r)"
| "CpsTag_bytes b64 secs dat (RandomChars n) r = Some (random_chars n r)"
| "CpsTag_bytes b64 secs dat (RandomDigits n) r = Some (random_digits n r)"
| "CpsTag_bytes b64 secs dat Data r = Some (dat, r)"
| "CpsTag_bytes b64 secs dat DataString r = Some (if dat = [] then [] else b64 dat, r)"
| "CpsTag_bytes b64 secs dat (DataSize n) r =
     (if n \<le> 8 then Some (drop (8 - n) (be_bytes 8 (of_nat (length dat) :: u64)), r) else None)"

definition CpsTag_generate ::
  "(bytes \<Rightarrow> bytes) \<Rightarrow> nat \<Rightarrow> bytes \<Rightarrow> CpsTag \<Rightarrow> rng \<Rightarrow> bytes \<Rightarrow> nat \<Rightarrow> (nat \<times> bytes \<times> rng) option" where
  "CpsTag_generate b64 secs dat tag r out off =
     (case CpsTag_bytes b64 secs dat tag r of
        None \<Rightarrow> None
      | Some (bs, r') \<Rightarrow>
          (case write_at out off bs of
             None \<Rightarrow> None
           | Some out' \<Rightarrow> Some (length bs, out', r')))"

fun cps_generate_loop ::
  "(bytes \<Rightarrow> bytes) \<Rightarrow> nat \<Rightarrow> bytes \<Rightarrow> cps_chain \<Rightarrow> rng \<Rightarrow> bytes \<Rightarrow> nat \<Rightarrow> (nat \<times> bytes \<times> rng) option" where
  "cps_generate_loop b64 secs dat [] r out off = Some (off, out, r)"
| "cps_generate_loop b64 secs dat (tag # tags) r out off =
     (case CpsTag_generate b64 secs dat tag r out off of
        None \<Rightarrow> None
      | Some (n, out', r') \<Rightarrow> cps_generate_loop b64 secs dat tags r' out' (off + n))"

text \<open>The final \<open>debug_assert_eq!(offset, total)\<close> is kept.\<close>

definition CpsChain_generate ::
  "(bytes \<Rightarrow> bytes) \<Rightarrow> nat \<Rightarrow> cps_chain \<Rightarrow> bytes \<Rightarrow> rng \<Rightarrow> (bytes \<times> rng) option" where
  "CpsChain_generate b64 secs tags dat r =
     (let total = CpsChain_encoded_len tags (length dat)
      in case cps_generate_loop b64 secs dat tags r (replicate total 0) 0 of
           None \<Rightarrow> None
         | Some (off, out, r') \<Rightarrow> if off = total then Some (out, r') else None)"

definition generate_for_init :: "(bytes \<Rightarrow> bytes) \<Rightarrow> nat \<Rightarrow> cps_chain \<Rightarrow> rng \<Rightarrow> (bytes \<times> rng) option" where
  "generate_for_init b64 secs tags r = CpsChain_generate b64 secs tags [] r"

section \<open>Parsing\<close>

text \<open>\<open>u8::is_ascii_whitespace\<close>, which leaves out the vertical tab.\<close>

definition is_ascii_whitespace :: "char \<Rightarrow> bool" where
  "is_ascii_whitespace c \<longleftrightarrow> c \<in> {CHR 0x20, CHR 0x09, CHR 0x0A, CHR 0x0C, CHR 0x0D}"

text \<open>The parser's state is what is left of the input and the offset of its first byte.\<close>

fun skip_whitespace :: "string \<Rightarrow> nat \<Rightarrow> string \<times> nat" where
  "skip_whitespace [] off = ([], off)"
| "skip_whitespace (c # cs) off =
     (if is_ascii_whitespace c then skip_whitespace cs (off + 1) else (c # cs, off))"

definition consume_byte :: "char \<Rightarrow> string \<Rightarrow> nat \<Rightarrow> ConfigError + string \<times> nat" where
  "consume_byte expected rest off =
     (case rest of
        c # cs \<Rightarrow> if c = expected then Ok (cs, off + 1)
                  else Err (InvalidCps (''expected `'' @ [expected] @ ''` at byte '' @ fmt_dec off))
      | [] \<Rightarrow> Err (InvalidCps (''expected `'' @ [expected] @ ''` at byte '' @ fmt_dec off)))"

definition reject_arg :: "string \<Rightarrow> string option \<Rightarrow> ConfigError + unit" where
  "reject_arg tag arg =
     (if arg \<noteq> None then Err (InvalidCps (''<'' @ tag @ ''> does not take an argument'')) else Ok ())"

text \<open>A byte that continues a UTF-8 sequence: slicing in front of it panics.\<close>

definition is_utf8_cont :: "char \<Rightarrow> bool" where
  "is_utf8_cont c \<longleftrightarrow> 0x80 \<le> (of_char c :: nat) \<and> (of_char c :: nat) < 0xC0"

fun hex_pairs :: "string \<Rightarrow> (ConfigError, bytes) fallible" where
  "hex_pairs [] = Some (Ok [])"
| "hex_pairs [a] = None"
| "hex_pairs (a # b # rest) =
     (if is_utf8_cont a \<or> rest \<noteq> [] \<and> is_utf8_cont (hd rest) then None
      else bind_res (Some (map_err (\<lambda>_. InvalidCps ''<b> contains non-hex data'') (parse_u8_hex [a, b])))
             (\<lambda>byte. bind_res (hex_pairs rest) (\<lambda>bs. Some (Ok (byte # bs)))))"

definition parse_bytes_tag :: "string option \<Rightarrow> (ConfigError, CpsTag) fallible" where
  "parse_bytes_tag arg =
     bind_res (Some (ok_or arg (InvalidCps ''<b> requires a 0x-prefixed hex argument''))) (\<lambda>arg.
     bind_res (Some (ok_or (strip_prefix ''0x'' arg) (InvalidCps ''<b> requires a 0x-prefixed hex argument''))) (\<lambda>hex.
     if hex = [] then Some (Err (InvalidCps ''<b> hex data is empty''))
     else if length hex mod 2 \<noteq> 0 then Some (Err (InvalidCps ''<b> hex data must contain full bytes''))
     else bind_res (hex_pairs hex) (\<lambda>bs. Some (Ok (Bytes bs)))))"

definition parse_len_tag :: "string \<Rightarrow> string option \<Rightarrow> ConfigError + nat" where
  "parse_len_tag tag arg =
     and_then (ok_or arg (InvalidCps (''<'' @ tag @ ''> requires a length argument''))) (\<lambda>arg.
     and_then (map_err (\<lambda>_. InvalidCps (''<'' @ tag @ ''> length must be a non-negative integer''))
                 (parse_usize arg)) (\<lambda>len.
     if len > AWG2_MAX_CPS_RANDOM_LEN then Err (CpsValueOutOfRange tag len AWG2_MAX_CPS_RANDOM_LEN)
     else Ok len))"

definition parse_cps_tag :: "string \<Rightarrow> (ConfigError, CpsTag) fallible" where
  "parse_cps_tag tag =
     (case split_whitespace tag of
        [] \<Rightarrow> Some (Err (InvalidCps ''empty tag''))
      | name # args \<Rightarrow>
          let arg = iter_nth args 0 in
          if iter_nth args 1 \<noteq> None then Some (Err (InvalidCps (''<'' @ name @ ''> has too many arguments'')))
          else if name = ''b'' then parse_bytes_tag arg
          else if name = ''t'' then Some (and_then (reject_arg ''t'' arg) (\<lambda>_. Ok Timestamp))
          else if name = ''r'' then Some (map_sum id RandomBytes (parse_len_tag ''r'' arg))
          else if name = ''rc'' then Some (map_sum id RandomChars (parse_len_tag ''rc'' arg))
          else if name = ''rd'' then Some (map_sum id RandomDigits (parse_len_tag ''rd'' arg))
          else if name = ''d'' then Some (and_then (reject_arg ''d'' arg) (\<lambda>_. Ok Data))
          else if name = ''ds'' then Some (and_then (reject_arg ''ds'' arg) (\<lambda>_. Ok DataString))
          else if name = ''dz'' then Some (map_sum id DataSize (parse_len_tag ''dz'' arg))
          else Some (Err (UnsupportedCpsTag name)))"

lemma length_skip_whitespace: "length (fst (skip_whitespace s off)) \<le> length s"
  by (induction s off rule: skip_whitespace.induct) auto

lemma length_consume_byte: "consume_byte c s off = Ok (s', off') \<Longrightarrow> length s' < length s"
  by (auto simp: consume_byte_def split: list.splits if_splits)

lemma length_split_once: "split_once c s = Some (a, b) \<Longrightarrow> length b < length s"
  by (induction c s arbitrary: a b rule: split_once.induct) (fastforce split: if_splits)+

text \<open>
  The loop of \<open>CpsParser::parse\<close>. \<open>find('>')\<close> with the two slices around it is the split
  at the first closing bracket.
\<close>

function cps_parse_loop :: "string \<Rightarrow> nat \<Rightarrow> (ConfigError, cps_chain) fallible" where
  "cps_parse_loop rest off =
     (let s1 = skip_whitespace rest off in
      if fst s1 = [] then Some (Ok [])
      else bind_res (Some (consume_byte CHR ''<'' (fst s1) (snd s1))) (\<lambda>s2.
           case split_once CHR ''>'' (fst s2) of
             None \<Rightarrow> Some (Err (InvalidCps ''missing closing `>`''))
           | Some (body, rest') \<Rightarrow>
               bind_res (parse_cps_tag (trim body)) (\<lambda>tag.
               bind_res (cps_parse_loop rest' (snd s2 + length body + 1)) (\<lambda>tags.
               Some (Ok (tag # tags))))))"
  by pat_completeness auto
termination
proof (relation "measure (\<lambda>(rest, off). length rest)")
  fix rest off s1 s2 x2 body rest' tag
  assume "s1 = skip_whitespace rest off" and "Some (consume_byte CHR ''<'' (fst s1) (snd s1)) = Some (Ok s2)"
    and "split_once CHR ''>'' (fst s2) = Some x2" and "(body, rest') = x2"
  then have "length rest' < length (fst s2)" "length (fst s2) < length (fst s1)" "length (fst s1) \<le> length rest"
    using length_split_once length_consume_byte [of _ _ _ "fst s2" "snd s2"] length_skip_whitespace by auto
  then show "((rest', snd s2 + length body + 1), rest, off) \<in> measure (\<lambda>(rest, off). length rest)"
    by simp
qed simp

declare cps_parse_loop.simps [simp del]

definition CpsChain_parse :: "string \<Rightarrow> (ConfigError, cps_chain) fallible" where
  "CpsChain_parse input =
     bind_res (cps_parse_loop input 0) (\<lambda>tags.
       if tags = [] then Some (Err (InvalidCps ''empty chain'')) else Some (Ok tags))"

section \<open>Printing\<close>

fun fmt_CpsTag :: "CpsTag \<Rightarrow> string" where
  "fmt_CpsTag (Bytes bs) = ''<b 0x'' @ concat (map fmt_hex2 bs) @ ''>''"
| "fmt_CpsTag Timestamp = ''<t>''"
| "fmt_CpsTag (RandomBytes n) = ''<r '' @ fmt_dec n @ ''>''"
| "fmt_CpsTag (RandomChars n) = ''<rc '' @ fmt_dec n @ ''>''"
| "fmt_CpsTag (RandomDigits n) = ''<rd '' @ fmt_dec n @ ''>''"
| "fmt_CpsTag Data = ''<d>''"
| "fmt_CpsTag DataString = ''<ds>''"
| "fmt_CpsTag (DataSize n) = ''<dz '' @ fmt_dec n @ ''>''"

definition fmt_CpsChain :: "cps_chain \<Rightarrow> string" where
  "fmt_CpsChain tags = concat (map fmt_CpsTag tags)"

section \<open>InitPacketConfig\<close>

record init_packet_config =
  ip_i1 :: "cps_chain option"
  ip_i2 :: "cps_chain option"
  ip_i3 :: "cps_chain option"
  ip_i4 :: "cps_chain option"
  ip_i5 :: "cps_chain option"

definition InitPacketConfig_default :: init_packet_config where
  "InitPacketConfig_default = \<lparr>ip_i1 = None, ip_i2 = None, ip_i3 = None, ip_i4 = None, ip_i5 = None\<rparr>"

definition InitPacketConfig_validate :: "init_packet_config \<Rightarrow> ConfigError + unit" where
  "InitPacketConfig_validate c = Ok ()"

definition InitPacketConfig_chains :: "init_packet_config \<Rightarrow> cps_chain option list" where
  "InitPacketConfig_chains c = [ip_i1 c, ip_i2 c, ip_i3 c, ip_i4 c, ip_i5 c]"

definition active_chains :: "init_packet_config \<Rightarrow> cps_chain list" where
  "active_chains c = List.map_filter id (InitPacketConfig_chains c)"

section \<open>Lemmas: generation\<close>

text \<open>
  What the generator makes: the tags' bytes one after the other. The base64 encoder relies on
  its output length, four characters for every started group of three bytes.
\<close>

fun chain_bytes :: "(bytes \<Rightarrow> bytes) \<Rightarrow> nat \<Rightarrow> bytes \<Rightarrow> cps_chain \<Rightarrow> rng \<Rightarrow> (bytes \<times> rng) option" where
  "chain_bytes b64 secs dat [] r = Some ([], r)"
| "chain_bytes b64 secs dat (tag # tags) r =
     (case CpsTag_bytes b64 secs dat tag r of
        None \<Rightarrow> None
      | Some (bs, r1) \<Rightarrow>
          (case chain_bytes b64 secs dat tags r1 of
             None \<Rightarrow> None
           | Some (cs, r2) \<Rightarrow> Some (bs @ cs, r2)))"

definition b64_len_law :: "(bytes \<Rightarrow> bytes) \<Rightarrow> bool" where
  "b64_len_law b64 \<longleftrightarrow> (\<forall>xs. length (b64 xs) = (length xs + 2) div 3 * 4)"

fun tag_generable :: "CpsTag \<Rightarrow> bool" where
  "tag_generable (DataSize n) \<longleftrightarrow> n \<le> 8"
| "tag_generable _ \<longleftrightarrow> True"

lemma length_random_chars [simp]: "length (fst (random_chars n r)) = n"
  by (induction n arbitrary: r) (simp_all add: case_prod_unfold Let_def)

lemma length_random_digits [simp]: "length (fst (random_digits n r)) = n"
  by (induction n arbitrary: r) (simp_all add: case_prod_unfold Let_def)

lemma CpsTag_bytes_returns:
  assumes "b64_len_law b64"
  shows "tag_generable tag \<Longrightarrow> \<exists>bs r'. CpsTag_bytes b64 secs dat tag r = Some (bs, r') \<and>
           length bs = CpsTag_encoded_len (length dat) tag"
    and "\<not> tag_generable tag \<Longrightarrow> CpsTag_bytes b64 secs dat tag r = None"
  using assms by (cases tag; auto simp: b64_len_law_def fill_bytes_def prod_eq_iff)+

lemma CpsTag_bytes_length:
  assumes "b64_len_law b64" "CpsTag_bytes b64 secs dat tag r = Some (bs, r')"
  shows "length bs = CpsTag_encoded_len (length dat) tag"
  using CpsTag_bytes_returns [OF assms(1), of tag secs dat r] assms(2) by (cases "tag_generable tag") auto

lemma chain_bytes_None_iff:
  assumes "b64_len_law b64"
  shows "chain_bytes b64 secs dat tags r = None \<longleftrightarrow> \<not> list_all tag_generable tags"
proof (induction tags arbitrary: r)
  case (Cons tag tags)
  show ?case
  proof (cases "tag_generable tag")
    case True
    then obtain bs r1 where "CpsTag_bytes b64 secs dat tag r = Some (bs, r1)"
      using CpsTag_bytes_returns(1) [OF assms] by blast
    then show ?thesis
      using True Cons.IH [of r1] by (auto split: option.splits)
  qed (simp add: CpsTag_bytes_returns(2) [OF assms])
qed simp

lemma chain_bytes_length:
  assumes "b64_len_law b64"
  shows "chain_bytes b64 secs dat tags r = Some (bs, r') \<Longrightarrow> length bs = CpsChain_encoded_len tags (length dat)"
proof (induction tags arbitrary: r bs)
  case (Cons tag tags)
  then obtain b1 r1 b2 where "CpsTag_bytes b64 secs dat tag r = Some (b1, r1)"
      "chain_bytes b64 secs dat tags r1 = Some (b2, r')" "bs = b1 @ b2"
    by (auto split: option.splits)
  then show ?case
    using Cons.IH CpsTag_bytes_length [OF assms, of secs dat tag r b1 r1]
    by (simp add: CpsChain_encoded_len_def)
qed (simp add: CpsChain_encoded_len_def)

lemma cps_generate_loop_chain:
  assumes "b64_len_law b64"
  shows "length mid = CpsChain_encoded_len tags (length dat) \<Longrightarrow>
    cps_generate_loop b64 secs dat tags r (pre @ mid) (length pre) =
      (case chain_bytes b64 secs dat tags r of
         None \<Rightarrow> None
       | Some (bs, r') \<Rightarrow> Some (length pre + length bs, pre @ bs, r'))"
proof (induction tags arbitrary: pre mid r)
  case (Cons tag tags)
  show ?case
  proof (cases "CpsTag_bytes b64 secs dat tag r")
    case (Some a)
    obtain bs r1 where a: "a = (bs, r1)" by fastforce
    have len: "length bs = CpsTag_encoded_len (length dat) tag"
      using CpsTag_bytes_length [OF assms] Some a by blast
    define m1 where "m1 = take (length bs) mid"
    define m2 where "m2 = drop (length bs) mid"
    have mid: "mid = m1 @ m2" "length m1 = length bs" "length m2 = CpsChain_encoded_len tags (length dat)"
      using Cons.prems len by (simp_all add: m1_def m2_def CpsChain_encoded_len_def)
    have "write_at (pre @ mid) (length pre) bs = Some ((pre @ bs) @ m2)"
      using mid by (simp add: write_at_append)
    then show ?thesis
      using Some a Cons.IH [OF mid(3), of r1 "pre @ bs"] by (simp add: CpsTag_generate_def split: option.splits)
  qed (simp add: CpsTag_generate_def)
qed (simp add: CpsChain_encoded_len_def)

lemma CpsChain_generate_chain:
  assumes "b64_len_law b64"
  shows "CpsChain_generate b64 secs tags dat r = chain_bytes b64 secs dat tags r"
  using cps_generate_loop_chain [OF assms, where mid = "replicate (CpsChain_encoded_len tags (length dat)) 0" and pre = "[]"]
    chain_bytes_length [OF assms, of secs dat tags r]
  by (simp add: CpsChain_generate_def split: option.splits)

section \<open>Lemmas: parsing and printing\<close>

text \<open>The chains the parser builds.\<close>

fun tag_wf :: "CpsTag \<Rightarrow> bool" where
  "tag_wf (Bytes bs) \<longleftrightarrow> bs \<noteq> []"
| "tag_wf (RandomBytes n) \<longleftrightarrow> n \<le> AWG2_MAX_CPS_RANDOM_LEN"
| "tag_wf (RandomChars n) \<longleftrightarrow> n \<le> AWG2_MAX_CPS_RANDOM_LEN"
| "tag_wf (RandomDigits n) \<longleftrightarrow> n \<le> AWG2_MAX_CPS_RANDOM_LEN"
| "tag_wf (DataSize n) \<longleftrightarrow> n \<le> AWG2_MAX_CPS_RANDOM_LEN"
| "tag_wf _ \<longleftrightarrow> True"

definition cps_wf :: "cps_chain \<Rightarrow> bool" where
  "cps_wf tags \<longleftrightarrow> tags \<noteq> [] \<and> list_all tag_wf tags"

lemma parse_len_tag_wf: "parse_len_tag tag arg = Ok n \<Longrightarrow> n \<le> AWG2_MAX_CPS_RANDOM_LEN"
  by (auto simp: parse_len_tag_def and_then_eq_Inr split: if_splits)

lemma hex_pairs_length: "hex_pairs s = Some (Ok bs) \<Longrightarrow> length s = 2 * length bs"
  by (induction s arbitrary: bs rule: hex_pairs.induct) (auto simp: bind_res_eq_Inr split: if_splits)

lemma parse_bytes_tag_wf: "parse_bytes_tag arg = Some (Ok tag) \<Longrightarrow> tag_wf tag"
  by (auto simp: parse_bytes_tag_def bind_res_eq_Inr dest!: hex_pairs_length split: if_splits)

lemma map_sum_eq_Inr: "map_sum f g m = Inr y \<longleftrightarrow> (\<exists>x. m = Inr x \<and> y = g x)"
  by (cases m) auto

lemma parse_cps_tag_wf: "parse_cps_tag s = Some (Ok tag) \<Longrightarrow> tag_wf tag"
  by (auto simp: parse_cps_tag_def Let_def and_then_eq_Inr map_sum_eq_Inr parse_bytes_tag_wf
        dest: parse_len_tag_wf split: list.splits if_splits)

lemma cps_parse_loop_wf: "cps_parse_loop rest off = Some (Ok tags) \<Longrightarrow> list_all tag_wf tags"
proof (induction rest off arbitrary: tags rule: cps_parse_loop.induct)
  case (1 rest off)
  show ?case
  proof (cases "fst (skip_whitespace rest off) = []")
    case True
    then show ?thesis
      using 1(2) by (simp add: cps_parse_loop.simps [of rest off] Let_def)
  next
    case False
    then obtain s2 body rest' tag tags' where s:
      "consume_byte CHR ''<'' (fst (skip_whitespace rest off)) (snd (skip_whitespace rest off)) = Ok s2"
      "split_once CHR ''>'' (fst s2) = Some (body, rest')" "parse_cps_tag (trim body) = Some (Ok tag)"
      "cps_parse_loop rest' (snd s2 + length body + 1) = Some (Ok tags')" "tags = tag # tags'"
      using 1(2) by (auto simp: cps_parse_loop.simps [of rest off] Let_def bind_res_eq_Inr split: option.splits)
    then have "list_all tag_wf tags'"
      using 1(1) [OF refl False] s by blast
    then show ?thesis
      using s parse_cps_tag_wf by simp
  qed
qed

lemma CpsChain_parse_wf: "CpsChain_parse s = Some (Ok tags) \<Longrightarrow> cps_wf tags"
  by (auto simp: CpsChain_parse_def cps_wf_def bind_res_eq_Inr cps_parse_loop_wf split: if_splits)

definition fmt_hex :: "bytes \<Rightarrow> string" where
  "fmt_hex bs = concat (map fmt_hex2 bs)"

lemma fmt_hex_simps [simp]: "fmt_hex [] = []" "fmt_hex (b # bs) = fmt_hex2 b @ fmt_hex bs"
  by (simp_all add: fmt_hex_def)

lemma length_fmt_hex [simp]: "length (fmt_hex bs) = 2 * length bs"
  by (induction bs) (simp_all add: fmt_hex2_def)

lemma fmt_hex2_digits: "c \<in> set (fmt_hex2 b) \<Longrightarrow> \<exists>d < 16. c = digit_char d"
  by (auto simp: fmt_hex2_def less_mult_imp_div_less intro: exI [of _ "unat b div 16"] exI [of _ "unat b mod 16"])

lemma fmt_hex_digits: "c \<in> set (fmt_hex bs) \<Longrightarrow> \<exists>d < 16. c = digit_char d"
  by (induction bs) (auto dest: fmt_hex2_digits)

lemma graphic_fmt_hex: "c \<in> set (fmt_hex bs) \<Longrightarrow> graphic c"
  using fmt_hex_digits by fastforce

lemma graphic_ends_fmt_hex: "fmt_hex bs \<noteq> [] \<Longrightarrow> graphic (hd (fmt_hex bs))" "fmt_hex bs \<noteq> [] \<Longrightarrow> graphic (last (fmt_hex bs))"
  by (metis graphic_fmt_hex hd_in_set, metis graphic_fmt_hex last_in_set)

lemma graphic_fmt_dec: "c \<in> set (fmt_dec n) \<Longrightarrow> graphic c"
  using fmt_dec_digits by fastforce

lemma graphic_not_cont: "graphic c \<Longrightarrow> \<not> is_utf8_cont c"
  by (simp add: graphic_def is_utf8_cont_def)

lemma hex_pairs_fmt_hex: "hex_pairs (fmt_hex bs) = Some (Ok bs)"
proof (induction bs)
  case (Cons b bs)
  obtain x y where xy: "fmt_hex2 b = [x, y]"
    by (simp add: fmt_hex2_def)
  have "graphic x"
    using fmt_hex2_digits [of x b] xy by fastforce
  moreover have "fmt_hex bs \<noteq> [] \<Longrightarrow> graphic (hd (fmt_hex bs))"
    by (rule graphic_ends_fmt_hex)
  moreover have "parse_u8_hex [x, y] = Ok b"
    using parse_u8_hex_fmt [of b] xy by simp
  ultimately show ?case
    using Cons by (auto simp: xy graphic_not_cont)
qed simp

text \<open>What stands between the brackets of a printed tag.\<close>

fun tag_body :: "CpsTag \<Rightarrow> string" where
  "tag_body (Bytes bs) = ''b 0x'' @ fmt_hex bs"
| "tag_body Timestamp = ''t''"
| "tag_body (RandomBytes n) = ''r '' @ fmt_dec n"
| "tag_body (RandomChars n) = ''rc '' @ fmt_dec n"
| "tag_body (RandomDigits n) = ''rd '' @ fmt_dec n"
| "tag_body Data = ''d''"
| "tag_body DataString = ''ds''"
| "tag_body (DataSize n) = ''dz '' @ fmt_dec n"

lemma fmt_CpsTag_body: "fmt_CpsTag tag = CHR ''<'' # tag_body tag @ [CHR ''>'']"
  by (cases tag) (simp_all add: fmt_hex_def)

lemma graphic_literals [simp]:
  "graphic CHR ''b''" "graphic CHR ''t''" "graphic CHR ''r''" "graphic CHR ''c''" "graphic CHR ''d''"
  "graphic CHR ''s''" "graphic CHR ''z''" "graphic CHR ''0''" "graphic CHR ''x''" "graphic CHR ''<''" "graphic CHR ''>''"
  by (simp_all add: graphic_def)

lemma fmt_hex_notin:
  assumes "\<not> 48 \<le> (of_char c :: nat) \<or> 57 < (of_char c :: nat)"
    and "\<not> 97 \<le> (of_char c :: nat) \<or> 102 < (of_char c :: nat)"
  shows "c \<notin> set (fmt_hex bs)"
  using fmt_hex_digits [of c bs] digit_char_neq [OF _ assms] by blast

lemma tag_body_chars: "CHR ''>'' \<notin> set (tag_body tag)" "CHR 0x0A \<notin> set (tag_body tag)"
  by (cases tag; simp add: fmt_dec_notin fmt_hex_notin)+

lemma trim_tag_body: "tag_wf tag \<Longrightarrow> trim (tag_body tag) = tag_body tag"
  by (rule trim_graphic, cases tag) (auto simp: graphic_ends_fmt_hex)

lemma split_whitespace_len:
  "w \<noteq> [] \<Longrightarrow> list_all graphic w \<Longrightarrow> split_whitespace (w @ CHR 0x20 # fmt_dec n) = [w, fmt_dec n]"
  by (rule split_whitespace_two) (auto simp: list_all_iff dest: graphic_fmt_dec)

lemma split_whitespace_name: "w \<noteq> [] \<Longrightarrow> list_all graphic w \<Longrightarrow> split_whitespace w = [w]"
  by (rule split_whitespace_word) (auto simp: list_all_iff)

lemma parse_len_tag_fmt: "n \<le> AWG2_MAX_CPS_RANDOM_LEN \<Longrightarrow> parse_len_tag tag (Some (fmt_dec n)) = Ok n"
  by (simp add: parse_len_tag_def AWG2_MAX_CPS_RANDOM_LEN_def)

lemma parse_cps_tag_len:
  assumes "n \<le> AWG2_MAX_CPS_RANDOM_LEN"
  shows "parse_cps_tag (''r '' @ fmt_dec n) = Some (Ok (RandomBytes n))"
    and "parse_cps_tag (''rc '' @ fmt_dec n) = Some (Ok (RandomChars n))"
    and "parse_cps_tag (''rd '' @ fmt_dec n) = Some (Ok (RandomDigits n))"
    and "parse_cps_tag (''dz '' @ fmt_dec n) = Some (Ok (DataSize n))"
  using split_whitespace_len [of "''r''" n] split_whitespace_len [of "''rc''" n]
    split_whitespace_len [of "''rd''" n] split_whitespace_len [of "''dz''" n]
  by (simp_all add: parse_cps_tag_def iter_nth_def parse_len_tag_fmt [OF assms])

lemma parse_cps_tag_bytes:
  assumes "bs \<noteq> []"
  shows "parse_cps_tag (''b 0x'' @ fmt_hex bs) = Some (Ok (Bytes bs))"
proof -
  have "fmt_hex bs \<noteq> []"
    using assms length_fmt_hex [of bs] by force
  moreover have "split_whitespace (''b'' @ CHR 0x20 # ''0x'' @ fmt_hex bs) = [''b'', ''0x'' @ fmt_hex bs]"
    by (rule split_whitespace_two) (auto dest: graphic_fmt_hex)
  ultimately show ?thesis
    by (simp add: parse_cps_tag_def iter_nth_def parse_bytes_tag_def strip_prefix_def hex_pairs_fmt_hex)
qed

lemma parse_tag_body: "tag_wf tag \<Longrightarrow> parse_cps_tag (tag_body tag) = Some (Ok tag)"
  using split_whitespace_name [of "''t''"] split_whitespace_name [of "''d''"] split_whitespace_name [of "''ds''"]
  by (cases tag; simp add: parse_cps_tag_bytes [simplified] parse_cps_tag_len [simplified])
     (simp_all add: parse_cps_tag_def iter_nth_def reject_arg_def)

lemma cps_parse_loop_fmt:
  "list_all tag_wf tags \<Longrightarrow> cps_parse_loop (fmt_CpsChain tags) off = Some (Ok tags)"
proof (induction tags arbitrary: off)
  case Nil
  then show ?case
    by (simp add: fmt_CpsChain_def cps_parse_loop.simps)
next
  case (Cons tag tags)
  have s: "fmt_CpsChain (tag # tags) = CHR ''<'' # tag_body tag @ CHR ''>'' # fmt_CpsChain tags"
    by (simp add: fmt_CpsChain_def fmt_CpsTag_body)
  have "split_once CHR ''>'' (tag_body tag @ CHR ''>'' # fmt_CpsChain tags) = Some (tag_body tag, fmt_CpsChain tags)"
    by (rule split_once_append) (rule tag_body_chars)
  then show ?case
    using Cons by (subst cps_parse_loop.simps)
      (simp add: s is_ascii_whitespace_def consume_byte_def trim_tag_body parse_tag_body)
qed

lemma CpsChain_parse_fmt: "cps_wf tags \<Longrightarrow> CpsChain_parse (fmt_CpsChain tags) = Some (Ok tags)"
  by (simp add: CpsChain_parse_def cps_wf_def cps_parse_loop_fmt)

lemma fmt_CpsChain_safe:
  assumes "cps_wf tags"
  shows "line_safe (fmt_CpsChain tags)"
proof -
  have "tags \<noteq> []"
    using assms by (simp add: cps_wf_def)
  then have "hd (fmt_CpsChain tags) = CHR ''<''" "fmt_CpsChain tags \<noteq> []"
    by (cases tags; simp add: fmt_CpsChain_def fmt_CpsTag_body)+
  moreover have "last (fmt_CpsChain tags) = CHR ''>''"
    using \<open>tags \<noteq> []\<close> by (cases tags rule: rev_cases) (simp_all add: fmt_CpsChain_def fmt_CpsTag_body)
  moreover have "CHR 0x0A \<notin> set (fmt_CpsChain tags)"
    by (auto simp: fmt_CpsChain_def fmt_CpsTag_body tag_body_chars)
  ultimately show ?thesis
    by (simp add: line_safe_def)
qed

section \<open>Properties\<close>

text \<open>
  Generating a chain whose \<open><dz N>\<close> tags have \<open>N \<le> 8\<close> does not panic: it fills exactly
  \<open>encoded_len\<close> bytes, and they are the bytes of the tags one after the other, each tag
  drawing its randomness after the previous one.
\<close>

theorem cps_generate_exact:
  assumes "b64_len_law b64" and "list_all tag_generable tags"
  shows "\<exists>out r'. CpsChain_generate b64 secs tags dat r = Some (out, r') \<and>
           chain_bytes b64 secs dat tags r = Some (out, r') \<and>
           length out = CpsChain_encoded_len tags (length dat)"
proof -
  obtain out r' where "chain_bytes b64 secs dat tags r = Some (out, r')"
    using chain_bytes_None_iff [OF assms(1), of secs dat tags r] assms(2) by fastforce
  then show ?thesis
    using CpsChain_generate_chain [OF assms(1)] chain_bytes_length [OF assms(1)] by simp
qed

theorem cps_generate_exact_witness:
  "\<exists>out r'. CpsChain_generate (\<lambda>xs. replicate ((length xs + 2) div 3 * 4) 65) 7
       [Bytes [1, 2], Timestamp, RandomChars 3, DataString, DataSize 2] [9, 9] (\<lambda>i. of_nat i) = Some (out, r') \<and>
     length out = 15"
proof -
  have "b64_len_law (\<lambda>xs. replicate ((length xs + 2) div 3 * 4) 65)"
    by (simp add: b64_len_law_def)
  from cps_generate_exact [OF this, of "[Bytes [1, 2], Timestamp, RandomChars 3, DataString, DataSize 2]" 7 "[9, 9]" "\<lambda>i. of_nat i"]
  show ?thesis
    by (auto simp: CpsChain_encoded_len_def)
qed

text \<open>
  C34. The parser accepts a tag \<open><dz N>\<close> for every \<open>N\<close> up to its limit, yet every chain with such a
  tag and \<open>N\<close> above 8, whatever else is in it, panics when the init packet is generated, since
  \<open>8 - len\<close> underflows; a chain without one is generated.
\<close>

theorem cps_data_size_panics:
  assumes "b64_len_law b64"
  shows "(N \<le> AWG2_MAX_CPS_RANDOM_LEN \<longrightarrow> CpsChain_parse (fmt_CpsChain [DataSize N]) = Some (Ok [DataSize N])) \<and>
         (generate_for_init b64 secs chain r = None \<longleftrightarrow> (\<exists>n > 8. DataSize n \<in> set chain))"
proof -
  have "cps_wf [DataSize N]" if "N \<le> AWG2_MAX_CPS_RANDOM_LEN"
    using that by (simp add: cps_wf_def)
  then have parse: "N \<le> AWG2_MAX_CPS_RANDOM_LEN \<longrightarrow> CpsChain_parse (fmt_CpsChain [DataSize N]) = Some (Ok [DataSize N])"
    using CpsChain_parse_fmt by blast
  have "\<not> tag_generable tag \<longleftrightarrow> (\<exists>n > 8. tag = DataSize n)" for tag
    by (cases tag) auto
  then have "generate_for_init b64 secs chain r = None \<longleftrightarrow> (\<exists>n > 8. DataSize n \<in> set chain)"
    using chain_bytes_None_iff [OF assms, of secs "[]" chain r]
    by (auto simp: generate_for_init_def CpsChain_generate_chain [OF assms] list_all_iff)
  with parse show ?thesis by blast
qed

theorem cps_data_size_panics_witness:
  "CpsChain_parse '' <b 0xab> <dz 300><t>'' = Some (Ok [Bytes [0xAB], DataSize 300, Timestamp]) \<and>
   generate_for_init (\<lambda>xs. replicate ((length xs + 2) div 3 * 4) 65) 0 [Bytes [0xAB], DataSize 300, Timestamp] (\<lambda>i. 0) = None"
proof -
  have "b64_len_law (\<lambda>xs. replicate ((length xs + 2) div 3 * 4) 65)"
    by (simp add: b64_len_law_def)
  from cps_data_size_panics [OF this] have
    "generate_for_init (\<lambda>xs. replicate ((length xs + 2) div 3 * 4) 65) 0 [Bytes [0xAB], DataSize 300, Timestamp] (\<lambda>i. 0) = None"
    by auto
  moreover have "CpsChain_parse '' <b 0xab> <dz 300><t>'' = Some (Ok [Bytes [0xAB], DataSize 300, Timestamp])"
    by code_simp
  ultimately show ?thesis by blast
qed

text \<open>
  \<open>Display\<close> and \<open>parse\<close> of a chain are inverse: every chain the parser can build prints
  to a text that parses back to the same chain, and whatever the parser accepts is such a chain.
\<close>

theorem cps_roundtrip:
  "(cps_wf tags \<longrightarrow> CpsChain_parse (fmt_CpsChain tags) = Some (Ok tags)) \<and>
   (CpsChain_parse s = Some (Ok tags') \<longrightarrow> cps_wf tags')"
  using CpsChain_parse_fmt CpsChain_parse_wf by blast

theorem cps_roundtrip_witness:
  "CpsChain_parse (fmt_CpsChain [Bytes [0xDE, 0xAD], RandomBytes 1200, DataString]) =
     Some (Ok [Bytes [0xDE, 0xAD], RandomBytes 1200, DataString]) \<and>
   cps_wf [Bytes [0xAB], Timestamp]"
proof -
  have "CpsChain_parse '' <b 0xaB> < t >'' = Some (Ok [Bytes [0xAB], Timestamp])"
    by code_simp
  moreover have "cps_wf [Bytes [0xDE, 0xAD], RandomBytes 1200, DataString]"
    by (simp add: cps_wf_def AWG2_MAX_CPS_RANDOM_LEN_def)
  ultimately show ?thesis
    using cps_roundtrip by blast
qed

text \<open>
  A hex argument that puts a multi-byte character across a pair boundary makes the parser
  panic instead of reporting an error.
\<close>

theorem cps_parse_panics_inside_character:
  "CpsChain_parse (''<b 0xa'' @ [CHR 0xC3, CHR 0xA9] @ ''b>'') = None"
  by code_simp

end
