(* ===== verification/AmneziaUapi.thy ===== *)
theory AmneziaUapi
  imports Cps
begin

text \<open>
  The aggregate configurations of \<open>src/awgtun/src/amnezia.rs\<close>: \<open>Amnezia2Config\<close> and
  \<open>Amnezia3Config\<close> with their checks, the parser of the UAPI \<open>key=value\<close> block and the
  serialiser. The hex decoder of the \<open>hex\<close> crate is the parameter \<open>hexdec\<close>; the lemmas ask
  of it that it inverts lower-case hex (\<open>hex_law\<close>).
\<close>

section \<open>Amnezia2Config\<close>

record amnezia2_config =
  a2_junk :: junk_config
  a2_paddings :: padding_config
  a2_headers :: header_config
  a2_init_packets :: init_packet_config

definition Amnezia2Config_default :: amnezia2_config where
  "Amnezia2Config_default =
     \<lparr>a2_junk = JunkConfig_disabled, a2_paddings = PaddingConfig_default,
      a2_headers = HeaderConfig_wireguard_compatible, a2_init_packets = InitPacketConfig_default\<rparr>"

definition Amnezia2Config_validate :: "amnezia2_config \<Rightarrow> ConfigError + unit" where
  "Amnezia2Config_validate c =
     and_then (JunkConfig_validate (a2_junk c)) (\<lambda>_.
     and_then (PaddingConfig_validate (a2_paddings c)) (\<lambda>_.
     and_then (InitPacketConfig_validate (a2_init_packets c)) (\<lambda>_.
     HeaderConfig_validate (a2_headers c))))"

definition Amnezia2Config_validate_for_mtu :: "amnezia2_config \<Rightarrow> nat \<Rightarrow> ConfigError + unit" where
  "Amnezia2Config_validate_for_mtu c mtu =
     and_then (Amnezia2Config_validate c) (\<lambda>_. JunkConfig_validate_for_mtu (a2_junk c) mtu)"

definition is_wireguard_compatible :: "amnezia2_config \<Rightarrow> bool" where
  "is_wireguard_compatible c \<longleftrightarrow>
     a2_junk c = JunkConfig_disabled \<and> a2_paddings c = PaddingConfig_default \<and>
     a2_headers c = HeaderConfig_wireguard_compatible \<and> a2_init_packets c = InitPacketConfig_default"

definition amnezia2_fields :: "string list" where
  "amnezia2_fields =
     [''jc'', ''jmin'', ''jmax'', ''s1'', ''s2'', ''s3'', ''s4'', ''h1'', ''h2'', ''h3'', ''h4'',
      ''i1'', ''i2'', ''i3'', ''i4'', ''i5'']"

definition validate_field_name :: "string \<Rightarrow> ConfigError + unit" where
  "validate_field_name field =
     (if to_ascii_lowercase field \<in> set amnezia2_fields then Ok ()
      else Err (UnsupportedLegacyField field))"

section \<open>Amnezia3Config\<close>

record amnezia3_config =
  a3_junk :: junk_config
  a3_paddings :: padding_config
  a3_headers :: header_config
  a3_init_packets :: init_packet_config
  a3_header_protection_key :: "bytes option"
  a3_content_padding_addition :: "u32_range option"
  a3_timing_ranges :: timing_ranges
  a3_random_trailers :: bool
  a3_disable_cookies :: bool
  a3_mtu :: u32

definition Amnezia3Config_default :: amnezia3_config where
  "Amnezia3Config_default =
     \<lparr>a3_junk = JunkConfig_disabled, a3_paddings = PaddingConfig_default,
      a3_headers = HeaderConfig_wireguard_compatible, a3_init_packets = InitPacketConfig_default,
      a3_header_protection_key = None, a3_content_padding_addition = None,
      a3_timing_ranges = TimingRanges_default, a3_random_trailers = False,
      a3_disable_cookies = False, a3_mtu = AWG3_DEFAULT_MTU\<rparr>"

definition from_amnezia2 :: "amnezia2_config \<Rightarrow> amnezia3_config" where
  "from_amnezia2 c =
     \<lparr>a3_junk = a2_junk c, a3_paddings = a2_paddings c, a3_headers = a2_headers c,
      a3_init_packets = a2_init_packets c, a3_header_protection_key = None,
      a3_content_padding_addition = None, a3_timing_ranges = TimingRanges_default,
      a3_random_trailers = False, a3_disable_cookies = False, a3_mtu = AWG3_DEFAULT_MTU\<rparr>"

fun check_min_padding :: "(PaddingKind \<times> u16) list \<Rightarrow> ConfigError + unit" where
  "check_min_padding [] = Ok ()"
| "check_min_padding ((field, v) # rest) =
     (if v < HEADER_PROTECTION_MIN_PADDING
      then Err (HeaderProtectionPaddingTooSmall field v HEADER_PROTECTION_MIN_PADDING)
      else check_min_padding rest)"

definition Amnezia3Config_validate :: "amnezia3_config \<Rightarrow> ConfigError + unit" where
  "Amnezia3Config_validate c =
     and_then (JunkConfig_validate (a3_junk c)) (\<lambda>_.
     and_then (PaddingConfig_validate (a3_paddings c)) (\<lambda>_.
     and_then (InitPacketConfig_validate (a3_init_packets c)) (\<lambda>_.
     and_then (HeaderConfig_validate (a3_headers c)) (\<lambda>_.
     and_then (case a3_content_padding_addition c of
                 Some ur \<Rightarrow> U32Range_validate ''content_padding_addition'' ur
               | None \<Rightarrow> Ok ()) (\<lambda>_.
     and_then (TimingRanges_validate (a3_timing_ranges c)) (\<lambda>_.
     if a3_header_protection_key c \<noteq> None
     then check_min_padding [(PK_Init, pc_s1 (a3_paddings c)), (PK_Response, pc_s2 (a3_paddings c)),
                             (PK_Cookie, pc_s3 (a3_paddings c)), (PK_Transport, pc_s4 (a3_paddings c))]
     else Ok ()))))))"

section \<open>Parsing\<close>

definition parse_field_bool :: "string \<Rightarrow> string \<Rightarrow> ConfigError + bool" where
  "parse_field_bool field v =
     (if v \<in> {''1'', ''t'', ''T'', ''true'', ''TRUE'', ''True'', ''on'', ''ON'', ''On''} then Ok True
      else if v \<in> {''0'', ''f'', ''F'', ''false'', ''FALSE'', ''False'', ''off'', ''OFF'', ''Off''} then Ok False
      else Err (InvalidFieldValue field ''expected a boolean (0/1, true/false, on/off)''))"

definition parse_field_u16 :: "string \<Rightarrow> string \<Rightarrow> ConfigError + u16" where
  "parse_field_u16 field v =
     map_err (\<lambda>_. InvalidFieldValue field ''expected a decimal value in 0-65535'') (parse_u16 v)"

definition parse_field_u32 :: "string \<Rightarrow> string \<Rightarrow> ConfigError + u32" where
  "parse_field_u32 field v =
     map_err (\<lambda>_. InvalidFieldValue field ''expected a decimal value'') (parse_u32 v)"

definition parse_header_protection_key :: "(string \<Rightarrow> bytes option) \<Rightarrow> string \<Rightarrow> ConfigError + bytes" where
  "parse_header_protection_key hexdec v =
     and_then (ok_or (hexdec v) (InvalidFieldValue ''header_protection_key'' ''expected hex characters'')) (\<lambda>bytes.
       if length bytes = 32 then Ok bytes
       else Err (InvalidFieldValue ''header_protection_key''
                   ''expected exactly 32 bytes (64 hex characters)''))"

text \<open>The three variables of the parse loop.\<close>

record uapi_state =
  us_config :: amnezia3_config
  us_headers :: header_config
  us_saw_header :: bool

text \<open>Set a field from a parsed value.\<close>

definition put :: "ConfigError + 'v \<Rightarrow> ('v \<Rightarrow> uapi_state) \<Rightarrow> (ConfigError, uapi_state) fallible" where
  "put m f = bind_res (Some m) (\<lambda>v. Some (Ok (f v)))"

definition put_junk :: "uapi_state \<Rightarrow> junk_config \<Rightarrow> uapi_state" where
  "put_junk st j = st\<lparr>us_config := (us_config st)\<lparr>a3_junk := j\<rparr>\<rparr>"

definition put_pad :: "uapi_state \<Rightarrow> padding_config \<Rightarrow> uapi_state" where
  "put_pad st p = st\<lparr>us_config := (us_config st)\<lparr>a3_paddings := p\<rparr>\<rparr>"

definition put_header :: "uapi_state \<Rightarrow> header_config \<Rightarrow> uapi_state" where
  "put_header st h = st\<lparr>us_headers := h, us_saw_header := True\<rparr>"

definition put_init :: "uapi_state \<Rightarrow> init_packet_config \<Rightarrow> uapi_state" where
  "put_init st i = st\<lparr>us_config := (us_config st)\<lparr>a3_init_packets := i\<rparr>\<rparr>"

definition put_timing :: "uapi_state \<Rightarrow> timing_ranges \<Rightarrow> uapi_state" where
  "put_timing st t = st\<lparr>us_config := (us_config st)\<lparr>a3_timing_ranges := t\<rparr>\<rparr>"

definition set_field ::
  "(string \<Rightarrow> bytes option) \<Rightarrow> string \<Rightarrow> string \<Rightarrow> uapi_state \<Rightarrow> (ConfigError, uapi_state) fallible" where
  "set_field hexdec key v st =
     (let cfg = us_config st; junk = a3_junk cfg; pad = a3_paddings cfg; hdr = us_headers st;
          ip = a3_init_packets cfg; tr = a3_timing_ranges cfg in
      if key = ''jc'' then put (parse_field_u16 key v) (\<lambda>n. put_junk st (junk\<lparr>jc_count := n\<rparr>))
      else if key = ''jmin'' then put (parse_field_u16 key v) (\<lambda>n. put_junk st (junk\<lparr>jc_min_size := n\<rparr>))
      else if key = ''jmax'' then put (parse_field_u16 key v) (\<lambda>n. put_junk st (junk\<lparr>jc_max_size := n\<rparr>))
      else if key = ''s1'' then put (parse_field_u16 key v) (\<lambda>n. put_pad st (pad\<lparr>pc_s1 := n\<rparr>))
      else if key = ''s2'' then put (parse_field_u16 key v) (\<lambda>n. put_pad st (pad\<lparr>pc_s2 := n\<rparr>))
      else if key = ''s3'' then put (parse_field_u16 key v) (\<lambda>n. put_pad st (pad\<lparr>pc_s3 := n\<rparr>))
      else if key = ''s4'' then put (parse_field_u16 key v) (\<lambda>n. put_pad st (pad\<lparr>pc_s4 := n\<rparr>))
      else if key = ''h1'' then put (HeaderRange_parse v) (\<lambda>h. put_header st (hdr\<lparr>hc_init := h\<rparr>))
      else if key = ''h2'' then put (HeaderRange_parse v) (\<lambda>h. put_header st (hdr\<lparr>hc_response := h\<rparr>))
      else if key = ''h3'' then put (HeaderRange_parse v) (\<lambda>h. put_header st (hdr\<lparr>hc_cookie := h\<rparr>))
      else if key = ''h4'' then put (HeaderRange_parse v) (\<lambda>h. put_header st (hdr\<lparr>hc_transport := h\<rparr>))
      else if key = ''i1'' then bind_res (CpsChain_parse v) (\<lambda>c. Some (Ok (put_init st (ip\<lparr>ip_i1 := Some c\<rparr>))))
      else if key = ''i2'' then bind_res (CpsChain_parse v) (\<lambda>c. Some (Ok (put_init st (ip\<lparr>ip_i2 := Some c\<rparr>))))
      else if key = ''i3'' then bind_res (CpsChain_parse v) (\<lambda>c. Some (Ok (put_init st (ip\<lparr>ip_i3 := Some c\<rparr>))))
      else if key = ''i4'' then bind_res (CpsChain_parse v) (\<lambda>c. Some (Ok (put_init st (ip\<lparr>ip_i4 := Some c\<rparr>))))
      else if key = ''i5'' then bind_res (CpsChain_parse v) (\<lambda>c. Some (Ok (put_init st (ip\<lparr>ip_i5 := Some c\<rparr>))))
      else if key = ''header_protection_key'' then
        put (parse_header_protection_key hexdec v) (\<lambda>k.
          st\<lparr>us_config := cfg\<lparr>a3_header_protection_key := (if list_all (\<lambda>b. b = 0) k then None else Some k)\<rparr>\<rparr>)
      else if key = ''content_padding_addition'' then
        put (U32Range_parse v) (\<lambda>ur.
          st\<lparr>us_config := cfg\<lparr>a3_content_padding_addition := (if U32Range_is_zero ur then None else Some ur)\<rparr>\<rparr>)
      else if key = ''rekey_after_time'' then put (U32Range_parse v) (\<lambda>ur. put_timing st (tr\<lparr>tr_rekey_after_time := ur\<rparr>))
      else if key = ''rekey_timeout'' then put (U32Range_parse v) (\<lambda>ur. put_timing st (tr\<lparr>tr_rekey_timeout := ur\<rparr>))
      else if key = ''reject_after_time'' then put (U32Range_parse v) (\<lambda>ur. put_timing st (tr\<lparr>tr_reject_after_time := ur\<rparr>))
      else if key = ''keepalive_timeout'' then put (U32Range_parse v) (\<lambda>ur. put_timing st (tr\<lparr>tr_keepalive_timeout := ur\<rparr>))
      else if key = ''max_handshake_attempts'' then
        put (U32Range_parse v) (\<lambda>ur. put_timing st (tr\<lparr>tr_max_handshake_attempts := ur\<rparr>))
      else if key = ''persistent_keepalive_interval'' then
        put (U32Range_parse v) (\<lambda>ur. put_timing st (tr\<lparr>tr_persistent_keepalive := ur\<rparr>))
      else if key = ''random_trailers'' then
        put (parse_field_bool key v) (\<lambda>b. st\<lparr>us_config := cfg\<lparr>a3_random_trailers := b\<rparr>\<rparr>)
      else if key = ''disable_cookies'' then
        put (parse_field_bool key v) (\<lambda>b. st\<lparr>us_config := cfg\<lparr>a3_disable_cookies := b\<rparr>\<rparr>)
      else if key = ''mtu'' then put (parse_field_u32 key v) (\<lambda>n. st\<lparr>us_config := cfg\<lparr>a3_mtu := n\<rparr>\<rparr>)
      else bind_res (Some (validate_field_name key)) (\<lambda>_. Some (Err (UnsupportedLegacyField key))))"

definition parse_config_line ::
  "(string \<Rightarrow> bytes option) \<Rightarrow> string \<Rightarrow> uapi_state \<Rightarrow> (ConfigError, uapi_state) fallible" where
  "parse_config_line hexdec raw st =
     (let line = trim raw in
      if line = [] \<or> hd line = CHR ''#'' then Some (Ok st)
      else bind_res (Some (ok_or (split_once CHR ''='' line) (InvalidConfigLine line ''expected `key=value`'')))
             (\<lambda>(key, v). set_field hexdec (to_ascii_lowercase (trim key)) (trim v) st))"

fun parse_config_lines ::
  "(string \<Rightarrow> bytes option) \<Rightarrow> string list \<Rightarrow> uapi_state \<Rightarrow> (ConfigError, uapi_state) fallible" where
  "parse_config_lines hexdec [] st = Some (Ok st)"
| "parse_config_lines hexdec (l # ls) st = bind_res (parse_config_line hexdec l st) (parse_config_lines hexdec ls)"

definition finish_config :: "uapi_state \<Rightarrow> (ConfigError, amnezia3_config) fallible" where
  "finish_config st =
     bind_res (Some (if us_saw_header st
                     then and_then (HeaderConfig_new (hc_init (us_headers st)) (hc_response (us_headers st))
                                      (hc_cookie (us_headers st)) (hc_transport (us_headers st)))
                            (\<lambda>h. Ok ((us_config st)\<lparr>a3_headers := h\<rparr>))
                     else Ok (us_config st))) (\<lambda>cfg.
     bind_res (Some (Amnezia3Config_validate cfg)) (\<lambda>_. Some (Ok cfg)))"

definition Amnezia3Config_parse ::
  "(string \<Rightarrow> bytes option) \<Rightarrow> string \<Rightarrow> (ConfigError, amnezia3_config) fallible" where
  "Amnezia3Config_parse hexdec input =
     bind_res (parse_config_lines hexdec (rust_lines input)
                 \<lparr>us_config = Amnezia3Config_default, us_headers = HeaderConfig_wireguard_compatible,
                  us_saw_header = False\<rparr>)
       finish_config"

section \<open>Serialising\<close>

text \<open>The \<open>key=value\<close> lines in the order they are written, as pairs.\<close>

definition junk_pairs :: "amnezia3_config \<Rightarrow> (string \<times> string) list" where
  "junk_pairs c =
     (if a3_junk c \<noteq> a3_junk Amnezia3Config_default
      then [(''jc'', fmt_u16 (jc_count (a3_junk c))), (''jmin'', fmt_u16 (jc_min_size (a3_junk c))),
            (''jmax'', fmt_u16 (jc_max_size (a3_junk c)))]
      else [])"

definition u16_pair :: "string \<Rightarrow> u16 \<Rightarrow> u16 \<Rightarrow> (string \<times> string) list" where
  "u16_pair key v fallback = (if v \<noteq> fallback then [(key, fmt_u16 v)] else [])"

definition padding_pairs :: "amnezia3_config \<Rightarrow> (string \<times> string) list" where
  "padding_pairs c =
     (let p = a3_paddings c; d = a3_paddings Amnezia3Config_default
      in u16_pair ''s1'' (pc_s1 p) (pc_s1 d) @ u16_pair ''s2'' (pc_s2 p) (pc_s2 d) @
         u16_pair ''s3'' (pc_s3 p) (pc_s3 d) @ u16_pair ''s4'' (pc_s4 p) (pc_s4 d))"

definition header_pairs :: "amnezia3_config \<Rightarrow> (string \<times> string) list" where
  "header_pairs c =
     (if a3_headers c \<noteq> a3_headers Amnezia3Config_default
      then [(''h1'', fmt_HeaderRange (hc_init (a3_headers c))), (''h2'', fmt_HeaderRange (hc_response (a3_headers c))),
            (''h3'', fmt_HeaderRange (hc_cookie (a3_headers c))), (''h4'', fmt_HeaderRange (hc_transport (a3_headers c)))]
      else [])"

definition chain_pair :: "string \<Rightarrow> cps_chain option \<Rightarrow> (string \<times> string) list" where
  "chain_pair key chain = (case chain of None \<Rightarrow> [] | Some c \<Rightarrow> [(key, fmt_CpsChain c)])"

definition init_pairs :: "amnezia3_config \<Rightarrow> (string \<times> string) list" where
  "init_pairs c =
     (let i = a3_init_packets c
      in chain_pair ''i1'' (ip_i1 i) @ chain_pair ''i2'' (ip_i2 i) @ chain_pair ''i3'' (ip_i3 i) @
         chain_pair ''i4'' (ip_i4 i) @ chain_pair ''i5'' (ip_i5 i))"

definition key_pairs :: "amnezia3_config \<Rightarrow> (string \<times> string) list" where
  "key_pairs c =
     (case a3_header_protection_key c of
        None \<Rightarrow> [] | Some k \<Rightarrow> [(''header_protection_key'', concat (map fmt_hex2 k))])"

definition content_pairs :: "amnezia3_config \<Rightarrow> (string \<times> string) list" where
  "content_pairs c =
     (case a3_content_padding_addition c of
        None \<Rightarrow> [] | Some ur \<Rightarrow> [(''content_padding_addition'', fmt_U32Range ur)])"

definition range_pair :: "string \<Rightarrow> u32_range \<Rightarrow> (string \<times> string) list" where
  "range_pair key ur = (if U32Range_is_zero ur then [] else [(key, fmt_U32Range ur)])"

definition timing_pairs :: "amnezia3_config \<Rightarrow> (string \<times> string) list" where
  "timing_pairs c =
     (let t = a3_timing_ranges c
      in range_pair ''rekey_after_time'' (tr_rekey_after_time t) @ range_pair ''rekey_timeout'' (tr_rekey_timeout t) @
         range_pair ''reject_after_time'' (tr_reject_after_time t) @ range_pair ''keepalive_timeout'' (tr_keepalive_timeout t) @
         range_pair ''max_handshake_attempts'' (tr_max_handshake_attempts t) @
         range_pair ''persistent_keepalive_interval'' (tr_persistent_keepalive t))"

definition bool_pair :: "string \<Rightarrow> bool \<Rightarrow> bool \<Rightarrow> (string \<times> string) list" where
  "bool_pair key v fallback = (if v \<noteq> fallback then [(key, if v then ''1'' else ''0'')] else [])"

definition flag_pairs :: "amnezia3_config \<Rightarrow> (string \<times> string) list" where
  "flag_pairs c =
     bool_pair ''random_trailers'' (a3_random_trailers c) (a3_random_trailers Amnezia3Config_default) @
     bool_pair ''disable_cookies'' (a3_disable_cookies c) (a3_disable_cookies Amnezia3Config_default)"

definition mtu_pairs :: "amnezia3_config \<Rightarrow> (string \<times> string) list" where
  "mtu_pairs c = (if a3_mtu c \<noteq> a3_mtu Amnezia3Config_default then [(''mtu'', fmt_u32 (a3_mtu c))] else [])"

definition uapi_pairs :: "amnezia3_config \<Rightarrow> (string \<times> string) list" where
  "uapi_pairs c =
     junk_pairs c @ padding_pairs c @ header_pairs c @ init_pairs c @ key_pairs c @ content_pairs c @
     timing_pairs c @ flag_pairs c @ mtu_pairs c"

definition fmt_pair :: "string \<times> string \<Rightarrow> string" where
  "fmt_pair kv = fst kv @ ''='' @ snd kv"

definition to_uapi_block :: "amnezia3_config \<Rightarrow> string" where
  "to_uapi_block c = concat (map (\<lambda>l. l @ [CHR 0x0A]) (map fmt_pair (uapi_pairs c)))"

section \<open>Lemmas: reading back printed lines\<close>

definition key_ok :: "string \<Rightarrow> bool" where
  "key_ok k \<longleftrightarrow> k \<noteq> [] \<and> list_all (\<lambda>c. graphic c \<and> c \<noteq> CHR ''='' \<and> c \<noteq> CHR ''#'' \<and> ascii_lower c = c) k"

lemma parse_config_line_pair:
  assumes "key_ok k" "line_safe v"
  shows "parse_config_line hexdec (fmt_pair (k, v)) st = set_field hexdec k v st"
proof -
  have k: "k \<noteq> []" "graphic (hd k)" "graphic (last k)" "hd k \<noteq> CHR ''#''" "CHR ''='' \<notin> set k"
    and lower: "to_ascii_lowercase k = k"
    using assms(1) by (auto simp: key_ok_def list_all_iff to_ascii_lowercase_def map_idI)
  have v: "v \<noteq> []" "graphic (hd v)" "graphic (last v)"
    using assms(2) by (simp_all add: line_safe_def)
  have "trim (fmt_pair (k, v)) = fmt_pair (k, v)"
    using k v by (intro trim_graphic) (simp add: fmt_pair_def)
  moreover have "split_once CHR ''='' (fmt_pair (k, v)) = Some (k, v)"
    using k by (simp add: fmt_pair_def split_once_append)
  moreover have "trim k = k" "trim v = v"
    using k v by (simp_all add: trim_graphic)
  ultimately show ?thesis
    using k lower by (simp add: parse_config_line_def fmt_pair_def)
qed

fun set_fields ::
  "(string \<Rightarrow> bytes option) \<Rightarrow> (string \<times> string) list \<Rightarrow> uapi_state \<Rightarrow> (ConfigError, uapi_state) fallible" where
  "set_fields hexdec [] st = Some (Ok st)"
| "set_fields hexdec ((k, v) # kvs) st = bind_res (set_field hexdec k v st) (set_fields hexdec kvs)"

lemma bind_res_assoc: "bind_res (bind_res m f) g = bind_res m (\<lambda>x. bind_res (f x) g)"
  by (simp add: bind_res_def split: option.splits sum.splits)

lemma set_fields_append:
  "set_fields hexdec (xs @ ys) st = bind_res (set_fields hexdec xs st) (set_fields hexdec ys)"
  by (induction hexdec xs st rule: set_fields.induct) (auto simp: bind_res_assoc intro: bind_res_cong)

definition pair_ok :: "string \<times> string \<Rightarrow> bool" where
  "pair_ok kv \<longleftrightarrow> key_ok (fst kv) \<and> line_safe (snd kv)"

lemma parse_config_lines_pairs:
  "list_all pair_ok kvs \<Longrightarrow> parse_config_lines hexdec (map fmt_pair kvs) st = set_fields hexdec kvs st"
  by (induction hexdec kvs st rule: set_fields.induct)
     (auto simp: pair_ok_def parse_config_line_pair intro: bind_res_cong)

lemma fmt_pair_line:
  assumes "pair_ok kv"
  shows "CHR 0x0A \<notin> set (fmt_pair kv) \<and> (fmt_pair kv = [] \<or> last (fmt_pair kv) \<noteq> CHR 0x0D)"
proof -
  have "\<forall>c \<in> set (fst kv). graphic c" and v: "snd kv \<noteq> []" "graphic (last (snd kv))" "CHR 0x0A \<notin> set (snd kv)"
    using assms by (auto simp: pair_ok_def key_ok_def line_safe_def list_all_iff)
  then have "CHR 0x0A \<notin> set (fst kv)"
    using graphic_neq(2) by blast
  then show ?thesis
    using v graphic_neq(14) [OF v(2)] by (simp add: fmt_pair_def)
qed

lemma rust_lines_pairs:
  "list_all pair_ok kvs \<Longrightarrow> rust_lines (concat (map (\<lambda>l. l @ [CHR 0x0A]) (map fmt_pair kvs))) = map fmt_pair kvs"
  by (rule rust_lines_concat) (auto simp: list_all_iff dest!: fmt_pair_line)

lemma set_field_simps:
  "set_field hexdec ''jc'' v st = put (parse_field_u16 ''jc'' v) (\<lambda>n. put_junk st ((a3_junk (us_config st))\<lparr>jc_count := n\<rparr>))"
  "set_field hexdec ''jmin'' v st = put (parse_field_u16 ''jmin'' v) (\<lambda>n. put_junk st ((a3_junk (us_config st))\<lparr>jc_min_size := n\<rparr>))"
  "set_field hexdec ''jmax'' v st = put (parse_field_u16 ''jmax'' v) (\<lambda>n. put_junk st ((a3_junk (us_config st))\<lparr>jc_max_size := n\<rparr>))"
  "set_field hexdec ''s1'' v st = put (parse_field_u16 ''s1'' v) (\<lambda>n. put_pad st ((a3_paddings (us_config st))\<lparr>pc_s1 := n\<rparr>))"
  "set_field hexdec ''s2'' v st = put (parse_field_u16 ''s2'' v) (\<lambda>n. put_pad st ((a3_paddings (us_config st))\<lparr>pc_s2 := n\<rparr>))"
  "set_field hexdec ''s3'' v st = put (parse_field_u16 ''s3'' v) (\<lambda>n. put_pad st ((a3_paddings (us_config st))\<lparr>pc_s3 := n\<rparr>))"
  "set_field hexdec ''s4'' v st = put (parse_field_u16 ''s4'' v) (\<lambda>n. put_pad st ((a3_paddings (us_config st))\<lparr>pc_s4 := n\<rparr>))"
  "set_field hexdec ''h1'' v st = put (HeaderRange_parse v) (\<lambda>h. put_header st ((us_headers st)\<lparr>hc_init := h\<rparr>))"
  "set_field hexdec ''h2'' v st = put (HeaderRange_parse v) (\<lambda>h. put_header st ((us_headers st)\<lparr>hc_response := h\<rparr>))"
  "set_field hexdec ''h3'' v st = put (HeaderRange_parse v) (\<lambda>h. put_header st ((us_headers st)\<lparr>hc_cookie := h\<rparr>))"
  "set_field hexdec ''h4'' v st = put (HeaderRange_parse v) (\<lambda>h. put_header st ((us_headers st)\<lparr>hc_transport := h\<rparr>))"
  "set_field hexdec ''i1'' v st = bind_res (CpsChain_parse v) (\<lambda>c. Some (Ok (put_init st ((a3_init_packets (us_config st))\<lparr>ip_i1 := Some c\<rparr>))))"
  "set_field hexdec ''i2'' v st = bind_res (CpsChain_parse v) (\<lambda>c. Some (Ok (put_init st ((a3_init_packets (us_config st))\<lparr>ip_i2 := Some c\<rparr>))))"
  "set_field hexdec ''i3'' v st = bind_res (CpsChain_parse v) (\<lambda>c. Some (Ok (put_init st ((a3_init_packets (us_config st))\<lparr>ip_i3 := Some c\<rparr>))))"
  "set_field hexdec ''i4'' v st = bind_res (CpsChain_parse v) (\<lambda>c. Some (Ok (put_init st ((a3_init_packets (us_config st))\<lparr>ip_i4 := Some c\<rparr>))))"
  "set_field hexdec ''i5'' v st = bind_res (CpsChain_parse v) (\<lambda>c. Some (Ok (put_init st ((a3_init_packets (us_config st))\<lparr>ip_i5 := Some c\<rparr>))))"
  "set_field hexdec ''rekey_after_time'' v st = put (U32Range_parse v) (\<lambda>ur. put_timing st ((a3_timing_ranges (us_config st))\<lparr>tr_rekey_after_time := ur\<rparr>))"
  "set_field hexdec ''rekey_timeout'' v st = put (U32Range_parse v) (\<lambda>ur. put_timing st ((a3_timing_ranges (us_config st))\<lparr>tr_rekey_timeout := ur\<rparr>))"
  "set_field hexdec ''reject_after_time'' v st = put (U32Range_parse v) (\<lambda>ur. put_timing st ((a3_timing_ranges (us_config st))\<lparr>tr_reject_after_time := ur\<rparr>))"
  "set_field hexdec ''keepalive_timeout'' v st = put (U32Range_parse v) (\<lambda>ur. put_timing st ((a3_timing_ranges (us_config st))\<lparr>tr_keepalive_timeout := ur\<rparr>))"
  "set_field hexdec ''max_handshake_attempts'' v st = put (U32Range_parse v) (\<lambda>ur. put_timing st ((a3_timing_ranges (us_config st))\<lparr>tr_max_handshake_attempts := ur\<rparr>))"
  "set_field hexdec ''persistent_keepalive_interval'' v st = put (U32Range_parse v) (\<lambda>ur. put_timing st ((a3_timing_ranges (us_config st))\<lparr>tr_persistent_keepalive := ur\<rparr>))"
  "set_field hexdec ''header_protection_key'' v st = put (parse_header_protection_key hexdec v) (\<lambda>k. st\<lparr>us_config := (us_config st)\<lparr>a3_header_protection_key := (if list_all (\<lambda>b. b = 0) k then None else Some k)\<rparr>\<rparr>)"
  "set_field hexdec ''content_padding_addition'' v st = put (U32Range_parse v) (\<lambda>ur. st\<lparr>us_config := (us_config st)\<lparr>a3_content_padding_addition := (if U32Range_is_zero ur then None else Some ur)\<rparr>\<rparr>)"
  "set_field hexdec ''random_trailers'' v st = put (parse_field_bool ''random_trailers'' v) (\<lambda>b. st\<lparr>us_config := (us_config st)\<lparr>a3_random_trailers := b\<rparr>\<rparr>)"
  "set_field hexdec ''disable_cookies'' v st = put (parse_field_bool ''disable_cookies'' v) (\<lambda>b. st\<lparr>us_config := (us_config st)\<lparr>a3_disable_cookies := b\<rparr>\<rparr>)"
  "set_field hexdec ''mtu'' v st = put (parse_field_u32 ''mtu'' v) (\<lambda>n. st\<lparr>us_config := (us_config st)\<lparr>a3_mtu := n\<rparr>\<rparr>)"
  by (simp_all add: set_field_def Let_def)

lemma put_Ok [simp]: "put (Inr v) f = Some (Ok (f v))"
  by (simp add: put_def)

section \<open>Lemmas: the round trip\<close>

definition hex_law :: "(string \<Rightarrow> bytes option) \<Rightarrow> bool" where
  "hex_law hexdec \<longleftrightarrow> (\<forall>bs. hexdec (fmt_hex bs) = Some bs)"

definition chain_ok :: "cps_chain option \<Rightarrow> bool" where
  "chain_ok c \<longleftrightarrow> (case c of None \<Rightarrow> True | Some tags \<Rightarrow> cps_wf tags)"

text \<open>
  The configurations the round trip is about: built by the constructors, with the two
  \<open>Option\<close> fields never holding the value that stands for unset.
\<close>

definition a3_wf :: "amnezia3_config \<Rightarrow> bool" where
  "a3_wf c \<longleftrightarrow>
     hc_wf (a3_headers c) \<and> list_all chain_ok (InitPacketConfig_chains (a3_init_packets c)) \<and>
     (case a3_header_protection_key c of
        None \<Rightarrow> True | Some k \<Rightarrow> length k = 32 \<and> \<not> list_all (\<lambda>b. b = 0) k) \<and>
     (case a3_content_padding_addition c of None \<Rightarrow> True | Some ur \<Rightarrow> \<not> U32Range_is_zero ur)"

lemma parse_field_fmt [simp]:
  "parse_field_u16 f (fmt_u16 w) = Ok w" "parse_field_u32 f (fmt_u32 d) = Ok d"
  by (simp_all add: parse_field_u16_def parse_field_u32_def)

lemma set_junk_pairs:
  "a3_junk (us_config st) = JunkConfig_disabled \<Longrightarrow>
   set_fields hexdec (junk_pairs c) st = Some (Ok (put_junk st (a3_junk c)))"
  by (simp add: junk_pairs_def set_field_simps put_junk_def Amnezia3Config_default_def JunkConfig_disabled_def)

lemma set_padding_pairs:
  "a3_paddings (us_config st) = PaddingConfig_default \<Longrightarrow>
   set_fields hexdec (padding_pairs c) st = Some (Ok (put_pad st (a3_paddings c)))"
  by (simp add: padding_pairs_def u16_pair_def set_field_simps put_pad_def Amnezia3Config_default_def
        PaddingConfig_default_def Let_def)

lemma set_header_pairs:
  assumes "us_headers st = HeaderConfig_wireguard_compatible" "hc_wf (a3_headers c)"
  shows "set_fields hexdec (header_pairs c) st =
           Some (Ok (if a3_headers c = HeaderConfig_wireguard_compatible then st
                     else put_header st (a3_headers c)))"
  using assms
  by (simp add: header_pairs_def set_field_simps put_header_def Amnezia3Config_default_def hc_wf_def pp_header.parse_fmt)

lemma set_chain_pair:
  assumes "chain_ok ch"
  shows "set_fields hexdec (chain_pair ''i1'' ch) st =
           Some (Ok (if ch = None then st else put_init st ((a3_init_packets (us_config st))\<lparr>ip_i1 := ch\<rparr>)))"
    and "set_fields hexdec (chain_pair ''i2'' ch) st =
           Some (Ok (if ch = None then st else put_init st ((a3_init_packets (us_config st))\<lparr>ip_i2 := ch\<rparr>)))"
    and "set_fields hexdec (chain_pair ''i3'' ch) st =
           Some (Ok (if ch = None then st else put_init st ((a3_init_packets (us_config st))\<lparr>ip_i3 := ch\<rparr>)))"
    and "set_fields hexdec (chain_pair ''i4'' ch) st =
           Some (Ok (if ch = None then st else put_init st ((a3_init_packets (us_config st))\<lparr>ip_i4 := ch\<rparr>)))"
    and "set_fields hexdec (chain_pair ''i5'' ch) st =
           Some (Ok (if ch = None then st else put_init st ((a3_init_packets (us_config st))\<lparr>ip_i5 := ch\<rparr>)))"
  using assms
  by (cases ch; simp add: chain_pair_def chain_ok_def set_field_simps CpsChain_parse_fmt)+

lemma set_init_pairs:
  assumes "a3_init_packets (us_config st) = InitPacketConfig_default"
    and "list_all chain_ok (InitPacketConfig_chains (a3_init_packets c))"
  shows "set_fields hexdec (init_pairs c) st = Some (Ok (put_init st (a3_init_packets c)))"
  using assms
  by (simp add: init_pairs_def set_fields_append set_chain_pair InitPacketConfig_chains_def Let_def)
     (simp add: put_init_def InitPacketConfig_default_def)

lemma set_key_pairs:
  assumes "a3_header_protection_key (us_config st) = None" "hex_law hexdec"
    and "case a3_header_protection_key c of None \<Rightarrow> True | Some k \<Rightarrow> length k = 32 \<and> \<not> list_all (\<lambda>b. b = 0) k"
  shows "set_fields hexdec (key_pairs c) st =
           Some (Ok (st\<lparr>us_config := (us_config st)\<lparr>a3_header_protection_key := a3_header_protection_key c\<rparr>\<rparr>))"
proof (cases "a3_header_protection_key c")
  case None
  then show ?thesis
    using assms(1) by (simp add: key_pairs_def)
next
  case (Some k)
  then have "parse_header_protection_key hexdec (concat (map fmt_hex2 k)) = Ok k"
    using assms(2,3) by (simp add: parse_header_protection_key_def hex_law_def fmt_hex_def)
  then show ?thesis
    using Some assms(3) by (simp add: key_pairs_def set_field_simps)
qed

lemma set_content_pairs:
  assumes "a3_content_padding_addition (us_config st) = None"
    and "case a3_content_padding_addition c of None \<Rightarrow> True | Some ur \<Rightarrow> \<not> U32Range_is_zero ur \<and> ur_wf ur"
  shows "set_fields hexdec (content_pairs c) st =
           Some (Ok (st\<lparr>us_config := (us_config st)\<lparr>a3_content_padding_addition := a3_content_padding_addition c\<rparr>\<rparr>))"
  using assms
  by (cases "a3_content_padding_addition c") (simp_all add: content_pairs_def set_field_simps pp_range.parse_fmt)

lemma U32Range_is_zero_iff: "U32Range_is_zero ur \<longleftrightarrow> ur = U32Range_zero"
  by (cases ur) (simp add: U32Range_is_zero_def U32Range_zero_def)

lemma set_timing_pairs:
  assumes "a3_timing_ranges (us_config st) = TimingRanges_default" "tr_wf (a3_timing_ranges c)"
  shows "set_fields hexdec (timing_pairs c) st = Some (Ok (put_timing st (a3_timing_ranges c)))"
proof -
  have *: "set_fields hexdec (range_pair ''rekey_after_time'' ur) st' =
           Some (Ok (if ur = U32Range_zero then st' else put_timing st' ((a3_timing_ranges (us_config st'))\<lparr>tr_rekey_after_time := ur\<rparr>)))"
    "set_fields hexdec (range_pair ''rekey_timeout'' ur) st' =
           Some (Ok (if ur = U32Range_zero then st' else put_timing st' ((a3_timing_ranges (us_config st'))\<lparr>tr_rekey_timeout := ur\<rparr>)))"
    "set_fields hexdec (range_pair ''reject_after_time'' ur) st' =
           Some (Ok (if ur = U32Range_zero then st' else put_timing st' ((a3_timing_ranges (us_config st'))\<lparr>tr_reject_after_time := ur\<rparr>)))"
    "set_fields hexdec (range_pair ''keepalive_timeout'' ur) st' =
           Some (Ok (if ur = U32Range_zero then st' else put_timing st' ((a3_timing_ranges (us_config st'))\<lparr>tr_keepalive_timeout := ur\<rparr>)))"
    "set_fields hexdec (range_pair ''max_handshake_attempts'' ur) st' =
           Some (Ok (if ur = U32Range_zero then st' else put_timing st' ((a3_timing_ranges (us_config st'))\<lparr>tr_max_handshake_attempts := ur\<rparr>)))"
    "set_fields hexdec (range_pair ''persistent_keepalive_interval'' ur) st' =
           Some (Ok (if ur = U32Range_zero then st' else put_timing st' ((a3_timing_ranges (us_config st'))\<lparr>tr_persistent_keepalive := ur\<rparr>)))"
    if "ur_wf ur" for ur st'
    using that by (simp_all add: range_pair_def U32Range_is_zero_iff set_field_simps pp_range.parse_fmt)
  show ?thesis
    using assms
    by (simp add: timing_pairs_def set_fields_append * tr_wf_def Let_def)
       (simp add: put_timing_def TimingRanges_default_def)
qed

lemma set_flag_pairs:
  assumes "\<not> a3_random_trailers (us_config st)" "\<not> a3_disable_cookies (us_config st)"
  shows "set_fields hexdec (flag_pairs c) st =
           Some (Ok (st\<lparr>us_config := (us_config st)\<lparr>a3_random_trailers := a3_random_trailers c,
                                                 a3_disable_cookies := a3_disable_cookies c\<rparr>\<rparr>))"
  using assms
  by (cases st; cases "us_config st")
     (simp add: flag_pairs_def bool_pair_def set_field_simps parse_field_bool_def Amnezia3Config_default_def)

lemma set_mtu_pairs:
  assumes "a3_mtu (us_config st) = AWG3_DEFAULT_MTU"
  shows "set_fields hexdec (mtu_pairs c) st = Some (Ok (st\<lparr>us_config := (us_config st)\<lparr>a3_mtu := a3_mtu c\<rparr>\<rparr>))"
  using assms by (simp add: mtu_pairs_def set_field_simps Amnezia3Config_default_def)

lemma key_ok_keys [simp]:
  "key_ok ''jc''"
  "key_ok ''jmin''"
  "key_ok ''jmax''"
  "key_ok ''s1''"
  "key_ok ''s2''"
  "key_ok ''s3''"
  "key_ok ''s4''"
  "key_ok ''h1''"
  "key_ok ''h2''"
  "key_ok ''h3''"
  "key_ok ''h4''"
  "key_ok ''i1''"
  "key_ok ''i2''"
  "key_ok ''i3''"
  "key_ok ''i4''"
  "key_ok ''i5''"
  "key_ok ''header_protection_key''"
  "key_ok ''content_padding_addition''"
  "key_ok ''rekey_after_time''"
  "key_ok ''rekey_timeout''"
  "key_ok ''reject_after_time''"
  "key_ok ''keepalive_timeout''"
  "key_ok ''max_handshake_attempts''"
  "key_ok ''persistent_keepalive_interval''"
  "key_ok ''random_trailers''"
  "key_ok ''disable_cookies''"
  "key_ok ''mtu''"
  by (simp_all add: key_ok_def graphic_def ascii_lower_def)

lemma line_safe_values [simp]:
  "line_safe (fmt_dec n)" "line_safe ''1''" "line_safe ''0''"
  by (simp_all add: line_safe_def fmt_dec_notin) (simp add: graphic_def)

lemma line_safe_hex: "k \<noteq> [] \<Longrightarrow> line_safe (concat (map fmt_hex2 k))"
proof -
  assume "k \<noteq> []"
  then have "fmt_hex k \<noteq> []"
    using length_fmt_hex [of k] by force
  then show ?thesis
    using graphic_ends_fmt_hex [of k] fmt_hex_notin [of "CHR 0x0A" k] by (simp add: line_safe_def fmt_hex_def)
qed

text \<open>The hypotheses of the round trip, in the form the segments use.\<close>

definition a3_printable :: "amnezia3_config \<Rightarrow> bool" where
  "a3_printable c \<longleftrightarrow>
     hc_wf (a3_headers c) \<and> list_all chain_ok (InitPacketConfig_chains (a3_init_packets c)) \<and>
     (case a3_header_protection_key c of
        None \<Rightarrow> True | Some k \<Rightarrow> length k = 32 \<and> \<not> list_all (\<lambda>b. b = 0) k) \<and>
     (case a3_content_padding_addition c of None \<Rightarrow> True | Some ur \<Rightarrow> \<not> U32Range_is_zero ur \<and> ur_wf ur) \<and>
     tr_wf (a3_timing_ranges c)"

lemma a3_wf_printable: "a3_wf c \<Longrightarrow> Amnezia3Config_validate c = Ok () \<Longrightarrow> a3_printable c"
  by (auto simp: a3_wf_def a3_printable_def Amnezia3Config_validate_def and_then_eq_Inr TimingRanges_validate_iff
        split: option.splits)

lemma chain_pair_ok: "key_ok k \<Longrightarrow> chain_ok ch \<Longrightarrow> list_all pair_ok (chain_pair k ch)"
  by (cases ch) (simp_all add: chain_pair_def chain_ok_def pair_ok_def fmt_CpsChain_safe)

lemma range_pair_ok: "key_ok k \<Longrightarrow> ur_wf ur \<Longrightarrow> list_all pair_ok (range_pair k ur)"
  by (simp add: range_pair_def pair_ok_def pp_range.fmt_safe)

lemma uapi_pairs_ok:
  assumes "a3_printable c"
  shows "list_all pair_ok (uapi_pairs c)"
proof -
  note c = assms [unfolded a3_printable_def]
  have "list_all pair_ok (junk_pairs c)" "list_all pair_ok (padding_pairs c)" "list_all pair_ok (flag_pairs c)"
      "list_all pair_ok (mtu_pairs c)"
    by (simp_all add: junk_pairs_def padding_pairs_def u16_pair_def flag_pairs_def bool_pair_def mtu_pairs_def
          pair_ok_def Let_def)
  moreover have "list_all pair_ok (header_pairs c)"
    using c by (simp add: header_pairs_def pair_ok_def hc_wf_def pp_header.fmt_safe)
  moreover have "list_all pair_ok (init_pairs c)"
    using c by (simp add: init_pairs_def chain_pair_ok InitPacketConfig_chains_def Let_def)
  moreover have "list_all pair_ok (timing_pairs c)"
    using c by (simp add: timing_pairs_def range_pair_ok tr_wf_def Let_def)
  moreover have "list_all pair_ok (key_pairs c)"
    using c by (cases "a3_header_protection_key c") (auto simp: key_pairs_def pair_ok_def intro!: line_safe_hex)
  moreover have "list_all pair_ok (content_pairs c)"
    using c by (auto simp: content_pairs_def pair_ok_def pp_range.fmt_safe split: option.splits)
  ultimately show ?thesis
    by (simp add: uapi_pairs_def)
qed

lemma set_uapi_pairs:
  assumes "a3_printable c" "hex_law hexdec"
  shows "set_fields hexdec (uapi_pairs c)
           \<lparr>us_config = Amnezia3Config_default, us_headers = HeaderConfig_wireguard_compatible, us_saw_header = False\<rparr> =
         Some (Ok (if a3_headers c = HeaderConfig_wireguard_compatible
                   then \<lparr>us_config = c, us_headers = HeaderConfig_wireguard_compatible, us_saw_header = False\<rparr>
                   else \<lparr>us_config = c\<lparr>a3_headers := HeaderConfig_wireguard_compatible\<rparr>,
                         us_headers = a3_headers c, us_saw_header = True\<rparr>))"
proof -
  note c = assms(1) [unfolded a3_printable_def]
  note segs = set_junk_pairs set_padding_pairs set_header_pairs set_init_pairs set_key_pairs [OF _ assms(2)]
    set_content_pairs set_timing_pairs set_flag_pairs set_mtu_pairs
  show ?thesis
    using c
    by (cases c) (simp add: uapi_pairs_def set_fields_append segs Amnezia3Config_default_def
        put_junk_def put_pad_def put_header_def put_init_def put_timing_def)
qed

lemma uapi_parse_pairs:
  assumes "list_all pair_ok (uapi_pairs c)"
  shows "Amnezia3Config_parse hexdec (to_uapi_block c) =
           bind_res (set_fields hexdec (uapi_pairs c)
              \<lparr>us_config = Amnezia3Config_default, us_headers = HeaderConfig_wireguard_compatible,
               us_saw_header = False\<rparr>) finish_config"
  using assms
  by (simp only: Amnezia3Config_parse_def to_uapi_block_def rust_lines_pairs parse_config_lines_pairs)

lemma uapi_parse_block:
  assumes "a3_wf c" "Amnezia3Config_validate c = Ok ()" "hex_law hexdec"
  shows "Amnezia3Config_parse hexdec (to_uapi_block c) = Some (Ok c)"
proof -
  have pr: "a3_printable c"
    using a3_wf_printable [OF assms(1,2)] .
  have h: "HeaderConfig_validate_no_overlap (a3_headers c) = Ok ()"
    using assms(2) by (auto simp: Amnezia3Config_validate_def HeaderConfig_validate_def and_then_eq_Inr)
  have "HeaderConfig_new (hc_init (a3_headers c)) (hc_response (a3_headers c))
      (hc_cookie (a3_headers c)) (hc_transport (a3_headers c)) = Ok (a3_headers c)"
    using h by (cases "a3_headers c") (simp add: HeaderConfig_new_def)
  then show ?thesis
    using set_uapi_pairs [OF pr assms(3)] uapi_parse_pairs [OF uapi_pairs_ok [OF pr]] assms(2)
    by (cases "a3_headers c = HeaderConfig_wireguard_compatible") (simp_all add: finish_config_def)
qed

section \<open>Lemmas: what a parsed configuration satisfies\<close>

lemma check_min_padding_iff:
  "check_min_padding ps = Ok () \<longleftrightarrow> list_all (\<lambda>(f, v). HEADER_PROTECTION_MIN_PADDING \<le> v) ps"
  by (induction ps rule: check_min_padding.induct) auto

text \<open>What the components that use a configuration rely on.\<close>

definition a3_valid :: "amnezia3_config \<Rightarrow> bool" where
  "a3_valid c \<longleftrightarrow>
     first_overlap (HeaderConfig_entries (a3_headers c)) = None \<and> tr_wf (a3_timing_ranges c) \<and>
     (case a3_content_padding_addition c of None \<Rightarrow> True | Some ur \<Rightarrow> ur_wf ur) \<and>
     (jc_count (a3_junk c) \<noteq> 0 \<longrightarrow> jc_min_size (a3_junk c) \<le> jc_max_size (a3_junk c)) \<and>
     (a3_header_protection_key c \<noteq> None \<longrightarrow>
        12 \<le> unat (pc_s1 (a3_paddings c)) \<and> 12 \<le> unat (pc_s2 (a3_paddings c)) \<and>
        12 \<le> unat (pc_s3 (a3_paddings c)) \<and> 12 \<le> unat (pc_s4 (a3_paddings c)))"

lemma JunkConfig_validate_iff:
  "JunkConfig_validate j = Ok () \<longleftrightarrow> (jc_count j \<noteq> 0 \<longrightarrow> jc_min_size j \<le> jc_max_size j)"
  by (auto simp: JunkConfig_validate_def)

lemma HeaderConfig_validate_iff:
  "HeaderConfig_validate h = Ok () \<longleftrightarrow> first_overlap (HeaderConfig_entries h) = None"
  by (auto simp: HeaderConfig_validate_def HeaderConfig_validate_no_overlap_def split: option.splits)

lemma min_padding_iff: "HEADER_PROTECTION_MIN_PADDING \<le> v \<longleftrightarrow> 12 \<le> unat v"
  by (simp add: HEADER_PROTECTION_MIN_PADDING_def word_le_nat_alt)

lemma Amnezia3Config_validate_iff: "Amnezia3Config_validate c = Ok () \<longleftrightarrow> a3_valid c"
  by (cases "a3_content_padding_addition c"; cases "a3_header_protection_key c")
     (auto simp: Amnezia3Config_validate_def a3_valid_def and_then_eq_Inr JunkConfig_validate_iff
        PaddingConfig_validate_def InitPacketConfig_validate_def HeaderConfig_validate_iff
        TimingRanges_validate_iff check_min_padding_iff min_padding_iff simp del: check_min_padding.simps)

lemma Amnezia3Config_parse_valid: "Amnezia3Config_parse hexdec s = Some (Ok c) \<Longrightarrow> a3_valid c"
  by (auto simp: Amnezia3Config_parse_def finish_config_def bind_res_eq_Inr Amnezia3Config_validate_iff)

section \<open>Properties\<close>

text \<open>
  C25. \<open>parse(&cfg.to_uapi_block()) == cfg\<close> for every configuration that passes \<open>validate\<close>,
  whose header ranges and chains were built by their constructors, and whose optional fields do
  not hold the value that stands for unset (a header protection key of 32 zero bytes, a content
  padding range of 0 to 0): the block lists only the fields that differ from the default, and
  parsing it restores all of them.
\<close>

theorem uapi_block_roundtrip:
  assumes "a3_wf c" and "Amnezia3Config_validate c = Ok ()" and "hex_law hexdec"
  shows "Amnezia3Config_parse hexdec (to_uapi_block c) = Some (Ok c)"
  by (rule uapi_parse_block [OF assms])

definition sample_config :: amnezia3_config where
  "sample_config = Amnezia3Config_default
     \<lparr>a3_junk := \<lparr>jc_count = 3, jc_min_size = 10, jc_max_size = 50\<rparr>,
      a3_paddings := \<lparr>pc_s1 = 15, pc_s2 = 16, pc_s3 = 17, pc_s4 = 18\<rparr>,
      a3_headers := \<lparr>hc_init = \<lparr>hr_start = 100, hr_end = 200\<rparr>, hc_response = HeaderRange_single 7,
                     hc_cookie = HeaderRange_single 8, hc_transport = \<lparr>hr_start = 300, hr_end = 400\<rparr>\<rparr>,
      a3_init_packets := InitPacketConfig_default\<lparr>ip_i1 := Some [Bytes [1], RandomBytes 20]\<rparr>,
      a3_header_protection_key := Some (replicate 32 5),
      a3_content_padding_addition := Some \<lparr>ur_lo = 0, ur_hi = 9\<rparr>, a3_mtu := 1280\<rparr>"

text \<open>A decoder that inverts lower-case hex, for the witnesses.\<close>

definition sample_hexdec :: "string \<Rightarrow> bytes option" where
  "sample_hexdec s = (case hex_pairs s of Some (Inr bs) \<Rightarrow> Some bs | _ \<Rightarrow> None)"

lemma sample_hexdec_law: "hex_law sample_hexdec"
  by (simp add: hex_law_def sample_hexdec_def hex_pairs_fmt_hex)

theorem uapi_block_roundtrip_witness:
  "Amnezia3Config_parse sample_hexdec (to_uapi_block sample_config) = Some (Ok sample_config)"
proof (rule uapi_block_roundtrip)
  show "a3_wf sample_config"
    by code_simp
  show "Amnezia3Config_validate sample_config = Ok ()"
    by code_simp
qed (rule sample_hexdec_law)

text \<open>
  A configuration that parses is valid: header ranges pairwise non-overlapping, every range
  ordered, junk sizes ordered, and, when a header protection key is set, all four paddings long
  enough to hold the 12-byte nonce.
\<close>

theorem uapi_parse_valid:
  assumes "Amnezia3Config_parse hexdec s = Some (Ok c)"
  shows "a3_valid c"
  by (rule Amnezia3Config_parse_valid [OF assms])

theorem uapi_parse_valid_witness:
  "a3_valid (Amnezia3Config_default\<lparr>a3_mtu := 1280, a3_junk := \<lparr>jc_count = 2, jc_min_size = 5, jc_max_size = 8\<rparr>\<rparr>)"
proof (rule uapi_parse_valid)
  show "Amnezia3Config_parse (\<lambda>_. None) (''Jc=2'' @ [CHR 0x0A] @ ''# note'' @ [CHR 0x0A] @ '' jmin = 5'' @ [CHR 0x0A] @
          ''jmax=8'' @ [CHR 0x0D, CHR 0x0A] @ ''mtu=1280'') =
        Some (Ok (Amnezia3Config_default\<lparr>a3_mtu := 1280,
          a3_junk := \<lparr>jc_count = 2, jc_min_size = 5, jc_max_size = 8\<rparr>\<rparr>))"
    by code_simp
qed

text \<open>
  C35. Setting an unset-valued option is lost in the round trip: a configuration whose header
  protection key is the all-zero key passes \<open>validate\<close>, but its block parses back without a key.
\<close>

theorem uapi_zero_key_not_preserved:
  assumes "hex_law hexdec" and "c = Amnezia3Config_default\<lparr>a3_header_protection_key := Some (replicate 32 0),
     a3_paddings := \<lparr>pc_s1 = 12, pc_s2 = 12, pc_s3 = 12, pc_s4 = 12\<rparr>\<rparr>"
  shows "Amnezia3Config_validate c = Ok () \<and>
         Amnezia3Config_parse hexdec (to_uapi_block c) = Some (Ok (c\<lparr>a3_header_protection_key := None\<rparr>))"
proof
  let ?d = "c\<lparr>a3_header_protection_key := None\<rparr>"
  show "Amnezia3Config_validate c = Ok ()"
    unfolding assms(2) by code_simp
  have pad: "set_fields hexdec (padding_pairs c) st = Some (Ok (put_pad st (a3_paddings c)))"
    if "a3_paddings (us_config st) = PaddingConfig_default" for st
    using that by (rule set_padding_pairs)
  have ok: "list_all pair_ok (padding_pairs c @ key_pairs c)"
    using line_safe_hex [of "replicate 32 0"]
    by (simp add: padding_pairs_def u16_pair_def key_pairs_def pair_ok_def assms(2) Let_def)
  have pairs: "uapi_pairs c = padding_pairs c @ key_pairs c"
    by (simp add: uapi_pairs_def junk_pairs_def header_pairs_def init_pairs_def content_pairs_def timing_pairs_def
          flag_pairs_def mtu_pairs_def chain_pair_def range_pair_def bool_pair_def assms(2) Let_def
          Amnezia3Config_default_def InitPacketConfig_default_def TimingRanges_default_def U32Range_zero_def
          U32Range_is_zero_def)
  have "parse_header_protection_key hexdec (concat (map fmt_hex2 (replicate 32 0))) = Ok (replicate 32 0)"
    using assms(1) by (simp add: parse_header_protection_key_def hex_law_def fmt_hex_def del: map_replicate)
  then have key: "set_fields hexdec (key_pairs c) st =
      Some (Ok (st\<lparr>us_config := (us_config st)\<lparr>a3_header_protection_key := None\<rparr>\<rparr>))" for st
    by (simp add: key_pairs_def assms(2) set_field_simps list_all_iff del: map_replicate)
  have "Amnezia3Config_validate ?d = Ok ()"
    unfolding assms(2) by code_simp
  then show "Amnezia3Config_parse hexdec (to_uapi_block c) = Some (Ok ?d)"
    using uapi_parse_pairs [OF ok [folded pairs]]
    by (simp add: pairs set_fields_append pad key put_pad_def finish_config_def Amnezia3Config_default_def)
       (simp add: assms(2) Amnezia3Config_default_def)
qed

theorem uapi_zero_key_not_preserved_witness:
  "Amnezia3Config_parse sample_hexdec (to_uapi_block (Amnezia3Config_default
       \<lparr>a3_header_protection_key := Some (replicate 32 0), a3_paddings := \<lparr>pc_s1 = 12, pc_s2 = 12, pc_s3 = 12, pc_s4 = 12\<rparr>\<rparr>)) =
   Some (Ok (Amnezia3Config_default\<lparr>a3_paddings := \<lparr>pc_s1 = 12, pc_s2 = 12, pc_s3 = 12, pc_s4 = 12\<rparr>\<rparr>))"
  using uapi_zero_key_not_preserved [OF sample_hexdec_law refl] by (simp add: Amnezia3Config_default_def)

end
