(* ===== verification/Packets.thy ===== *)
theory Packets
  imports AmneziaUapi
begin

text \<open>
  From a datagram to a message: the error type of \<open>src/awgtun/src/noise/errors.rs\<close>, header
  protection (\<open>src/awgtun/src/amnezia.rs\<close>), and from \<open>src/awgtun/src/noise/mod.rs\<close> the
  classifier of inbound datagrams, the parser of the four messages and the destination of an
  IP packet. ChaCha20 is the parameter \<open>ks\<close>: the keystream byte of a key and nonce at a
  position. The lemmas say what a receiver recovers from what a sender put on the wire.
\<close>

section \<open>WireGuardError\<close>

datatype WireGuardError =
    DestinationBufferTooSmall
  | IncorrectPacketLength
  | UnexpectedPacket
  | WrongPacketType
  | WrongIndex
  | WrongKey
  | InvalidTai64nTimestamp
  | WrongTai64nTimestamp
  | InvalidMac
  | InvalidAeadTag
  | InvalidCounter
  | DuplicateCounter
  | InvalidPacket
  | NoCurrentSession
  | LockFailed
  | ConnectionExpired
  | UnderLoad

section \<open>HeaderProtection\<close>

definition HEADER_PROTECTION_KEY_SIZE :: nat where
  "HEADER_PROTECTION_KEY_SIZE = 32"

definition HEADER_PROTECTION_NONCE_SIZE :: nat where
  "HEADER_PROTECTION_NONCE_SIZE = 12"

text \<open>The XOR with the keystream, for a prefix known to hold a nonce.\<close>

definition hp_xor :: "keystream \<Rightarrow> bytes \<Rightarrow> bytes \<Rightarrow> bytes \<Rightarrow> bytes" where
  "hp_xor ks key prefix msg =
     xor_prefix msg (map (ks key (take HEADER_PROTECTION_NONCE_SIZE prefix)) [0..<length msg])"

definition HeaderProtection_apply :: "keystream \<Rightarrow> bytes \<Rightarrow> bytes \<Rightarrow> bytes \<Rightarrow> bytes option" where
  "HeaderProtection_apply ks key prefix msg =
     (if length prefix < HEADER_PROTECTION_NONCE_SIZE then None else Some (hp_xor ks key prefix msg))"

definition HeaderProtection_peek_type :: "keystream \<Rightarrow> bytes \<Rightarrow> bytes \<Rightarrow> bytes \<Rightarrow> u32 option" where
  "HeaderProtection_peek_type ks key prefix type_bytes =
     map_option of_le_bytes (HeaderProtection_apply ks key prefix type_bytes)"

definition HeaderProtection_keystream :: "keystream \<Rightarrow> bytes \<Rightarrow> nat \<Rightarrow> bytes \<Rightarrow> bytes option" where
  "HeaderProtection_keystream ks key n prefix = HeaderProtection_apply ks key prefix (replicate n 0)"

definition HeaderProtection_type_mask :: "keystream \<Rightarrow> bytes \<Rightarrow> bytes \<Rightarrow> bytes option" where
  "HeaderProtection_type_mask ks key prefix = HeaderProtection_keystream ks key 4 prefix"

section \<open>PacketClassifier\<close>

definition HANDSHAKE_INIT_SZ :: nat where "HANDSHAKE_INIT_SZ = 148"
definition HANDSHAKE_RESP_SZ :: nat where "HANDSHAKE_RESP_SZ = 92"
definition COOKIE_REPLY_SZ :: nat where "COOKIE_REPLY_SZ = 64"
definition DATA_OVERHEAD_SZ :: nat where "DATA_OVERHEAD_SZ = 32"
definition TRANSPORT_HEADER_SZ :: nat where "TRANSPORT_HEADER_SZ = 16"

lemmas message_sizes = HANDSHAKE_INIT_SZ_def HANDSHAKE_RESP_SZ_def COOKIE_REPLY_SZ_def DATA_OVERHEAD_SZ_def
  TRANSPORT_HEADER_SZ_def HEADER_PROTECTION_NONCE_SIZE_def

record packet_classifier =
  cl_paddings :: padding_config
  cl_headers :: header_config
  cl_header_protection :: "bytes option"
  cl_random_trailers :: bool

definition PacketClassifier_new :: "padding_config \<Rightarrow> header_config \<Rightarrow> bytes option \<Rightarrow> packet_classifier" where
  "PacketClassifier_new p h hp =
     \<lparr>cl_paddings = p, cl_headers = h, cl_header_protection = hp, cl_random_trailers = False\<rparr>"

definition with_random_trailers :: "bool \<Rightarrow> packet_classifier \<Rightarrow> packet_classifier" where
  "with_random_trailers b cl = cl\<lparr>cl_random_trailers := b\<rparr>"

definition PacketClassifier_from_config :: "amnezia3_config \<Rightarrow> packet_classifier" where
  "PacketClassifier_from_config c =
     with_random_trailers (a3_random_trailers c)
       (PacketClassifier_new (a3_paddings c) (a3_headers c) (a3_header_protection_key c))"

record classified =
  cd_padding :: nat
  cd_protected_len :: nat
  cd_header_mask :: "bytes option"
  cd_msg_size :: "nat option"

text \<open>A candidate: padding, header range, expected size, and whether the size is exact.\<close>

type_synonym candidate = "nat \<times> header_range \<times> nat \<times> bool"

definition classify_checks :: "packet_classifier \<Rightarrow> candidate list" where
  "classify_checks cl =
     (let init = (unat (pc_s1 (cl_paddings cl)), hc_init (cl_headers cl), HANDSHAKE_INIT_SZ, True);
          response = (unat (pc_s2 (cl_paddings cl)), hc_response (cl_headers cl), HANDSHAKE_RESP_SZ, True);
          cookie = (unat (pc_s3 (cl_paddings cl)), hc_cookie (cl_headers cl), COOKIE_REPLY_SZ, True);
          transport = (unat (pc_s4 (cl_paddings cl)), hc_transport (cl_headers cl), DATA_OVERHEAD_SZ, False)
      in if cl_random_trailers cl then [transport, init, response, cookie]
         else [init, response, cookie, transport])"

definition classify_mask :: "keystream \<Rightarrow> packet_classifier \<Rightarrow> bytes \<Rightarrow> bytes option" where
  "classify_mask ks cl src =
     (case cl_header_protection cl of
        Some key \<Rightarrow> if length src \<ge> HEADER_PROTECTION_NONCE_SIZE
                    then HeaderProtection_keystream ks key TRANSPORT_HEADER_SZ src else None
      | None \<Rightarrow> None)"

definition candidate_type :: "bytes option \<Rightarrow> bytes \<Rightarrow> nat \<Rightarrow> u32" where
  "candidate_type header_mask src padding =
     (let type_bytes = slice src padding (padding + 4)
      in of_le_bytes (case header_mask of Some m \<Rightarrow> xor_prefix type_bytes m | None \<Rightarrow> type_bytes))"

definition candidate_matches :: "bool \<Rightarrow> bytes option \<Rightarrow> bytes \<Rightarrow> candidate \<Rightarrow> bool" where
  "candidate_matches trailers header_mask src = (\<lambda>(padding, hr, expected_size, exact).
     (if exact \<and> \<not> trailers then length src = padding + expected_size
      else length src \<ge> padding + expected_size) \<and>
     padding + 4 \<le> length src \<and>
     HeaderRange_contains hr (candidate_type header_mask src padding))"

definition classified_of :: "bytes option \<Rightarrow> candidate \<Rightarrow> classified" where
  "classified_of header_mask = (\<lambda>(padding, hr, expected_size, exact).
     \<lparr>cd_padding = padding,
      cd_protected_len = (if exact then expected_size else TRANSPORT_HEADER_SZ),
      cd_header_mask = header_mask,
      cd_msg_size = (if exact then Some expected_size else None)\<rparr>)"

definition classify :: "keystream \<Rightarrow> packet_classifier \<Rightarrow> bytes \<Rightarrow> classified option" where
  "classify ks cl src =
     (let header_mask = classify_mask ks cl src
      in map_option (classified_of header_mask)
           (find (candidate_matches (cl_random_trailers cl) header_mask src) (classify_checks cl)))"

section \<open>Messages\<close>

record handshake_init =
  hi_sender_idx :: u32
  hi_unencrypted_ephemeral :: bytes
  hi_encrypted_static :: bytes
  hi_encrypted_timestamp :: bytes

record handshake_response =
  hp_sender_idx :: u32
  hp_receiver_idx :: u32
  hp_unencrypted_ephemeral :: bytes
  hp_encrypted_nothing :: bytes

record packet_cookie_reply =
  pcr_receiver_idx :: u32
  pcr_nonce :: bytes
  pcr_encrypted_cookie :: bytes

record packet_data =
  pd_receiver_idx :: u32
  pd_counter :: u64
  pd_encrypted_encapsulated_packet :: bytes

datatype Packet =
    HandshakeInit handshake_init
  | HandshakeResponse handshake_response
  | PacketCookieReply packet_cookie_reply
  | PacketData packet_data

definition parse_incoming_packet_config :: "bytes \<Rightarrow> header_config \<Rightarrow> WireGuardError + Packet" where
  "parse_incoming_packet_config src hc =
     (if length src < 4 then Err InvalidPacket
      else let packet_type = of_le_bytes (slice src 0 4) in
        if HeaderRange_contains (hc_init hc) packet_type \<and> length src = HANDSHAKE_INIT_SZ then
          Ok (HandshakeInit
            \<lparr>hi_sender_idx = of_le_bytes (slice src 4 8),
             hi_unencrypted_ephemeral = slice src 8 40,
             hi_encrypted_static = slice src 40 88,
             hi_encrypted_timestamp = slice src 88 116\<rparr>)
        else if HeaderRange_contains (hc_response hc) packet_type \<and> length src = HANDSHAKE_RESP_SZ then
          Ok (HandshakeResponse
            \<lparr>hp_sender_idx = of_le_bytes (slice src 4 8),
             hp_receiver_idx = of_le_bytes (slice src 8 12),
             hp_unencrypted_ephemeral = slice src 12 44,
             hp_encrypted_nothing = slice src 44 60\<rparr>)
        else if HeaderRange_contains (hc_cookie hc) packet_type \<and> length src = COOKIE_REPLY_SZ then
          Ok (PacketCookieReply
            \<lparr>pcr_receiver_idx = of_le_bytes (slice src 4 8),
             pcr_nonce = slice src 8 32,
             pcr_encrypted_cookie = slice src 32 64\<rparr>)
        else if HeaderRange_contains (hc_transport hc) packet_type \<and> length src \<ge> DATA_OVERHEAD_SZ then
          Ok (PacketData
            \<lparr>pd_receiver_idx = of_le_bytes (slice src 4 8),
             pd_counter = of_le_bytes (slice src 8 16),
             pd_encrypted_encapsulated_packet = drop 16 src\<rparr>)
        else Err InvalidPacket)"

definition parse_incoming_packet :: "bytes \<Rightarrow> WireGuardError + Packet" where
  "parse_incoming_packet src = parse_incoming_packet_config src HeaderConfig_wireguard_compatible"

section \<open>IP packets\<close>

datatype IpAddr = V4 bytes | V6 bytes

definition IPV4_MIN_HEADER_SIZE :: nat where "IPV4_MIN_HEADER_SIZE = 20"
definition IPV4_LEN_OFF :: nat where "IPV4_LEN_OFF = 2"
definition IPV4_SRC_IP_OFF :: nat where "IPV4_SRC_IP_OFF = 12"
definition IPV4_DST_IP_OFF :: nat where "IPV4_DST_IP_OFF = 16"
definition IPV4_IP_SZ :: nat where "IPV4_IP_SZ = 4"
definition IPV6_MIN_HEADER_SIZE :: nat where "IPV6_MIN_HEADER_SIZE = 40"
definition IPV6_LEN_OFF :: nat where "IPV6_LEN_OFF = 4"
definition IPV6_SRC_IP_OFF :: nat where "IPV6_SRC_IP_OFF = 8"
definition IPV6_DST_IP_OFF :: nat where "IPV6_DST_IP_OFF = 24"
definition IPV6_IP_SZ :: nat where "IPV6_IP_SZ = 16"
definition IP_LEN_SZ :: nat where "IP_LEN_SZ = 2"

lemmas ip_consts = IPV4_MIN_HEADER_SIZE_def IPV4_LEN_OFF_def IPV4_SRC_IP_OFF_def IPV4_DST_IP_OFF_def IPV4_IP_SZ_def
  IPV6_MIN_HEADER_SIZE_def IPV6_LEN_OFF_def IPV6_SRC_IP_OFF_def IPV6_DST_IP_OFF_def IPV6_IP_SZ_def IP_LEN_SZ_def

definition ip_version :: "bytes \<Rightarrow> u8" where
  "ip_version packet = drop_bit 4 (hd packet)"

definition dst_address :: "bytes \<Rightarrow> IpAddr option" where
  "dst_address packet =
     (if packet = [] then None
      else if ip_version packet = 4 \<and> length packet \<ge> IPV4_MIN_HEADER_SIZE then
        Some (V4 (slice packet IPV4_DST_IP_OFF (IPV4_DST_IP_OFF + IPV4_IP_SZ)))
      else if ip_version packet = 6 \<and> length packet \<ge> IPV6_MIN_HEADER_SIZE then
        Some (V6 (slice packet IPV6_DST_IP_OFF (IPV6_DST_IP_OFF + IPV6_IP_SZ)))
      else None)"

section \<open>Deframing\<close>

text \<open>
  What \<open>Tunn::decapsulate\<close> does with a datagram before it looks at the message: strip the
  padding prefix, drop the trailer, undo header protection. A protected transport packet is
  assembled directly; anything else goes on as bytes. \<^const>\<open>None\<close> is a slice out of range.
\<close>

datatype deframed = Transport packet_data | Stripped bytes

definition trim_trailer :: "classified option \<Rightarrow> bytes \<Rightarrow> bytes" where
  "trim_trailer c payload =
     (case Option.bind c cd_msg_size of
        Some n \<Rightarrow> if n \<le> length payload then take n payload else payload
      | None \<Rightarrow> payload)"

definition transport_of_header :: "bytes \<Rightarrow> bytes \<Rightarrow> packet_data" where
  "transport_of_header header body =
     \<lparr>pd_receiver_idx = of_le_bytes (slice header 4 8), pd_counter = of_le_bytes (slice header 8 16),
      pd_encrypted_encapsulated_packet = body\<rparr>"

definition deframe :: "keystream \<Rightarrow> packet_classifier \<Rightarrow> bytes \<Rightarrow> deframed option" where
  "deframe ks cl datagram =
     (let c = classify ks cl datagram;
          padding = (case c of Some c \<Rightarrow> cd_padding c | None \<Rightarrow> 0);
          protected_len = (case c of Some c \<Rightarrow> cd_protected_len c | None \<Rightarrow> 0);
          payload = trim_trailer c (drop padding datagram)
      in if length datagram < padding then None
         else case (if protected_len = TRANSPORT_HEADER_SZ then Option.bind c cd_header_mask else None) of
           Some m \<Rightarrow>
             if length payload < TRANSPORT_HEADER_SZ then None
             else Some (Transport (transport_of_header (xor_prefix (take TRANSPORT_HEADER_SZ payload) m)
                                                       (drop TRANSPORT_HEADER_SZ payload)))
         | None \<Rightarrow>
             (case cl_header_protection cl of
                Some key \<Rightarrow>
                  if protected_len > 0
                  then let n = min protected_len (length payload)
                       in if HANDSHAKE_INIT_SZ < n then None
                          else map_option Stripped (HeaderProtection_apply ks key (take padding datagram) (take n payload))
                  else Some (Stripped payload)
              | None \<Rightarrow> Some (Stripped payload)))"

section \<open>Lemmas: header protection\<close>

lemma hp_xor_length [simp, length_simps]: "length (hp_xor ks key prefix msg) = length msg"
  by (simp add: hp_xor_def)

interpretation hp_mask: symmetric_mask "\<lambda>(key, prefix). hp_xor ks key prefix" for ks
  by unfold_locales (auto simp: hp_xor_def)

lemmas hp_xor_involution [simp] = hp_mask.mask_involution [where k = "(key, prefix)" for key prefix, unfolded prod.case]

lemma hp_xor_take: "take n (hp_xor ks key prefix msg) = hp_xor ks key prefix (take n msg)"
  by (simp add: hp_xor_def take_xor_prefix take_map min_def)

lemma hp_xor_mask:
  "length msg \<le> n \<Longrightarrow>
   xor_prefix msg (map (ks key (take HEADER_PROTECTION_NONCE_SIZE prefix)) [0..<n]) = hp_xor ks key prefix msg"
  using xor_prefix_take_mask [of msg "length msg" "map (ks key (take HEADER_PROTECTION_NONCE_SIZE prefix)) [0..<n]"]
  by (simp add: hp_xor_def take_map)

lemma HeaderProtection_keystream_eq:
  "HEADER_PROTECTION_NONCE_SIZE \<le> length prefix \<Longrightarrow>
   HeaderProtection_keystream ks key n prefix =
     Some (map (ks key (take HEADER_PROTECTION_NONCE_SIZE prefix)) [0..<n])"
  by (simp add: HeaderProtection_keystream_def HeaderProtection_apply_def hp_xor_def xor_prefix_zeros)

section \<open>Lemmas: what a sender puts on the wire\<close>

text \<open>
  A datagram: a random prefix, the message with its first \<open>n\<close> bytes protected, a trailer.
\<close>

definition protect :: "keystream \<Rightarrow> bytes option \<Rightarrow> bytes \<Rightarrow> bytes \<Rightarrow> bytes" where
  "protect ks hp prefix msg = (case hp of None \<Rightarrow> msg | Some key \<Rightarrow> hp_xor ks key prefix msg)"

definition datagram_of :: "keystream \<Rightarrow> bytes option \<Rightarrow> nat \<Rightarrow> bytes \<Rightarrow> bytes \<Rightarrow> bytes \<Rightarrow> bytes" where
  "datagram_of ks hp n prefix msg trailer = prefix @ protect ks hp prefix (take n msg) @ drop n msg @ trailer"

fun candidate_for :: "packet_classifier \<Rightarrow> HeaderKind \<Rightarrow> candidate" where
  "candidate_for cl HK_Init = (unat (pc_s1 (cl_paddings cl)), hc_init (cl_headers cl), HANDSHAKE_INIT_SZ, True)"
| "candidate_for cl HK_Response = (unat (pc_s2 (cl_paddings cl)), hc_response (cl_headers cl), HANDSHAKE_RESP_SZ, True)"
| "candidate_for cl HK_Cookie = (unat (pc_s3 (cl_paddings cl)), hc_cookie (cl_headers cl), COOKIE_REPLY_SZ, True)"
| "candidate_for cl HK_Transport = (unat (pc_s4 (cl_paddings cl)), hc_transport (cl_headers cl), DATA_OVERHEAD_SZ, False)"

definition kind_order :: "bool \<Rightarrow> HeaderKind list" where
  "kind_order trailers =
     (if trailers then [HK_Transport, HK_Init, HK_Response, HK_Cookie]
      else [HK_Init, HK_Response, HK_Cookie, HK_Transport])"

lemma classify_checks_kinds: "classify_checks cl = map (candidate_for cl) (kind_order (cl_random_trailers cl))"
  by (simp add: classify_checks_def kind_order_def Let_def)

definition kind_padding :: "packet_classifier \<Rightarrow> HeaderKind \<Rightarrow> nat" where
  "kind_padding cl k = fst (candidate_for cl k)"

definition kind_range :: "packet_classifier \<Rightarrow> HeaderKind \<Rightarrow> header_range" where
  "kind_range cl k = fst (snd (candidate_for cl k))"

definition kind_size :: "HeaderKind \<Rightarrow> nat" where
  "kind_size k = (case k of HK_Init \<Rightarrow> HANDSHAKE_INIT_SZ | HK_Response \<Rightarrow> HANDSHAKE_RESP_SZ
     | HK_Cookie \<Rightarrow> COOKIE_REPLY_SZ | HK_Transport \<Rightarrow> DATA_OVERHEAD_SZ)"

definition kind_protected :: "HeaderKind \<Rightarrow> nat" where
  "kind_protected k = (if k = HK_Transport then TRANSPORT_HEADER_SZ else kind_size k)"

lemma candidate_for_eq:
  "candidate_for cl k = (kind_padding cl k, kind_range cl k, kind_size k, k \<noteq> HK_Transport)"
  by (cases k) (simp_all add: kind_padding_def kind_range_def kind_size_def)

text \<open>
  A well-formed datagram of a kind: a prefix of the configured length, long enough for the
  nonce when the header is protected; a message of the kind's size with a type in its range;
  a trailer only where trailers are enabled and the kind has a fixed size.
\<close>

definition sent_as :: "packet_classifier \<Rightarrow> HeaderKind \<Rightarrow> bytes \<Rightarrow> bytes \<Rightarrow> bytes \<Rightarrow> bool" where
  "sent_as cl k prefix msg trailer \<longleftrightarrow>
     length prefix = kind_padding cl k \<and>
     (cl_header_protection cl \<noteq> None \<longrightarrow> HEADER_PROTECTION_NONCE_SIZE \<le> length prefix) \<and>
     (if k = HK_Transport then kind_size k \<le> length msg \<and> trailer = []
      else length msg = kind_size k \<and> (trailer = [] \<or> cl_random_trailers cl)) \<and>
     HeaderRange_contains (kind_range cl k) (of_le_bytes (take 4 msg))"

definition wire :: "keystream \<Rightarrow> packet_classifier \<Rightarrow> HeaderKind \<Rightarrow> bytes \<Rightarrow> bytes \<Rightarrow> bytes \<Rightarrow> bytes" where
  "wire ks cl k prefix msg trailer =
     datagram_of ks (cl_header_protection cl) (kind_protected k) prefix msg trailer"

lemma kind_size_bounds: "4 \<le> kind_protected k" "kind_protected k \<le> kind_size k" "kind_size k \<le> 148" "32 \<le> kind_size k"
  by (cases k; simp add: kind_size_def kind_protected_def message_sizes)+

lemma length_protect [simp]: "length (protect ks hp prefix msg) = length msg"
  by (simp add: protect_def split: option.splits)

lemma protect_take: "take n (protect ks hp prefix msg) = protect ks hp prefix (take n msg)"
  by (simp add: protect_def hp_xor_take split: option.splits)

lemma protect_protect [simp]: "protect ks hp prefix (protect ks hp prefix msg) = msg"
  by (simp add: protect_def split: option.splits)

lemma length_wire: "sent_as cl k prefix msg trailer \<Longrightarrow> length (wire ks cl k prefix msg trailer) = length prefix + length msg + length trailer"
  using kind_size_bounds(2) [of k]
  by (auto simp: wire_def datagram_of_def sent_as_def split: if_splits)

lemma classify_mask_wire:
  assumes "sent_as cl k prefix msg trailer"
  shows "classify_mask ks cl (wire ks cl k prefix msg trailer) =
           map_option (\<lambda>key. map (ks key (take HEADER_PROTECTION_NONCE_SIZE prefix)) [0..<TRANSPORT_HEADER_SZ])
             (cl_header_protection cl)"
proof (cases "cl_header_protection cl")
  case (Some key)
  then have p: "HEADER_PROTECTION_NONCE_SIZE \<le> length prefix"
    using assms by (simp add: sent_as_def)
  then have "take HEADER_PROTECTION_NONCE_SIZE (wire ks cl k prefix msg trailer) = take HEADER_PROTECTION_NONCE_SIZE prefix"
      "HEADER_PROTECTION_NONCE_SIZE \<le> length (wire ks cl k prefix msg trailer)"
    by (simp_all add: wire_def datagram_of_def)
  then show ?thesis
    using Some by (simp add: classify_mask_def HeaderProtection_keystream_eq)
qed (simp add: classify_mask_def)

lemma sent_as_length: "sent_as cl k prefix msg trailer \<Longrightarrow> kind_size k \<le> length msg"
  by (auto simp: sent_as_def split: if_splits)

lemma candidate_type_wire:
  assumes "sent_as cl k prefix msg trailer"
  shows "candidate_type (classify_mask ks cl (wire ks cl k prefix msg trailer)) (wire ks cl k prefix msg trailer)
           (length prefix) = of_le_bytes (take 4 msg)"
proof -
  have "4 \<le> length msg" "4 \<le> kind_protected k"
    using sent_as_length [OF assms] kind_size_bounds [of k] by linarith+
  then have "slice (wire ks cl k prefix msg trailer) (length prefix) (length prefix + 4) =
      protect ks (cl_header_protection cl) prefix (take 4 msg)"
    by (simp add: wire_def datagram_of_def slice_def protect_take min_def)
  moreover have "length (take 4 msg) \<le> TRANSPORT_HEADER_SZ"
    by (simp add: TRANSPORT_HEADER_SZ_def)
  ultimately show ?thesis
    using classify_mask_wire [OF assms, of ks]
    by (cases "cl_header_protection cl") (simp_all add: candidate_type_def protect_def hp_xor_mask)
qed

lemma candidate_matches_own:
  assumes "sent_as cl k prefix msg trailer"
  shows "candidate_matches (cl_random_trailers cl) (classify_mask ks cl (wire ks cl k prefix msg trailer))
           (wire ks cl k prefix msg trailer) (candidate_for cl k)"
  using assms length_wire [OF assms, of ks] candidate_type_wire [OF assms, of ks] kind_size_bounds(4) [of k]
  by (auto simp: candidate_matches_def candidate_for_eq sent_as_def split: if_splits)

text \<open>
  A datagram reads as a kind when its length fits the kind and the type found behind the kind's
  padding, with the mask of the datagram's first bytes undone, is in the kind's range. The
  classifier takes the first kind in its order that the datagram reads as, so a datagram is
  mistaken when it also reads as a kind that comes before its own.
\<close>

definition type_at :: "keystream \<Rightarrow> packet_classifier \<Rightarrow> bytes \<Rightarrow> nat \<Rightarrow> u32" where
  "type_at ks cl d i = of_le_bytes
     (case cl_header_protection cl of
        Some key \<Rightarrow> if HEADER_PROTECTION_NONCE_SIZE \<le> length d then hp_xor ks key d (slice d i (i + 4)) else slice d i (i + 4)
      | None \<Rightarrow> slice d i (i + 4))"

definition reads_as :: "keystream \<Rightarrow> packet_classifier \<Rightarrow> bytes \<Rightarrow> HeaderKind \<Rightarrow> bool" where
  "reads_as ks cl d k \<longleftrightarrow>
     (if k = HK_Transport \<or> cl_random_trailers cl then kind_padding cl k + kind_size k \<le> length d
      else length d = kind_padding cl k + kind_size k) \<and>
     HeaderRange_contains (kind_range cl k) (type_at ks cl d (kind_padding cl k))"

definition kinds_before :: "packet_classifier \<Rightarrow> HeaderKind \<Rightarrow> HeaderKind list" where
  "kinds_before cl k = takeWhile (\<lambda>k'. k' \<noteq> k) (kind_order (cl_random_trailers cl))"

definition mistaken :: "keystream \<Rightarrow> packet_classifier \<Rightarrow> HeaderKind \<Rightarrow> bytes \<Rightarrow> bool" where
  "mistaken ks cl k d \<longleftrightarrow> list_ex (reads_as ks cl d) (kinds_before cl k)"

text \<open>
  Configurations that rule mistakes out for a kind: every kind before it has the same padding,
  so that both read the type at the same place, or both have a fixed size, trailers are off and
  the lengths differ. With trailers on, nothing comes before transport.
\<close>

definition unmistakable :: "packet_classifier \<Rightarrow> HeaderKind \<Rightarrow> bool" where
  "unmistakable cl k \<longleftrightarrow> list_all (\<lambda>k'. kind_padding cl k' = kind_padding cl k \<or>
     \<not> cl_random_trailers cl \<and> k \<noteq> HK_Transport \<and> k' \<noteq> HK_Transport \<and>
       kind_padding cl k' + kind_size k' \<noteq> kind_padding cl k + kind_size k) (kinds_before cl k)"

lemma candidate_type_at: "candidate_type (classify_mask ks cl d) d i = type_at ks cl d i"
proof (cases "cl_header_protection cl")
  case (Some key)
  have "xor_prefix (slice d i (i + 4)) (map (ks key (take HEADER_PROTECTION_NONCE_SIZE d)) [0..<TRANSPORT_HEADER_SZ]) =
      hp_xor ks key d (slice d i (i + 4))"
    by (rule hp_xor_mask) (simp add: TRANSPORT_HEADER_SZ_def)
  then show ?thesis
    using Some by (simp add: candidate_type_def type_at_def classify_mask_def HeaderProtection_keystream_eq)
qed (simp add: candidate_type_def type_at_def classify_mask_def)

lemma candidate_matches_reads_as:
  "candidate_matches (cl_random_trailers cl) (classify_mask ks cl d) d (candidate_for cl k) \<longleftrightarrow> reads_as ks cl d k"
  using kind_size_bounds(4) [of k]
  by (auto simp: candidate_matches_def candidate_for_eq candidate_type_at reads_as_def split: if_splits)

lemma find_map: "find P (map f xs) = map_option f (find (P \<circ> f) xs)"
  by (induction xs) simp_all

lemma classify_first_kind:
  "classify ks cl d = map_option (\<lambda>k. classified_of (classify_mask ks cl d) (candidate_for cl k))
     (find (reads_as ks cl d) (kind_order (cl_random_trailers cl)))"
proof -
  have "candidate_matches (cl_random_trailers cl) (classify_mask ks cl d) d \<circ> candidate_for cl = reads_as ks cl d"
    by (simp add: fun_eq_iff candidate_matches_reads_as)
  then show ?thesis
    by (simp add: classify_def classify_checks_kinds find_map option.map_comp comp_def)
qed

lemma find_before:
  "x \<in> set xs \<Longrightarrow> P x \<Longrightarrow> find P xs =
     (case find P (takeWhile (\<lambda>y. y \<noteq> x) xs) of None \<Rightarrow> Some x | Some y \<Rightarrow> Some y)"
  by (induction xs) auto

lemma kind_range_disjoint:
  assumes "hc_disjoint (cl_headers cl)" "HeaderRange_contains (kind_range cl k) v" "HeaderRange_contains (kind_range cl k') v"
  shows "k = k'"
  using assms by (cases k; cases k') (auto simp: kind_range_def hc_disjoint_def hr_set_def)

lemma unmistakable_not_mistaken:
  assumes "sent_as cl k prefix msg trailer" "hc_disjoint (cl_headers cl)" "unmistakable cl k"
  shows "\<not> mistaken ks cl k (wire ks cl k prefix msg trailer)"
proof
  assume "mistaken ks cl k (wire ks cl k prefix msg trailer)"
  then obtain k' where k': "k' \<in> set (kinds_before cl k)" "reads_as ks cl (wire ks cl k prefix msg trailer) k'"
    by (auto simp: mistaken_def list_ex_iff)
  have ne: "k' \<noteq> k" using k'(1) by (auto simp: kinds_before_def dest: set_takeWhileD)
  have pad: "kind_padding cl k = length prefix" and ty: "HeaderRange_contains (kind_range cl k) (of_le_bytes (take 4 msg))"
    using assms(1) by (simp_all add: sent_as_def)
  have "kind_padding cl k' \<noteq> length prefix"
  proof
    assume "kind_padding cl k' = length prefix"
    then have "HeaderRange_contains (kind_range cl k') (of_le_bytes (take 4 msg))"
      using k'(2) candidate_type_wire [OF assms(1), of ks] by (simp add: reads_as_def candidate_type_at)
    then show False using kind_range_disjoint [OF assms(2) ty] ne by blast
  qed
  then have "\<not> cl_random_trailers cl" "k \<noteq> HK_Transport" "k' \<noteq> HK_Transport"
      "kind_padding cl k' + kind_size k' \<noteq> kind_padding cl k + kind_size k"
    using assms(3) k'(1) pad by (auto simp: unmistakable_def list_all_iff)
  moreover from this have "length (wire ks cl k prefix msg trailer) = kind_padding cl k + kind_size k"
    using assms(1) length_wire [OF assms(1), of ks] by (auto simp: sent_as_def)
  ultimately show False
    using k'(2) by (simp add: reads_as_def)
qed

text \<open>Without trailers only the length of a handshake message is mistaken for one.\<close>

lemma mistaken_length:
  assumes "mistaken ks cl HK_Transport d" "\<not> cl_random_trailers cl"
  shows "length d \<in> {kind_padding cl HK_Init + 148, kind_padding cl HK_Response + 92, kind_padding cl HK_Cookie + 64}"
  using assms by (auto simp: mistaken_def kinds_before_def kind_order_def reads_as_def kind_size_def message_sizes)

text \<open>The classification of a datagram as its own kind, spelled out.\<close>

definition classified_as :: "keystream \<Rightarrow> packet_classifier \<Rightarrow> HeaderKind \<Rightarrow> bytes \<Rightarrow> classified" where
  "classified_as ks cl k prefix =
     \<lparr>cd_padding = length prefix, cd_protected_len = kind_protected k,
      cd_header_mask = map_option (\<lambda>key. map (ks key (take HEADER_PROTECTION_NONCE_SIZE prefix)) [0..<TRANSPORT_HEADER_SZ])
                         (cl_header_protection cl),
      cd_msg_size = (if k = HK_Transport then None else Some (kind_size k))\<rparr>"

lemma classified_of_own:
  assumes "sent_as cl k prefix msg trailer"
  shows "classified_of (classify_mask ks cl (wire ks cl k prefix msg trailer)) (candidate_for cl k) = classified_as ks cl k prefix"
proof -
  have "kind_padding cl k = length prefix"
    using assms by (simp add: sent_as_def)
  then show ?thesis
    by (simp add: classify_mask_wire [OF assms] classified_of_def candidate_for_eq classified_as_def kind_protected_def)
qed

lemma kind_protected_inj: "kind_protected k = kind_protected k' \<Longrightarrow> k = k'"
  by (cases k; cases k') (simp_all add: kind_protected_def kind_size_def message_sizes)

lemma classify_wire_iff:
  assumes "sent_as cl k prefix msg trailer"
  shows "classify ks cl (wire ks cl k prefix msg trailer) = Some (classified_as ks cl k prefix) \<longleftrightarrow>
    \<not> mistaken ks cl k (wire ks cl k prefix msg trailer)"
proof -
  define w where "w = wire ks cl k prefix msg trailer"
  have own: "reads_as ks cl w k"
    unfolding w_def candidate_matches_reads_as [symmetric] by (rule candidate_matches_own [OF assms])
  have "k \<in> set (kind_order (cl_random_trailers cl))"
    by (cases k) (simp_all add: kind_order_def)
  note find = find_before [of k, OF this, where P = "reads_as ks cl w", OF own, folded kinds_before_def]
  have c: "classified_of (classify_mask ks cl w) (candidate_for cl k) = classified_as ks cl k prefix"
    unfolding w_def by (rule classified_of_own [OF assms])
  have "classify ks cl w = Some (classified_as ks cl k prefix) \<longleftrightarrow> \<not> mistaken ks cl k w"
  proof (cases "find (reads_as ks cl w) (kinds_before cl k)")
    case None
    then have "\<not> mistaken ks cl k w"
      by (auto simp: mistaken_def find_None_iff list_ex_iff)
    moreover have "classify ks cl w = Some (classified_as ks cl k prefix)"
      unfolding classify_first_kind find None by (simp add: c)
    ultimately show ?thesis by simp
  next
    case (Some k')
    then have k': "k' \<in> set (kinds_before cl k)" "reads_as ks cl w k'"
      by (auto simp: find_Some_iff)
    then have "k' \<noteq> k" by (auto simp: kinds_before_def dest: set_takeWhileD)
    then have "kind_protected k' \<noteq> kind_protected k" using kind_protected_inj by blast
    then have "classified_of (classify_mask ks cl w) (candidate_for cl k') \<noteq> classified_as ks cl k prefix"
      by (auto simp: classified_of_def candidate_for_eq classified_as_def kind_protected_def)
    moreover have "classify ks cl w = Some (classified_of (classify_mask ks cl w) (candidate_for cl k'))"
      unfolding classify_first_kind find Some by simp
    moreover have "mistaken ks cl k w" using k' by (auto simp: mistaken_def list_ex_iff)
    ultimately show ?thesis by simp
  qed
  then show ?thesis by (simp only: w_def)
qed

lemma drop_wire:
  "drop (length prefix) (wire ks cl k prefix msg trailer) =
     protect ks (cl_header_protection cl) prefix (take (kind_protected k) msg) @ drop (kind_protected k) msg @ trailer"
  by (simp add: wire_def datagram_of_def)

lemma take_wire: "take (length prefix) (wire ks cl k prefix msg trailer) = prefix"
  by (simp add: wire_def datagram_of_def)

lemma le_length_wire: "length prefix \<le> length (wire ks cl k prefix msg trailer)"
  by (simp add: wire_def datagram_of_def)

lemma deframe_transport:
  assumes "sent_as cl HK_Transport prefix msg []"
    and "classify ks cl (wire ks cl HK_Transport prefix msg []) = Some (classified_as ks cl HK_Transport prefix)"
  shows "deframe ks cl (wire ks cl HK_Transport prefix msg []) =
           Some (if cl_header_protection cl \<noteq> None
                 then Transport (transport_of_header (take TRANSPORT_HEADER_SZ msg) (drop TRANSPORT_HEADER_SZ msg))
                 else Stripped msg)"
proof -
  have len: "TRANSPORT_HEADER_SZ \<le> length msg"
    using sent_as_length [OF assms(1)] by (simp add: message_sizes kind_size_def)
  have unmask: "xor_prefix (hp_xor ks key prefix (take TRANSPORT_HEADER_SZ msg))
      (map (ks key (take HEADER_PROTECTION_NONCE_SIZE prefix)) [0..<TRANSPORT_HEADER_SZ]) = take TRANSPORT_HEADER_SZ msg" for key
    by (subst hp_xor_mask) simp_all
  show ?thesis
    using assms(2) le_length_wire [of prefix ks cl HK_Transport msg "[]"] len
    by (cases "cl_header_protection cl")
       (simp_all add: deframe_def classified_as_def trim_trailer_def drop_wire kind_protected_def protect_def unmask Let_def)
qed

lemma deframe_handshake:
  assumes "sent_as cl k prefix msg trailer" "k \<noteq> HK_Transport"
    and "classify ks cl (wire ks cl k prefix msg trailer) = Some (classified_as ks cl k prefix)"
  shows "deframe ks cl (wire ks cl k prefix msg trailer) = Some (Stripped msg)"
proof -
  have len: "length msg = kind_size k"
    using assms(1,2) by (simp add: sent_as_def)
  have t: "kind_size k \<noteq> TRANSPORT_HEADER_SZ" "0 < kind_size k" "\<not> HANDSHAKE_INIT_SZ < kind_size k"
    using kind_size_bounds [of k] by (auto simp: message_sizes)
  have nonce: "cl_header_protection cl \<noteq> None \<Longrightarrow> \<not> length prefix < HEADER_PROTECTION_NONCE_SIZE"
    using assms(1) by (simp add: sent_as_def)
  show ?thesis
    using assms(2,3) le_length_wire [of prefix ks cl k msg trailer] len t nonce
    by (cases "cl_header_protection cl")
       (simp_all add: deframe_def classified_as_def trim_trailer_def drop_wire take_wire kind_protected_def protect_def
          HeaderProtection_apply_def Let_def)
qed

text \<open>The message parser reads back the fields of a message of its kind.\<close>

lemma parse_transport:
  assumes "HeaderRange_contains (hc_transport hc) (of_le_bytes (take 4 msg))" "hc_disjoint hc" "32 \<le> length msg"
  shows "parse_incoming_packet_config msg hc =
           Ok (PacketData (transport_of_header (take TRANSPORT_HEADER_SZ msg) (drop TRANSPORT_HEADER_SZ msg)))"
proof -
  have "\<not> HeaderRange_contains (hc_init hc) (of_le_bytes (take 4 msg))"
      "\<not> HeaderRange_contains (hc_response hc) (of_le_bytes (take 4 msg))"
      "\<not> HeaderRange_contains (hc_cookie hc) (of_le_bytes (take 4 msg))"
    using assms(1,2) by (auto simp: hc_disjoint_def hr_set_def)
  then show ?thesis
    using assms
    by (simp add: parse_incoming_packet_config_def slice_def transport_of_header_def message_sizes drop_take min_def)
qed

section \<open>Properties\<close>

lemma deframe_wire:
  assumes "sent_as cl k prefix msg trailer"
    and "classify ks cl (wire ks cl k prefix msg trailer) = Some (classified_as ks cl k prefix)"
  shows "deframe ks cl (wire ks cl k prefix msg trailer) =
           Some (if k = HK_Transport \<and> cl_header_protection cl \<noteq> None
                 then Transport (transport_of_header (take TRANSPORT_HEADER_SZ msg) (drop TRANSPORT_HEADER_SZ msg))
                 else Stripped msg)"
proof (cases "k = HK_Transport")
  case True
  then have "trailer = []"
    using assms(1) by (simp add: sent_as_def)
  then show ?thesis
    using True assms deframe_transport [of cl prefix msg ks] by simp
next
  case False
  then show ?thesis
    using deframe_handshake [OF assms(1) False assms(2)] by simp
qed

text \<open>
  C15. Framing and deframing are inverse, for any four paddings: whatever a sender puts around a
  message of any kind (a random prefix, header protection, a random trailer), the receiver
  classifies the datagram as that kind exactly when it is not mistaken, that is, when it does
  not also read as a kind the classifier tries before; then the receiver recovers exactly the
  message. Mistakes are impossible for a kind when, with disjoint header ranges, each kind tried
  before it has the same padding, or, without trailers, both have fixed lengths that differ; and
  for transport messages when trailers are on.
\<close>

theorem deframe_recovers_message:
  assumes "sent_as cl k prefix msg trailer" and "hc_disjoint (cl_headers cl)"
  shows "(classify ks cl (wire ks cl k prefix msg trailer) = Some (classified_as ks cl k prefix) \<longleftrightarrow>
            \<not> mistaken ks cl k (wire ks cl k prefix msg trailer)) \<and>
         (\<not> mistaken ks cl k (wire ks cl k prefix msg trailer) \<longrightarrow>
            deframe ks cl (wire ks cl k prefix msg trailer) =
              Some (if k = HK_Transport \<and> cl_header_protection cl \<noteq> None
                    then Transport (transport_of_header (take TRANSPORT_HEADER_SZ msg) (drop TRANSPORT_HEADER_SZ msg))
                    else Stripped msg)) \<and>
         (unmistakable cl k \<longrightarrow> \<not> mistaken ks cl k (wire ks cl k prefix msg trailer))"
  using classify_wire_iff [OF assms(1), of ks] deframe_wire [OF assms(1), of ks] unmistakable_not_mistaken [OF assms, of ks]
  by blast

definition sample_classifier :: packet_classifier where
  "sample_classifier =
     \<lparr>cl_paddings = \<lparr>pc_s1 = 41, pc_s2 = 83, pc_s3 = 29, pc_s4 = 23\<rparr>,
      cl_headers = \<lparr>hc_init = \<lparr>hr_start = 100, hr_end = 200\<rparr>, hc_response = \<lparr>hr_start = 201, hr_end = 300\<rparr>,
                    hc_cookie = HeaderRange_single 7, hc_transport = \<lparr>hr_start = 1000, hr_end = 2000\<rparr>\<rparr>,
      cl_header_protection = Some (replicate 32 9), cl_random_trailers = False\<rparr>"

theorem deframe_recovers_message_witness:
  "deframe (\<lambda>k n i. of_nat (i * 7 + 3)) sample_classifier
     (wire (\<lambda>k n i. of_nat (i * 7 + 3)) sample_classifier HK_Cookie (replicate 29 1) (le_bytes 4 (7 :: u32) @ replicate 60 5) []) =
   Some (Stripped (le_bytes 4 (7 :: u32) @ replicate 60 5))"
proof -
  have "sent_as sample_classifier HK_Cookie (replicate 29 1) (le_bytes 4 (7 :: u32) @ replicate 60 5) []"
    by code_simp
  moreover have "unmistakable sample_classifier HK_Cookie"
    by code_simp
  moreover have "hc_wf (cl_headers sample_classifier)" "HeaderConfig_validate (cl_headers sample_classifier) = Ok ()"
    by code_simp+
  then have "hc_disjoint (cl_headers sample_classifier)"
    using HeaderConfig_validate_Ok_iff by blast
  ultimately show ?thesis
    using deframe_recovers_message by fastforce
qed

end
