(* ===== verification/ReplayWindow.thy ===== *)
theory ReplayWindow
  imports Packets
begin

text \<open>
  The sliding window of \<open>src/awgtun/src/noise/session.rs\<close> that keeps a data packet from being
  accepted twice: a 1024-bit map over the counters below \<open>next\<close>. Counters are 64-bit words
  and additions wrap. The loop that clears whole words could run forever on a word type, so it
  is a \<open>partial_function\<close>, and that it returns is proved. The locale \<open>replay_filter\<close> is what a
  session relies on; \<open>receiving_counter_mark\<close> is an instance.
\<close>

unbundle bit_operations_syntax

section \<open>ReceivingKeyCounterValidator\<close>

definition WORD_SIZE :: u64 where "WORD_SIZE = 64"
definition N_WORDS :: u64 where "N_WORDS = 16"
definition N_BITS :: u64 where "N_BITS = 1024"

record validator =
  rv_next :: u64
  rv_receive_cnt :: u64
  rv_bitmap :: "u64 list"

definition validator_default :: validator where
  "validator_default = \<lparr>rv_next = 0, rv_receive_cnt = 0, rv_bitmap = replicate 16 0\<rparr>"

definition word_idx :: "u64 \<Rightarrow> nat" where
  "word_idx idx = unat ((idx mod N_BITS) div WORD_SIZE)"

definition bit_idx :: "u64 \<Rightarrow> nat" where
  "bit_idx idx = unat ((idx mod N_BITS) mod WORD_SIZE)"

definition set_bit :: "u64 \<Rightarrow> u64 list \<Rightarrow> u64 list" where
  "set_bit idx bm = bm[word_idx idx := (bm ! word_idx idx) OR push_bit (bit_idx idx) 1]"

definition clear_bit :: "u64 \<Rightarrow> u64 list \<Rightarrow> u64 list" where
  "clear_bit idx bm = bm[word_idx idx := (bm ! word_idx idx) AND NOT (push_bit (bit_idx idx) 1)]"

definition clear_word :: "u64 \<Rightarrow> u64 list \<Rightarrow> u64 list" where
  "clear_word idx bm = bm[word_idx idx := 0]"

definition check_bit :: "u64 \<Rightarrow> u64 list \<Rightarrow> bool" where
  "check_bit idx bm \<longleftrightarrow> (drop_bit (bit_idx idx) (bm ! word_idx idx) AND 1) = 1"

definition will_accept :: "u64 \<Rightarrow> validator \<Rightarrow> WireGuardError + unit" where
  "will_accept counter v =
     (if counter \<ge> rv_next v then Ok ()
      else if counter + N_BITS < rv_next v then Err InvalidCounter
      else if \<not> check_bit counter (rv_bitmap v) then Ok ()
      else Err DuplicateCounter)"

text \<open>The three loops that clear the bits of the counters skipped over.\<close>

function clear_head :: "u64 \<Rightarrow> u64 \<Rightarrow> u64 list \<Rightarrow> u64 list \<times> u64" where
  "clear_head counter i bm =
     (if i mod WORD_SIZE \<noteq> 0 \<and> i < counter then clear_head counter (i + 1) (clear_bit i bm) else (bm, i))"
  by pat_completeness auto
termination
proof (relation "measure (\<lambda>(counter, i, bm). unat counter - unat i)")
  fix counter i :: u64 and bm
  assume "i mod WORD_SIZE \<noteq> 0 \<and> i < counter"
  then have lt: "unat i < unat counter"
    by (simp add: word_less_nat_alt)
  then have "unat (i + 1) = unat i + 1"
    by (intro unat_inc_small) (use unat_lt2p [of counter] in linarith)
  then show "((counter, i + 1, clear_bit i bm), counter, i, bm) \<in> measure (\<lambda>(counter, i, bm). unat counter - unat i)"
    using lt by simp
qed simp

partial_function (option) clear_words :: "u64 \<Rightarrow> u64 \<Rightarrow> u64 list \<Rightarrow> (u64 list \<times> u64) option" where
  "clear_words counter i bm =
     (if i + WORD_SIZE < counter
      then clear_words counter ((i + WORD_SIZE) AND (0 - WORD_SIZE)) (clear_word i bm)
      else Some (bm, i))"

function clear_tail :: "u64 \<Rightarrow> u64 \<Rightarrow> u64 list \<Rightarrow> u64 list" where
  "clear_tail counter i bm =
     (if i < counter then clear_tail counter (i + 1) (clear_bit i bm) else bm)"
  by pat_completeness auto
termination
proof (relation "measure (\<lambda>(counter, i, bm). unat counter - unat i)")
  fix counter i :: u64 and bm
  assume "i < counter"
  then have lt: "unat i < unat counter"
    by (simp add: word_less_nat_alt)
  then have "unat (i + 1) = unat i + 1"
    by (intro unat_inc_small) (use unat_lt2p [of counter] in linarith)
  then show "((counter, i + 1, clear_bit i bm), counter, i, bm) \<in> measure (\<lambda>(counter, i, bm). unat counter - unat i)"
    using lt by simp
qed simp

declare clear_head.simps [simp del] clear_tail.simps [simp del]
declare clear_words.simps [code]

definition clear_skipped :: "u64 \<Rightarrow> validator \<Rightarrow> u64 list option" where
  "clear_skipped counter v =
     (if counter - rv_next v \<ge> N_BITS then Some (map (\<lambda>_. 0) (rv_bitmap v))
      else let (bm1, i1) = clear_head counter (rv_next v) (rv_bitmap v)
           in map_option (\<lambda>(bm2, i2). clear_tail counter i2 bm2) (clear_words counter i1 bm1))"

text \<open>The result and the new state; \<^const>\<open>None\<close> would be a loop that does not end.\<close>

definition mark_did_receive :: "u64 \<Rightarrow> validator \<Rightarrow> ((WireGuardError + unit) \<times> validator) option" where
  "mark_did_receive counter v =
     (if counter + N_BITS < rv_next v then Some (Err InvalidCounter, v)
      else if counter = rv_next v then
        Some (Ok (), v\<lparr>rv_bitmap := set_bit counter (rv_bitmap v), rv_next := rv_next v + 1\<rparr>)
      else if counter < rv_next v then
        (if check_bit counter (rv_bitmap v) then Some (Err InvalidCounter, v)
         else Some (Ok (), v\<lparr>rv_bitmap := set_bit counter (rv_bitmap v)\<rparr>))
      else map_option (\<lambda>bm. (Ok (), v\<lparr>rv_bitmap := set_bit counter bm, rv_next := counter + 1\<rparr>))
             (clear_skipped counter v))"

definition receiving_counter_quick_check :: "u64 \<Rightarrow> validator \<Rightarrow> WireGuardError + unit" where
  "receiving_counter_quick_check counter v = will_accept counter v"

definition receiving_counter_mark :: "u64 \<Rightarrow> validator \<Rightarrow> ((WireGuardError + unit) \<times> validator) option" where
  "receiving_counter_mark counter v =
     map_option (\<lambda>(ret, v'). (ret, if is_ok ret then v'\<lparr>rv_receive_cnt := rv_receive_cnt v' + 1\<rparr> else v'))
       (mark_did_receive counter v)"

definition current_packet_cnt :: "validator \<Rightarrow> u64 \<times> u64" where
  "current_packet_cnt v = (rv_next v, rv_receive_cnt v)"

section \<open>Lemmas: the bit map\<close>

text \<open>Bit \<open>k\<close> of the 1024.\<close>

definition cbit :: "u64 list \<Rightarrow> nat \<Rightarrow> bool" where
  "cbit bm k \<longleftrightarrow> bit (bm ! (k div 64)) (k mod 64)"

lemma unat_mod_N_BITS: "unat (idx mod N_BITS) = unat idx mod 1024"
  by (simp add: N_BITS_def unat_mod_distrib)

lemma word_idx_eq: "word_idx idx = unat idx mod 1024 div 64"
  by (simp add: word_idx_def unat_div_distrib unat_mod_N_BITS WORD_SIZE_def)

lemma bit_idx_eq: "bit_idx idx = unat idx mod 1024 mod 64"
  by (simp add: bit_idx_def unat_mod_distrib N_BITS_def WORD_SIZE_def)

lemma idx_bounds: "word_idx idx < 16" "bit_idx idx < 64"
  by (simp_all add: word_idx_eq bit_idx_eq less_mult_imp_div_less)

lemma idx_eq_iff: "k < 1024 \<Longrightarrow> k = unat idx mod 1024 \<longleftrightarrow> k div 64 = word_idx idx \<and> k mod 64 = bit_idx idx"
  unfolding word_idx_eq bit_idx_eq by (metis div_mult_mod_eq)

lemma check_bit_cbit: "check_bit idx bm \<longleftrightarrow> cbit bm (unat idx mod 1024)"
proof -
  have "check_bit idx bm \<longleftrightarrow> bit (bm ! word_idx idx) (bit_idx idx)"
    by (simp add: check_bit_def and_one_eq mod2_eq_if bit_iff_odd_drop_bit)
  then show ?thesis
    by (simp add: cbit_def word_idx_eq bit_idx_eq)
qed

lemma bit_pow2_u64: "n < 64 \<Longrightarrow> bit (2 ^ n :: u64) m \<longleftrightarrow> m = n"
  by (auto simp: bit_simps)

lemma cbit_set_bit:
  "length bm = 16 \<Longrightarrow> k < 1024 \<Longrightarrow> cbit (set_bit idx bm) k \<longleftrightarrow> k = unat idx mod 1024 \<or> cbit bm k"
  using idx_bounds [of idx]
  by (auto simp: cbit_def set_bit_def idx_eq_iff nth_list_update bit_or_iff bit_pow2_u64)

lemma cbit_clear_bit:
  "length bm = 16 \<Longrightarrow> k < 1024 \<Longrightarrow> cbit (clear_bit idx bm) k \<longleftrightarrow> k \<noteq> unat idx mod 1024 \<and> cbit bm k"
  using idx_bounds [of idx]
  by (auto simp: cbit_def clear_bit_def idx_eq_iff nth_list_update bit_and_iff bit_not_iff bit_pow2_u64)

lemma cbit_clear_word:
  "length bm = 16 \<Longrightarrow> k < 1024 \<Longrightarrow> cbit (clear_word idx bm) k \<longleftrightarrow> k div 64 \<noteq> word_idx idx \<and> cbit bm k"
  using idx_bounds [of idx] by (auto simp: cbit_def clear_word_def nth_list_update)

lemma length_bitmap_ops [simp]:
  "length (set_bit idx bm) = length bm" "length (clear_bit idx bm) = length bm" "length (clear_word idx bm) = length bm"
  by (simp_all add: set_bit_def clear_bit_def clear_word_def)

text \<open>The bits a range of counters occupies.\<close>

definition cells :: "nat \<Rightarrow> nat \<Rightarrow> nat set" where
  "cells i j = (\<lambda>m. m mod 1024) ` {i..<j}"

lemma cells_empty [simp]: "j \<le> i \<Longrightarrow> cells i j = {}"
  by (simp add: cells_def)

lemma cells_split: "i \<le> j \<Longrightarrow> j \<le> k \<Longrightarrow> cells i k = cells i j \<union> cells j k"
  by (simp add: cells_def image_Un [symmetric] ivl_disj_un_two(3))

lemma cells_Suc: "cells i (Suc i) = {i mod 1024}"
  by (simp add: cells_def)

lemma cells_word:
  assumes "i mod 64 = 0"
  shows "k \<in> cells i (i + 64) \<longleftrightarrow> k < 1024 \<and> k div 64 = i mod 1024 div 64"
proof -
  define q where "q = i div 64"
  have i: "i = 64 * q"
    using assms by (metis add_0_right mult_div_mod_eq q_def)
  have row: "(64 * q + r) mod 1024 = 64 * (q mod 16) + r" if "r < 64" for r
  proof -
    have "(64 * q + r) mod (64 * 16) = 64 * ((64 * q + r) div 64 mod 16) + (64 * q + r) mod 64"
      by (rule mod_mult2_eq)
    then show ?thesis using that by simp
  qed
  show ?thesis
  proof
    assume "k \<in> cells i (i + 64)"
    then obtain m where m: "64 * q \<le> m" "m < 64 * q + 64" "k = m mod 1024"
      by (auto simp: cells_def i)
    define r where "r = m - 64 * q"
    have "r < 64" "k = (64 * q + r) mod 1024"
      using m by (auto simp: r_def)
    then show "k < 1024 \<and> k div 64 = i mod 1024 div 64"
      using row [of r] row [of 0] by (simp add: i)
  next
    assume k: "k < 1024 \<and> k div 64 = i mod 1024 div 64"
    then have "k div 64 = q mod 16"
      using row [of 0] by (simp add: i)
    then have "k = 64 * (q mod 16) + k mod 64"
      using mult_div_mod_eq [of 64 k] by simp
    also have "\<dots> = (64 * q + k mod 64) mod 1024"
      using row [of "k mod 64"] by simp
    finally show "k \<in> cells i (i + 64)"
      unfolding cells_def i by (rule image_eqI) simp
  qed
qed

text \<open>What a loop over \<open>[i, j)\<close> leaves behind.\<close>

definition cleared :: "u64 list \<Rightarrow> nat \<Rightarrow> nat \<Rightarrow> u64 list \<Rightarrow> bool" where
  "cleared bm i j bm' \<longleftrightarrow> length bm' = 16 \<and> (\<forall>k < 1024. cbit bm' k \<longleftrightarrow> cbit bm k \<and> k \<notin> cells i j)"

lemma cleared_refl: "length bm = 16 \<Longrightarrow> cleared bm i i bm"
  by (simp add: cleared_def)

lemma cleared_trans:
  "cleared bm i j bm' \<Longrightarrow> cleared bm' j k bm'' \<Longrightarrow> i \<le> j \<Longrightarrow> j \<le> k \<Longrightarrow> cleared bm i k bm''"
  by (auto simp: cleared_def cells_split [of i j k])

lemma cleared_bit: "length bm = 16 \<Longrightarrow> cleared bm (unat i) (unat i + 1) (clear_bit i bm)"
  by (auto simp: cleared_def cbit_clear_bit cells_Suc)

lemma cleared_word:
  "length bm = 16 \<Longrightarrow> unat i mod 64 = 0 \<Longrightarrow> cleared bm (unat i) (unat i + 64) (clear_word i bm)"
  by (auto simp: cleared_def cbit_clear_word cells_word word_idx_eq)

lemma unat_inc_lt:
  assumes "(i :: u64) < c"
  shows "unat (i + 1) = unat i + 1"
proof (rule unat_inc_small)
  show "unat i + 1 < 2 ^ LENGTH(64)"
    using assms unat_lt2p [of c] unfolding word_less_nat_alt by linarith
qed

lemma WORD_SIZE_mod: "i mod WORD_SIZE = 0 \<longleftrightarrow> unat i mod 64 = 0"
  by (simp add: WORD_SIZE_def word_unat_eq_iff unat_mod_distrib)

lemma clear_head_spec:
  "length bm = 16 \<Longrightarrow> i \<le> counter \<Longrightarrow> clear_head counter i bm = (bm', i') \<Longrightarrow>
   unat i \<le> unat i' \<and> i' \<le> counter \<and> (unat i' mod 64 = 0 \<or> i' = counter) \<and> cleared bm (unat i) (unat i') bm'"
proof (induction counter i bm rule: clear_head.induct)
  case (1 counter i bm)
  show ?case
  proof (cases "i mod WORD_SIZE \<noteq> 0 \<and> i < counter")
    case True
    have step: "clear_head counter (i + 1) (clear_bit i bm) = (bm', i')"
      using 1(4) True by (subst (asm) clear_head.simps) simp
    have inc: "unat (i + 1) = unat i + 1"
      using True unat_inc_lt by blast
    then have "i + 1 \<le> counter"
      using True by (simp add: word_le_nat_alt word_less_nat_alt)
    then have "unat i + 1 \<le> unat i'" "i' \<le> counter" "unat i' mod 64 = 0 \<or> i' = counter"
        "cleared (clear_bit i bm) (unat i + 1) (unat i') bm'"
      using 1(1) [OF True _ _ step] 1(2) inc by auto
    then show ?thesis
      using cleared_trans [OF cleared_bit [OF 1(2), of i]] by auto
  next
    case False
    have "clear_head counter i bm = (bm, i)"
      by (subst clear_head.simps) (rule if_not_P [OF False])
    then have "bm' = bm" "i' = i"
      using 1(4) by simp_all
    then show ?thesis
      using False 1(2,3) by (auto simp: cleared_refl WORD_SIZE_mod)
  qed
qed

lemma clear_tail_spec:
  "length bm = 16 \<Longrightarrow> i \<le> counter \<Longrightarrow> cleared bm (unat i) (unat counter) (clear_tail counter i bm)"
proof (induction counter i bm rule: clear_tail.induct)
  case (1 counter i bm)
  show ?case
  proof (cases "i < counter")
    case True
    have inc: "unat (i + 1) = unat i + 1"
      using True unat_inc_lt by blast
    then have "i + 1 \<le> counter"
      using True by (simp add: word_le_nat_alt word_less_nat_alt)
    then have "cleared (clear_bit i bm) (unat i + 1) (unat counter) (clear_tail counter (i + 1) (clear_bit i bm))"
      using 1(1) [OF True] 1(2) inc by simp
    then show ?thesis
      using cleared_trans [OF cleared_bit [OF 1(2), of i]] True \<open>i + 1 \<le> counter\<close> inc
      by (subst clear_tail.simps) (simp add: word_le_nat_alt)
  next
    case False
    then have "i = counter" using 1(3) by simp
    then show ?thesis
      using 1(2) by (subst clear_tail.simps) (simp add: cleared_refl)
  qed
qed

lemma align_down_aligned:
  fixes x :: u64
  assumes "unat x mod 64 = 0"
  shows "x AND (0 - WORD_SIZE) = x"
proof (rule bit_word_eqI)
  fix n assume n: "n < LENGTH(64)"
  have "take_bit 6 x = 0"
    using assms by (simp add: word_unat_eq_iff take_bit_eq_mod unat_mod_distrib)
  then have low: "n < 6 \<Longrightarrow> \<not> bit x n"
    by (metis bit_0_eq bit_take_bit_iff bot_apply bot_bool_def)
  have "0 - WORD_SIZE = NOT (mask 6)"
    by (simp add: WORD_SIZE_def mask_eq_exp_minus_1 not_eq_complement)
  then show "bit (x AND (0 - WORD_SIZE)) n \<longleftrightarrow> bit x n"
    using low n by (auto simp: bit_and_iff bit_not_iff bit_mask_iff)
qed

lemma clear_words_spec:
  assumes "length bm = 16" "i \<le> counter" "unat i mod 64 = 0 \<or> i = counter" "unat counter + 64 < 2 ^ 64"
  shows "\<exists>bm' i'. clear_words counter i bm = Some (bm', i') \<and> unat i \<le> unat i' \<and> i' \<le> counter \<and>
           cleared bm (unat i) (unat i') bm'"
  using assms
proof (induction "unat counter - unat i" arbitrary: i bm rule: less_induct)
  case less
  have sum: "unat (i + WORD_SIZE) = unat i + 64"
    using less.prems(2,4) by (subst unat_add_small) (simp_all add: WORD_SIZE_def word_le_nat_alt)
  show ?case
  proof (cases "i + WORD_SIZE < counter")
    case True
    then have lt: "unat i + 64 < unat counter"
      using sum by (simp add: word_less_nat_alt)
    then have al: "unat i mod 64 = 0"
      using less.prems(3) by auto
    have next_i: "(i + WORD_SIZE) AND (0 - WORD_SIZE) = i + WORD_SIZE"
      using al sum by (intro align_down_aligned) simp
    have "\<exists>bm' i'. clear_words counter (i + WORD_SIZE) (clear_word i bm) = Some (bm', i') \<and>
        unat (i + WORD_SIZE) \<le> unat i' \<and> i' \<le> counter \<and> cleared (clear_word i bm) (unat (i + WORD_SIZE)) (unat i') bm'"
      using less.prems lt al sum True by (intro less.hyps) (auto simp: less_imp_le)
    then obtain bm' i' where r: "clear_words counter (i + WORD_SIZE) (clear_word i bm) = Some (bm', i')"
        "unat i + 64 \<le> unat i'" "i' \<le> counter" "cleared (clear_word i bm) (unat i + 64) (unat i') bm'"
      using sum by auto
    have "clear_words counter i bm = Some (bm', i')"
      using True r(1) next_i by (subst clear_words.simps) simp
    moreover have "cleared bm (unat i) (unat i') bm'"
      using cleared_trans [OF cleared_word [OF less.prems(1) al] r(4)] r(2) by simp
    ultimately show ?thesis
      using r(2,3) by auto
  next
    case False
    then show ?thesis
      using less.prems by (subst clear_words.simps) (auto simp: cleared_refl)
  qed
qed

lemma clear_skipped_spec:
  assumes "length (rv_bitmap v) = 16" "rv_next v < counter"
    and "N_BITS \<le> counter - rv_next v \<or> unat counter + 64 < 2 ^ 64"
  shows "\<exists>bm. clear_skipped counter v = Some bm \<and> length bm = 16 \<and>
           (\<forall>k < 1024. cbit bm k \<longleftrightarrow> unat counter - unat (rv_next v) < 1024 \<and> cbit (rv_bitmap v) k \<and>
                                   k \<notin> cells (unat (rv_next v)) (unat counter))"
proof -
  have d: "unat (counter - rv_next v) = unat counter - unat (rv_next v)"
    using assms(2) by (intro unat_diff_le) simp
  have far: "N_BITS \<le> counter - rv_next v \<longleftrightarrow> 1024 \<le> unat counter - unat (rv_next v)"
    by (simp add: word_le_nat_alt d N_BITS_def)
  show ?thesis
  proof (cases "N_BITS \<le> counter - rv_next v")
    case True
    then show ?thesis
      using far assms(1) by (auto simp: clear_skipped_def cbit_def map_replicate_const less_mult_imp_div_less)
  next
    case False
    obtain bm1 i1 where h: "clear_head counter (rv_next v) (rv_bitmap v) = (bm1, i1)"
      by fastforce
    have h1: "unat (rv_next v) \<le> unat i1" "i1 \<le> counter" "unat i1 mod 64 = 0 \<or> i1 = counter"
        "cleared (rv_bitmap v) (unat (rv_next v)) (unat i1) bm1"
      using clear_head_spec [OF assms(1) _ h] assms(2) by auto
    obtain bm2 i2 where w: "clear_words counter i1 bm1 = Some (bm2, i2)" "unat i1 \<le> unat i2" "i2 \<le> counter"
        "cleared bm1 (unat i1) (unat i2) bm2"
      using clear_words_spec [of bm1 i1 counter] h1 assms(3) False by (auto simp: cleared_def)
    have "cleared bm2 (unat i2) (unat counter) (clear_tail counter i2 bm2)"
      using clear_tail_spec w(3,4) by (simp add: cleared_def)
    then have "cleared (rv_bitmap v) (unat (rv_next v)) (unat counter) (clear_tail counter i2 bm2)"
      using cleared_trans [OF cleared_trans [OF h1(4) w(4)]] h1 w by (auto simp: word_le_nat_alt)
    then show ?thesis
      using False far h w(1) by (auto simp: clear_skipped_def cleared_def)
  qed
qed

section \<open>Lemmas: marking a counter\<close>

definition rv_ok :: "validator \<Rightarrow> bool" where
  "rv_ok v \<longleftrightarrow> length (rv_bitmap v) = 16"

text \<open>The state after a counter was accepted, \<^const>\<open>None\<close> when it was not.\<close>

definition accept_counter :: "u64 \<Rightarrow> validator \<Rightarrow> validator option" where
  "accept_counter counter v =
     (case receiving_counter_mark counter v of Some (Inr _, v') \<Rightarrow> Some v' | _ \<Rightarrow> None)"

text \<open>The counters that are refused: too old, or already seen in the window.\<close>

definition refused :: "u64 \<Rightarrow> validator \<Rightarrow> bool" where
  "refused counter v \<longleftrightarrow>
     counter + N_BITS < rv_next v \<or> counter < rv_next v \<and> check_bit counter (rv_bitmap v)"

lemma unat_plus_N_BITS:
  "unat (c + N_BITS) = (if unat c + 1024 < 2 ^ 64 then unat c + 1024 else unat c + 1024 - 2 ^ 64)"
proof -
  have "unat (c + N_BITS) = (unat c + 1024) mod 2 ^ 64"
    by (simp add: unat_word_ariths N_BITS_def)
  moreover have "(2 :: nat) ^ 64 = 18446744073709551616"
    by simp
  then have "unat c + 1024 - 2 ^ 64 < (2 :: nat) ^ 64"
    using unat_lt_u64 [of c] by linarith
  ultimately show ?thesis
    using mod_if [of "unat c + 1024" "2 ^ 64"] mod_less [of "unat c + 1024 - 2 ^ 64" "2 ^ 64"] by presburger
qed

lemma skip_in_bounds:
  assumes "\<not> c + N_BITS < n" "n < c"
  shows "N_BITS \<le> c - n \<or> unat c + 64 < 2 ^ 64"
proof (cases "unat c + 1024 < 2 ^ 64")
  case False
  then have "unat n \<le> unat c + 1024 - 2 ^ 64"
    using assms(1) unat_plus_N_BITS [of c] by (simp add: word_less_nat_alt not_less)
  then have "1024 \<le> unat c - unat n"
    using False unat_lt2p [of c] by simp
  then show ?thesis
    using unat_diff_le [of n c] assms(2) by (simp add: word_le_nat_alt N_BITS_def)
qed simp

lemma mark_did_receive_spec:
  assumes "rv_ok v"
  shows "refused c v \<Longrightarrow> mark_did_receive c v = Some (Err InvalidCounter, v)"
    and "\<not> refused c v \<Longrightarrow> \<exists>v'. mark_did_receive c v = Some (Ok (), v') \<and> rv_ok v' \<and>
           rv_receive_cnt v' = rv_receive_cnt v \<and>
           rv_next v' = (if c < rv_next v then rv_next v else c + 1) \<and>
           (\<forall>k < 1024. cbit (rv_bitmap v') k \<longleftrightarrow> k = unat c mod 1024 \<or> cbit (rv_bitmap v) k \<and>
              (c < rv_next v \<or> unat c - unat (rv_next v) < 1024 \<and> k \<notin> cells (unat (rv_next v)) (unat c)))"
proof -
  have len: "length (rv_bitmap v) = 16"
    using assms by (simp add: rv_ok_def)
  show "mark_did_receive c v = Some (Err InvalidCounter, v)" if "refused c v"
    using that by (auto simp: mark_did_receive_def refused_def)
  assume acc: "\<not> refused c v"
  then have old: "\<not> c + N_BITS < rv_next v"
    by (simp add: refused_def)
  consider "c = rv_next v" | "c < rv_next v" | "rv_next v < c"
    by (cases c "rv_next v" rule: linorder_cases)
  then show "\<exists>v'. mark_did_receive c v = Some (Ok (), v') \<and> rv_ok v' \<and>
           rv_receive_cnt v' = rv_receive_cnt v \<and>
           rv_next v' = (if c < rv_next v then rv_next v else c + 1) \<and>
           (\<forall>k < 1024. cbit (rv_bitmap v') k \<longleftrightarrow> k = unat c mod 1024 \<or> cbit (rv_bitmap v) k \<and>
              (c < rv_next v \<or> unat c - unat (rv_next v) < 1024 \<and> k \<notin> cells (unat (rv_next v)) (unat c)))"
  proof cases
    case 1
    then show ?thesis
      using old len by (simp add: mark_did_receive_def rv_ok_def cbit_set_bit)
  next
    case 2
    then have "\<not> check_bit c (rv_bitmap v)"
      using acc by (simp add: refused_def)
    then show ?thesis
      using 2 old len by (auto simp: mark_did_receive_def rv_ok_def cbit_set_bit)
  next
    case 3
    have "N_BITS \<le> c - rv_next v \<or> unat c + 64 < 2 ^ 64"
      using skip_in_bounds [OF old 3] .
    then obtain bm where bm: "clear_skipped c v = Some bm" "length bm = 16"
        "\<forall>k < 1024. cbit bm k \<longleftrightarrow> unat c - unat (rv_next v) < 1024 \<and> cbit (rv_bitmap v) k \<and>
                                   k \<notin> cells (unat (rv_next v)) (unat c)"
      using clear_skipped_spec [OF len 3] by blast
    then show ?thesis
      using 3 old by (auto simp: mark_did_receive_def rv_ok_def cbit_set_bit)
  qed
qed

lemma accept_counter_None_iff:
  assumes "rv_ok v"
  shows "accept_counter c v = None \<longleftrightarrow> refused c v"
proof (cases "refused c v")
  case True
  then show ?thesis
    using mark_did_receive_spec(1) [OF assms] by (simp add: accept_counter_def receiving_counter_mark_def)
next
  case False
  then show ?thesis
    using mark_did_receive_spec(2) [OF assms] by (fastforce simp: accept_counter_def receiving_counter_mark_def)
qed

lemma accept_counter_spec:
  assumes "rv_ok v" "accept_counter c v = Some v'"
  shows "rv_ok v'" and "rv_next v' = (if c < rv_next v then rv_next v else c + 1)"
    and "k < 1024 \<Longrightarrow> cbit (rv_bitmap v') k \<longleftrightarrow> k = unat c mod 1024 \<or> cbit (rv_bitmap v) k \<and>
              (c < rv_next v \<or> unat c - unat (rv_next v) < 1024 \<and> k \<notin> cells (unat (rv_next v)) (unat c))"
    and "rv_receive_cnt v' = rv_receive_cnt v + 1"
proof -
  have "\<not> refused c v"
    using assms(2) accept_counter_None_iff [OF assms(1), of c] by simp
  from mark_did_receive_spec(2) [OF assms(1) this] obtain v1 where v1:
    "mark_did_receive c v = Some (Ok (), v1)" "rv_ok v1" "rv_receive_cnt v1 = rv_receive_cnt v"
    "rv_next v1 = (if c < rv_next v then rv_next v else c + 1)"
    "\<forall>k < 1024. cbit (rv_bitmap v1) k \<longleftrightarrow> k = unat c mod 1024 \<or> cbit (rv_bitmap v) k \<and>
              (c < rv_next v \<or> unat c - unat (rv_next v) < 1024 \<and> k \<notin> cells (unat (rv_next v)) (unat c))"
    by blast
  then have "v' = v1\<lparr>rv_receive_cnt := rv_receive_cnt v1 + 1\<rparr>"
    using assms(2) by (simp add: accept_counter_def receiving_counter_mark_def is_ok_def)
  then show "rv_ok v'" and "rv_next v' = (if c < rv_next v then rv_next v else c + 1)"
    and "k < 1024 \<Longrightarrow> cbit (rv_bitmap v') k \<longleftrightarrow> k = unat c mod 1024 \<or> cbit (rv_bitmap v) k \<and>
              (c < rv_next v \<or> unat c - unat (rv_next v) < 1024 \<and> k \<notin> cells (unat (rv_next v)) (unat c))"
    and "rv_receive_cnt v' = rv_receive_cnt v + 1"
    using v1 by (simp_all add: rv_ok_def)
qed

section \<open>The contract of a replay filter\<close>

fun accepted :: "('c \<Rightarrow> 's \<Rightarrow> 's option) \<Rightarrow> 's \<Rightarrow> 'c list \<Rightarrow> 'c list" where
  "accepted f s [] = []"
| "accepted f s (c # cs) =
     (case f c s of None \<Rightarrow> accepted f s cs | Some s' \<Rightarrow> c # accepted f s' cs)"

locale replay_filter =
  fixes accept :: "'c \<Rightarrow> 's \<Rightarrow> 's option" and inv :: "'s \<Rightarrow> bool" and usable :: "'c \<Rightarrow> bool"
  assumes accept_inv: "inv s \<Longrightarrow> usable c \<Longrightarrow> accept c s = Some s' \<Longrightarrow> inv s'"
    and accept_once: "inv s \<Longrightarrow> usable c \<Longrightarrow> accept c s = Some s' \<Longrightarrow> accept c s' = None"
    and refuse_stays: "inv s \<Longrightarrow> usable c \<Longrightarrow> accept c s = Some s' \<Longrightarrow> accept d s = None \<Longrightarrow> accept d s' = None"
begin

lemma accepted_not_refused:
  "inv s \<Longrightarrow> list_all usable cs \<Longrightarrow> accept c s = None \<Longrightarrow> c \<notin> set (accepted accept s cs)"
proof (induction cs arbitrary: s)
  case (Cons d cs)
  show ?case
  proof (cases "accept d s")
    case None
    then show ?thesis
      using Cons by simp
  next
    case (Some s')
    have "usable d"
      using Cons.prems(2) by simp
    then have "inv s'" "accept c s' = None"
      using accept_inv [OF Cons.prems(1) _ Some] refuse_stays [OF Cons.prems(1) _ Some Cons.prems(3)] by blast+
    then have "c \<notin> set (accepted accept s' cs)"
      using Cons.IH Cons.prems(2) by simp
    then show ?thesis
      using Some Cons.prems(3) by auto
  qed
qed simp

lemma accepted_distinct: "inv s \<Longrightarrow> list_all usable cs \<Longrightarrow> distinct (accepted accept s cs)"
proof (induction cs arbitrary: s)
  case (Cons c cs)
  show ?case
  proof (cases "accept c s")
    case (Some s')
    have u: "usable c" "list_all usable cs"
      using Cons.prems(2) by simp_all
    then have s': "inv s'" "accept c s' = None"
      using accept_inv [OF Cons.prems(1) _ Some] accept_once [OF Cons.prems(1) _ Some] by blast+
    then have "c \<notin> set (accepted accept s' cs)" "distinct (accepted accept s' cs)"
      using accepted_not_refused [OF s'(1) u(2) s'(2)] Cons.IH [OF s'(1) u(2)] by blast+
    then show ?thesis
      using Some by simp
  qed (use Cons in simp)
qed simp

end

lemma next_mono:
  assumes "rv_ok v" "c \<noteq> - 1" "accept_counter c v = Some v'"
  shows "unat (rv_next v') = (if unat c < unat (rv_next v) then unat (rv_next v) else unat c + 1)"
proof -
  have "c < - 1"
    using assms(2) by (simp add: word_order.not_eq_extremum)
  then have "unat (c + 1) = unat c + 1"
    by (rule unat_inc_lt)
  then show ?thesis
    using accept_counter_spec(2) [OF assms(1,3)] by (simp add: word_less_nat_alt)
qed

lemma cells_outside:
  assumes "e < n" "n \<le> m" "m < e + 1024"
  shows "e mod 1024 \<notin> cells n m"
proof
  assume "e mod 1024 \<in> cells n m"
  then obtain j where "n \<le> j" "j < m" "e mod 1024 = j mod 1024"
    by (auto simp: cells_def)
  then have "1024 dvd j - e"
    using assms(1) by (intro mod_eq_dvd_iff_nat [THEN iffD1]) auto
  then show False
    using \<open>n \<le> j\<close> \<open>j < m\<close> assms by (auto dest: dvd_imp_le)
qed

lemma refused_accepted:
  assumes "rv_ok v" "c \<noteq> - 1" "accept_counter c v = Some v'"
  shows "refused c v'"
  using accept_counter_spec(3) [OF assms(1,3), of "unat c mod 1024"] next_mono [OF assms]
  by (simp add: refused_def check_bit_cbit word_less_nat_alt split: if_splits)

lemma refused_stays:
  assumes "rv_ok v" "c \<noteq> - 1" "accept_counter c v = Some v'" "refused d v"
  shows "refused d v'"
proof -
  have nx: "unat (rv_next v') = (if unat c < unat (rv_next v) then unat (rv_next v) else unat c + 1)"
    by (rule next_mono [OF assms(1-3)])
  then have mono: "unat (rv_next v) \<le> unat (rv_next v')" by simp
  show ?thesis
  proof (cases "d + N_BITS < rv_next v'")
    case False
    then have old: "\<not> d + N_BITS < rv_next v"
      using mono by (auto simp: word_less_nat_alt)
    then have d: "unat d < unat (rv_next v)" "cbit (rv_bitmap v) (unat d mod 1024)"
      using assms(4) by (simp_all add: refused_def check_bit_cbit word_less_nat_alt)
    have win: "unat (rv_next v') \<le> unat d + 1024"
      using False unat_plus_N_BITS [of d] d(1) mono by (auto simp: word_less_nat_alt split: if_splits)
    have "cbit (rv_bitmap v') (unat d mod 1024)"
    proof (cases "c < rv_next v")
      case False
      then have le: "unat (rv_next v) \<le> unat c" "unat c < unat d + 1024"
        using nx win by (auto simp: word_less_nat_alt)
      then show ?thesis
        using accept_counter_spec(3) [OF assms(1,3), of "unat d mod 1024"] cells_outside [OF d(1) le] d by auto
    qed (use accept_counter_spec(3) [OF assms(1,3), of "unat d mod 1024"] d in auto)
    then show ?thesis
      using d(1) mono by (simp add: refused_def check_bit_cbit word_less_nat_alt)
  qed (simp add: refused_def)
qed

interpretation counter_window: replay_filter accept_counter rv_ok "\<lambda>c. c \<noteq> - 1"
proof
  fix v c v' d
  assume "rv_ok v" "c \<noteq> - 1" "accept_counter c v = Some v'"
  note a = this
  show ok: "rv_ok v'"
    by (rule accept_counter_spec [OF a(1,3)])
  show "accept_counter c v' = None"
    using refused_accepted [OF a] accept_counter_None_iff [OF ok] by simp
  show "accept_counter d v' = None" if "accept_counter d v = None"
    using that refused_stays [OF a] accept_counter_None_iff [OF ok] accept_counter_None_iff [OF a(1)] by simp
qed

section \<open>The window as a set\<close>

text \<open>
  What the bit map stands for: the first counter not yet passed, and the set of counters
  accepted so far. A counter is acceptable when it is new and at most 1024 behind.
\<close>

definition window_rel :: "validator \<Rightarrow> nat \<Rightarrow> nat set \<Rightarrow> bool" where
  "window_rel v n S \<longleftrightarrow>
     rv_ok v \<and> unat (rv_next v) = n \<and> S \<subseteq> {..<n} \<and>
     (\<forall>c < n. n \<le> c + 1024 \<longrightarrow> cbit (rv_bitmap v) (c mod 1024) = (c \<in> S))"

lemma window_rel_default: "window_rel validator_default 0 {}"
  by (simp add: window_rel_def rv_ok_def validator_default_def)

lemma window_rel_refused:
  assumes "window_rel v n S" "unat c + 1024 < 2 ^ 64"
  shows "refused c v \<longleftrightarrow> \<not> (n \<le> unat c + 1024 \<and> unat c \<notin> S)"
proof -
  have "unat (c + N_BITS) = unat c + 1024"
    using assms(2) unat_plus_N_BITS [of c] by simp
  then show ?thesis
    using assms(1) by (auto simp: refused_def check_bit_cbit word_less_nat_alt window_rel_def)
qed

lemma mod_window_neq:
  assumes "(e :: nat) \<noteq> m" "e < m + 1024" "m < e + 1024"
  shows "e mod 1024 \<noteq> m mod 1024"
proof
  assume eq: "e mod 1024 = m mod 1024"
  show False
  proof (cases "e < m")
    case True
    then have "1024 dvd m - e"
      using eq by (intro mod_eq_dvd_iff_nat [THEN iffD1]) auto
    then show False
      using True assms by (auto dest: dvd_imp_le)
  next
    case False
    then have "1024 dvd e - m"
      using eq by (intro mod_eq_dvd_iff_nat [THEN iffD1]) auto
    then show False
      using False assms by (auto dest: dvd_imp_le)
  qed
qed

lemma window_rel_accept:
  assumes "window_rel v n S" "unat c + 1024 < 2 ^ 64" "accept_counter c v = Some v'"
  shows "window_rel v' (max n (unat c + 1)) (insert (unat c) S)"
proof -
  have ok: "rv_ok v" and n: "unat (rv_next v) = n" and S: "S \<subseteq> {..<n}"
    using assms(1) by (auto simp: window_rel_def)
  have "c \<noteq> - 1"
    using assms(2) by (auto simp: unsigned_minus_1_eq_mask mask_eq_exp_minus_1)
  from next_mono [OF ok this assms(3)] have nx: "unat (rv_next v') = max n (unat c + 1)"
    using n by auto
  have "cbit (rv_bitmap v') (e mod 1024) \<longleftrightarrow> e \<in> insert (unat c) S"
    if e: "e < max n (unat c + 1)" "max n (unat c + 1) \<le> e + 1024" for e
  proof (cases "e = unat c")
    case True
    then show ?thesis
      using accept_counter_spec(3) [OF ok assms(3), of "e mod 1024"] by simp
  next
    case ne: False
    have nm: "e mod 1024 \<noteq> unat c mod 1024" if "unat c < e + 1024" "e < unat c + 1024"
      using mod_window_neq [OF ne] that by simp
    have spec: "cbit (rv_bitmap v') (e mod 1024) \<longleftrightarrow> e mod 1024 = unat c mod 1024 \<or> cbit (rv_bitmap v) (e mod 1024) \<and>
        (unat c < n \<or> unat c - n < 1024 \<and> e mod 1024 \<notin> cells n (unat c))"
      using accept_counter_spec(3) [OF ok assms(3), of "e mod 1024"] n by (simp add: word_less_nat_alt)
    have acc: "n \<le> unat c + 1024"
      using accept_counter_None_iff [OF ok, of c] assms(3) window_rel_refused [OF assms(1,2)] by auto
    have rel: "e < n \<Longrightarrow> n \<le> e + 1024 \<Longrightarrow> cbit (rv_bitmap v) (e mod 1024) \<longleftrightarrow> e \<in> S"
      using assms(1) by (auto simp: window_rel_def)
    show ?thesis
    proof (cases "unat c < n")
      case True
      then show ?thesis
        using spec rel nm ne e acc by auto
    next
      case False
      then have lt: "e < unat c" "unat c < e + 1024"
        using e ne by auto
      show ?thesis
      proof (cases "e < n")
        case True
        then show ?thesis
          using spec rel nm ne e lt False cells_outside [of e n "unat c"] by auto
      next
        case ge: False
        then have "e mod 1024 \<in> cells n (unat c)" "e \<notin> S"
          using lt S by (auto simp: cells_def)
        then show ?thesis
          using spec nm ne lt False by auto
      qed
    qed
  qed
  then show ?thesis
    using accept_counter_spec(1) [OF ok assms(3)] nx S by (auto simp: window_rel_def)
qed

lemma will_accept_iff:
  "unat c + 1024 < 2 ^ 64 \<Longrightarrow> will_accept c v = Ok () \<longleftrightarrow> \<not> refused c v"
  using unat_plus_N_BITS [of c]
  by (auto simp: will_accept_def refused_def word_less_nat_alt word_le_nat_alt split: if_splits)

lemma accept_fresh:
  assumes "rv_ok v" "rv_next v \<le> c" "rv_next v \<le> c + N_BITS"
  shows "\<exists>v'. accept_counter c v = Some v' \<and> rv_ok v' \<and> rv_next v' = c + 1"
proof -
  have "\<not> refused c v"
    using assms(2,3) by (simp add: refused_def not_less)
  then obtain v' where v': "accept_counter c v = Some v'"
    using accept_counter_None_iff [OF assms(1), of c] by auto
  show ?thesis
    using accept_counter_spec(1,2) [OF assms(1) v'] v' assms(2) by (simp add: not_less [symmetric])
qed

section \<open>Properties\<close>

text \<open>
  No data packet is accepted twice: whatever counters arrive, in whatever order and
  however often, those the window accepts are pairwise distinct (the counter \<open>2^64 - 1\<close>, which
  would wrap \<open>next\<close> to 0, left aside).
\<close>

theorem replay_no_duplicates:
  assumes "list_all (\<lambda>c. c \<noteq> - 1) cs"
  shows "distinct (accepted accept_counter validator_default cs)"
  using counter_window.accepted_distinct [OF _ assms] by (simp add: rv_ok_def validator_default_def)

theorem replay_no_duplicates_witness:
  "distinct (accepted accept_counter validator_default [0, 5, 3, 5, 3, 2000, 1500, 5, 2000])"
  by (rule replay_no_duplicates) simp

text \<open>
  C13. For counters below \<open>2^64 - 1024\<close>, where no sum of the code wraps, the 1024-bit map implements
  the window as a set: from related states, such a counter is accepted exactly when it is new
  and at most 1024 behind the highest, the quick check agrees, and the states are related again
  with the counter in the set. In particular marking it returns.
\<close>

theorem replay_window_refines_set:
  assumes "window_rel v n S" and "unat c + 1024 < 2 ^ 64"
  shows "if n \<le> unat c + 1024 \<and> unat c \<notin> S
         then will_accept c v = Ok () \<and>
              (\<exists>v'. receiving_counter_mark c v = Some (Ok (), v') \<and>
                    window_rel v' (max n (unat c + 1)) (insert (unat c) S))
         else will_accept c v \<noteq> Ok () \<and> receiving_counter_mark c v = Some (Err InvalidCounter, v)"
proof -
  have ok: "rv_ok v"
    using assms(1) by (simp add: window_rel_def)
  show ?thesis
  proof (cases "refused c v")
    case True
    then show ?thesis
      using window_rel_refused [OF assms] will_accept_iff [OF assms(2)] mark_did_receive_spec(1) [OF ok]
      by (simp add: receiving_counter_mark_def)
  next
    case False
    then obtain v' where v': "accept_counter c v = Some v'"
      using accept_counter_None_iff [OF ok] by auto
    then have "receiving_counter_mark c v = Some (Ok (), v')"
      by (auto simp: accept_counter_def split: option.splits sum.splits prod.splits)
    then show ?thesis
      using False window_rel_refused [OF assms] will_accept_iff [OF assms(2)] window_rel_accept [OF assms v'] by auto
  qed
qed

theorem replay_window_refines_set_witness:
  "\<exists>v'. receiving_counter_mark 7 validator_default = Some (Ok (), v') \<and> window_rel v' 8 {7}"
  using replay_window_refines_set [OF window_rel_default, of 7] by auto

text \<open>
  C33. The counter \<open>2^64 - 1\<close> resets the window: received while \<open>next\<close> is small, it is accepted,
  \<open>next\<close> wraps to 0, and a counter accepted before is accepted again.
\<close>

theorem replay_after_counter_wrap:
  "accepted accept_counter validator_default [5, - 1, 5] = [5, - 1, 5]"
proof -
  obtain v1 where v1: "accept_counter 5 validator_default = Some v1" "rv_ok v1" "rv_next v1 = 6"
    using accept_fresh [of validator_default 5] by (auto simp: rv_ok_def validator_default_def)
  obtain v2 where v2: "accept_counter (- 1) v1 = Some v2" "rv_ok v2" "rv_next v2 = 0"
    using accept_fresh [of v1 "- 1"] v1 by (auto simp: N_BITS_def)
  obtain v3 where "accept_counter 5 v2 = Some v3"
    using accept_fresh [of v2 5] v2 by auto
  then show ?thesis
    using v1(1) v2(1) by simp
qed

end
