(* ===== verification/Crypto.thy ===== *)
theory Crypto
  imports ReplayWindow
begin

text \<open>
  The cryptographic primitives the protocol calls, all from external crates: Blake2s (plain,
  HMAC and keyed), ChaCha20-Poly1305, XChaCha20-Poly1305 and X25519. They are the fields of a
  record every definition takes as its first argument. \<open>crypto_ok\<close> collects what the code
  relies on: output lengths, that opening succeeds exactly on what was sealed under the same
  key, nonce and associated data, and that Diffie-Hellman commutes. The wrappers of
  \<open>noise/handshake.rs\<close> around the primitives are modelled here.
\<close>

record crypto =
  cr_hash :: "bytes \<Rightarrow> bytes"
  cr_hmac :: "bytes \<Rightarrow> bytes \<Rightarrow> bytes"
  cr_mac16 :: "bytes \<Rightarrow> bytes \<Rightarrow> bytes"
  cr_mac24 :: "bytes \<Rightarrow> bytes \<Rightarrow> bytes"
  cr_seal :: "bytes \<Rightarrow> bytes \<Rightarrow> bytes \<Rightarrow> bytes \<Rightarrow> bytes"
  cr_open :: "bytes \<Rightarrow> bytes \<Rightarrow> bytes \<Rightarrow> bytes \<Rightarrow> bytes option"
  cr_xseal :: "bytes \<Rightarrow> bytes \<Rightarrow> bytes \<Rightarrow> bytes \<Rightarrow> bytes"
  cr_xopen :: "bytes \<Rightarrow> bytes \<Rightarrow> bytes \<Rightarrow> bytes \<Rightarrow> bytes option"
  cr_pub :: "bytes \<Rightarrow> bytes"
  cr_dh :: "bytes \<Rightarrow> bytes \<Rightarrow> bytes"

section \<open>Hashes\<close>

definition KEY_LEN :: nat where "KEY_LEN = 32"

definition b2s_hash :: "crypto \<Rightarrow> bytes \<Rightarrow> bytes \<Rightarrow> bytes" where
  "b2s_hash cr data1 data2 = cr_hash cr (data1 @ data2)"

definition b2s_hmac :: "crypto \<Rightarrow> bytes \<Rightarrow> bytes \<Rightarrow> bytes" where
  "b2s_hmac cr key data1 = cr_hmac cr key data1"

definition b2s_hmac2 :: "crypto \<Rightarrow> bytes \<Rightarrow> bytes \<Rightarrow> bytes \<Rightarrow> bytes" where
  "b2s_hmac2 cr key data1 data2 = cr_hmac cr key (data1 @ data2)"

definition b2s_keyed_mac_16 :: "crypto \<Rightarrow> bytes \<Rightarrow> bytes \<Rightarrow> bytes" where
  "b2s_keyed_mac_16 cr key data1 = cr_mac16 cr key data1"

definition b2s_keyed_mac_16_2 :: "crypto \<Rightarrow> bytes \<Rightarrow> bytes \<Rightarrow> bytes \<Rightarrow> bytes" where
  "b2s_keyed_mac_16_2 cr key data1 data2 = cr_mac16 cr key (data1 @ data2)"

definition b2s_mac_24 :: "crypto \<Rightarrow> bytes \<Rightarrow> bytes \<Rightarrow> bytes" where
  "b2s_mac_24 cr key data1 = cr_mac24 cr key data1"

section \<open>Authenticated encryption\<close>

definition counter_nonce :: "u64 \<Rightarrow> bytes" where
  "counter_nonce counter = replicate 4 0 @ le_bytes 8 counter"

text \<open>
  Sealing writes into a buffer that must hold the data and exactly the 16 bytes of the tag;
  opening copies the plaintext into a buffer of exactly its length. Any other length panics.
\<close>

definition aead_chacha20_seal :: "crypto \<Rightarrow> nat \<Rightarrow> bytes \<Rightarrow> u64 \<Rightarrow> bytes \<Rightarrow> bytes \<Rightarrow> bytes option" where
  "aead_chacha20_seal cr ciphertext_len key counter data aad =
     (if ciphertext_len = length data + 16 then Some (cr_seal cr key (counter_nonce counter) aad data) else None)"

definition aead_chacha20_open ::
    "crypto \<Rightarrow> nat \<Rightarrow> bytes \<Rightarrow> u64 \<Rightarrow> bytes \<Rightarrow> bytes \<Rightarrow> (WireGuardError, bytes) fallible" where
  "aead_chacha20_open cr buffer_len key counter data aad =
     (case cr_open cr key (counter_nonce counter) aad data of
        None \<Rightarrow> Some (Err InvalidAeadTag)
      | Some plaintext \<Rightarrow> if length plaintext = buffer_len then Some (Ok plaintext) else None)"

section \<open>What the primitives promise\<close>

definition aead_law ::
    "(bytes \<Rightarrow> bytes \<Rightarrow> bytes \<Rightarrow> bytes \<Rightarrow> bytes) \<Rightarrow> (bytes \<Rightarrow> bytes \<Rightarrow> bytes \<Rightarrow> bytes \<Rightarrow> bytes option) \<Rightarrow> bool" where
  "aead_law seal unseal \<longleftrightarrow>
     (\<forall>k n a c p. unseal k n a c = Some p \<longleftrightarrow> c = seal k n a p) \<and>
     (\<forall>k n a p. length (seal k n a p) = length p + 16)"

definition crypto_ok :: "crypto \<Rightarrow> bool" where
  "crypto_ok cr \<longleftrightarrow>
     aead_law (cr_seal cr) (cr_open cr) \<and> aead_law (cr_xseal cr) (cr_xopen cr) \<and>
     (\<forall>d. length (cr_hash cr d) = 32) \<and> (\<forall>k d. length (cr_hmac cr k d) = 32) \<and>
     (\<forall>k d. length (cr_mac16 cr k d) = 16) \<and> (\<forall>k d. length (cr_mac24 cr k d) = 24) \<and>
     (\<forall>k. length (cr_pub cr k) = 32) \<and>
     (\<forall>a b. cr_dh cr a (cr_pub cr b) = cr_dh cr b (cr_pub cr a))"

lemma open_iff: "crypto_ok cr \<Longrightarrow> cr_open cr k n a c = Some p \<longleftrightarrow> c = cr_seal cr k n a p"
  and xopen_iff: "crypto_ok cr \<Longrightarrow> cr_xopen cr k n a c = Some p \<longleftrightarrow> c = cr_xseal cr k n a p"
  and length_seal: "crypto_ok cr \<Longrightarrow> length (cr_seal cr k n a p) = length p + 16"
  and length_xseal: "crypto_ok cr \<Longrightarrow> length (cr_xseal cr k n a p) = length p + 16"
  and length_hash: "crypto_ok cr \<Longrightarrow> length (cr_hash cr d) = 32"
  and length_hmac: "crypto_ok cr \<Longrightarrow> length (cr_hmac cr k d) = 32"
  and length_mac16: "crypto_ok cr \<Longrightarrow> length (cr_mac16 cr k d) = 16"
  and length_mac24: "crypto_ok cr \<Longrightarrow> length (cr_mac24 cr k d) = 24"
  and length_pub: "crypto_ok cr \<Longrightarrow> length (cr_pub cr s) = 32"
  and dh_comm: "crypto_ok cr \<Longrightarrow> cr_dh cr a (cr_pub cr b) = cr_dh cr b (cr_pub cr a)"
  by (simp_all add: crypto_ok_def aead_law_def)

lemmas crypto_laws = open_iff xopen_iff length_seal length_xseal length_hash length_hmac length_mac16 length_mac24
  length_pub

lemma open_seal [simp]: "crypto_ok cr \<Longrightarrow> cr_open cr k n a (cr_seal cr k n a p) = Some p"
  by (simp add: open_iff)

lemma xopen_xseal [simp]: "crypto_ok cr \<Longrightarrow> cr_xopen cr k n a (cr_xseal cr k n a p) = Some p"
  by (simp add: xopen_iff)

lemma open_length: "crypto_ok cr \<Longrightarrow> cr_open cr k n a c = Some p \<Longrightarrow> length c = length p + 16"
  by (simp add: open_iff length_seal)

lemma length_counter_nonce [simp, length_simps]: "length (counter_nonce c) = 12"
  by (simp add: counter_nonce_def)

lemma counter_nonce_inject [simp]: "counter_nonce c = counter_nonce d \<longleftrightarrow> c = d"
  by (simp add: counter_nonce_def le64.enc_inject)

lemma aead_open_seal:
  "crypto_ok cr \<Longrightarrow> length p = n \<Longrightarrow>
   aead_chacha20_open cr n k c (cr_seal cr k (counter_nonce c) a p) a = Some (Ok p)"
  by (simp add: aead_chacha20_open_def)

lemma aead_open_total:
  "crypto_ok cr \<Longrightarrow> length d = n + 16 \<Longrightarrow> aead_chacha20_open cr n k c d a \<noteq> None"
  by (auto simp: aead_chacha20_open_def dest: open_length split: option.splits)

lemma bind_res_not_None:
  "m \<noteq> None \<Longrightarrow> (\<And>x. m = Some (Inr x) \<Longrightarrow> f x \<noteq> None) \<Longrightarrow> bind_res m f \<noteq> None"
  by (auto simp: bind_res_def split: option.splits sum.splits)

lemma if_not_None: "(b \<Longrightarrow> x \<noteq> None) \<Longrightarrow> (\<not> b \<Longrightarrow> y \<noteq> None) \<Longrightarrow> (if b then x else y) \<noteq> None"
  by simp

section \<open>A concrete instance\<close>

text \<open>Checksums in place of the primitives: insecure, but with every law the code relies on.\<close>

definition checksum_tag :: "bytes \<Rightarrow> bytes \<Rightarrow> bytes \<Rightarrow> bytes \<Rightarrow> bytes" where
  "checksum_tag k n a p = replicate 16 (sum_list k + 3 * sum_list n + 5 * sum_list a + 7 * sum_list p)"

definition checksum_seal :: "bytes \<Rightarrow> bytes \<Rightarrow> bytes \<Rightarrow> bytes \<Rightarrow> bytes" where
  "checksum_seal k n a p = p @ checksum_tag k n a p"

definition checksum_open :: "bytes \<Rightarrow> bytes \<Rightarrow> bytes \<Rightarrow> bytes \<Rightarrow> bytes option" where
  "checksum_open k n a c =
     (let p = take (length c - 16) c in if c = checksum_seal k n a p then Some p else None)"

definition sample_crypto :: crypto where
  "sample_crypto =
     \<lparr>cr_hash = \<lambda>d. replicate 32 (3 * sum_list d + 1), cr_hmac = \<lambda>k d. replicate 32 (3 * sum_list k + 5 * sum_list d + 1),
      cr_mac16 = \<lambda>k d. replicate 16 (sum_list k + 3 * sum_list d + 1),
      cr_mac24 = \<lambda>k d. replicate 24 (sum_list k + 3 * sum_list d + 1),
      cr_seal = checksum_seal, cr_open = checksum_open, cr_xseal = checksum_seal, cr_xopen = checksum_open,
      cr_pub = \<lambda>k. replicate 32 (sum_list k), cr_dh = \<lambda>k p. replicate 32 (sum_list k + hd p)\<rparr>"

lemma checksum_aead: "aead_law checksum_seal checksum_open"
  by (auto simp: aead_law_def checksum_open_def checksum_seal_def checksum_tag_def Let_def)

lemma sample_crypto_ok: "crypto_ok sample_crypto"
  by (simp add: crypto_ok_def sample_crypto_def checksum_aead add.commute hd_replicate)

end
