(* ===== verification/Session.thy ===== *)
theory Session
  imports Crypto
begin

text \<open>
  Transport sessions (\<open>noise/session.rs\<close>): sealing an IP packet into a data message and opening
  a received one. A destination buffer is modelled by its length, since every byte of the
  returned slice is written; a buffer that is too small panics (\<^const>\<open>None\<close>). A session changes
  only its sending counter and its replay window.
\<close>

definition DATA_OFFSET :: nat where "DATA_OFFSET = 16"
definition AEAD_SIZE :: nat where "AEAD_SIZE = 16"

record session =
  receiving_index :: u32
  sending_index :: u32
  receiver :: bytes
  sender :: bytes
  sending_key_counter :: u64
  receiving_key_counter :: validator

definition Session_new :: "u32 \<Rightarrow> u32 \<Rightarrow> bytes \<Rightarrow> bytes \<Rightarrow> session" where
  "Session_new local_idx peer_idx receiving_key sending_key =
     \<lparr>receiving_index = local_idx, sending_index = peer_idx, receiver = receiving_key, sender = sending_key,
      sending_key_counter = 0, receiving_key_counter = validator_default\<rparr>"

definition session_local_index :: "session \<Rightarrow> nat" where
  "session_local_index s = unat (receiving_index s)"

definition format_packet_data :: "crypto \<Rightarrow> bytes \<Rightarrow> nat \<Rightarrow> u32 \<Rightarrow> nat \<Rightarrow> session \<Rightarrow> (bytes \<times> session) option" where
  "format_packet_data cr src dst_len msg_type content_padding s =
     (let content_len = length src + content_padding in
      if dst_len < content_len + DATA_OVERHEAD_SZ then None
      else let counter = sending_key_counter s;
               data = cr_seal cr (sender s) (counter_nonce counter) [] (src @ replicate content_padding 0)
           in Some (le_bytes 4 msg_type @ le_bytes 4 (sending_index s) @ le_bytes 8 counter @ data,
                    s\<lparr>sending_key_counter := counter + 1\<rparr>))"

definition receive_packet_data :: "crypto \<Rightarrow> packet_data \<Rightarrow> nat \<Rightarrow> session \<Rightarrow> ((WireGuardError + bytes) \<times> session) option" where
  "receive_packet_data cr packet dst_len s =
     (let ct = pd_encrypted_encapsulated_packet packet; counter = pd_counter packet in
      if dst_len < length ct then None
      else if pd_receiver_idx packet \<noteq> receiving_index s then Some (Err WrongIndex, s)
      else case receiving_counter_quick_check counter (receiving_key_counter s) of
        Inl e \<Rightarrow> Some (Err e, s)
      | Inr _ \<Rightarrow>
         (case cr_open cr (receiver s) (counter_nonce counter) [] ct of
            None \<Rightarrow> Some (Err InvalidAeadTag, s)
          | Some pt \<Rightarrow>
             (case receiving_counter_mark counter (receiving_key_counter s) of
                None \<Rightarrow> None
              | Some (r, v) \<Rightarrow>
                  Some (case r of Inl e \<Rightarrow> Err e | Inr _ \<Rightarrow> Ok pt, s\<lparr>receiving_key_counter := v\<rparr>))))"

definition session_packet_cnt :: "session \<Rightarrow> u64 \<times> u64" where
  "session_packet_cnt s = current_packet_cnt (receiving_key_counter s)"

section \<open>Sending\<close>

definition session_ok :: "session \<Rightarrow> bool" where
  "session_ok s \<longleftrightarrow> rv_ok (receiving_key_counter s)"

lemma session_ok_new [simp]: "session_ok (Session_new i j rk sk)"
  by (simp add: session_ok_def Session_new_def rv_ok_def validator_default_def)

lemma format_packet_data_eq:
  "length src + pad + 32 \<le> dst_len \<Longrightarrow>
   format_packet_data cr src dst_len ty pad s =
     Some (le_bytes 4 ty @ le_bytes 4 (sending_index s) @ le_bytes 8 (sending_key_counter s) @
             cr_seal cr (sender s) (counter_nonce (sending_key_counter s)) [] (src @ replicate pad 0),
           s\<lparr>sending_key_counter := sending_key_counter s + 1\<rparr>)"
  by (simp add: format_packet_data_def DATA_OVERHEAD_SZ_def Let_def)

lemma format_packet_data_length:
  assumes "crypto_ok cr" "format_packet_data cr src dst_len ty pad s = Some (msg, s')"
  shows "length msg = length src + pad + 32" and "length msg \<le> dst_len"
  using assms by (auto simp: format_packet_data_def Let_def DATA_OVERHEAD_SZ_def length_seal split: if_splits)

text \<open>The data packet a formatted message parses to.\<close>

definition packet_of :: "bytes \<Rightarrow> packet_data" where
  "packet_of msg = \<lparr>pd_receiver_idx = of_le_bytes (slice msg 4 8), pd_counter = of_le_bytes (slice msg 8 16),
                    pd_encrypted_encapsulated_packet = drop 16 msg\<rparr>"

lemma packet_of_fields:
  "packet_of (le_bytes 4 (ty :: u32) @ le_bytes 4 i @ le_bytes 8 c @ body) =
     \<lparr>pd_receiver_idx = i, pd_counter = c, pd_encrypted_encapsulated_packet = body\<rparr>"
proof -
  have "of_le_bytes (slice (le_bytes 4 ty @ le_bytes 4 i @ le_bytes 8 c @ body) 4 8) = i"
    by (rule le32.read_field) simp_all
  moreover have "of_le_bytes (slice ((le_bytes 4 ty @ le_bytes 4 i) @ le_bytes 8 c @ body) 8 16) = c"
    by (rule le64.read_field) simp_all
  ultimately show ?thesis
    by (simp add: packet_of_def)
qed

text \<open>The messages of a run of calls, and the counters they carry.\<close>

fun send_all :: "crypto \<Rightarrow> (bytes \<times> nat \<times> u32 \<times> nat) list \<Rightarrow> session \<Rightarrow> (bytes list \<times> session) option" where
  "send_all cr [] s = Some ([], s)"
| "send_all cr ((src, dst_len, ty, pad) # xs) s =
     (case format_packet_data cr src dst_len ty pad s of
        None \<Rightarrow> None
      | Some (msg, s') \<Rightarrow> map_option (apfst ((#) msg)) (send_all cr xs s'))"

lemma send_all_counters:
  "send_all cr xs s = Some (msgs, s') \<Longrightarrow>
   map (pd_counter \<circ> packet_of) msgs = map (\<lambda>i. sending_key_counter s + of_nat i) [0..<length xs] \<and>
   sending_key_counter s' = sending_key_counter s + of_nat (length xs)"
proof (induction cr xs s arbitrary: msgs rule: send_all.induct)
  case (2 cr src dst_len ty pad xs s)
  then obtain msg s1 ms where *: "format_packet_data cr src dst_len ty pad s = Some (msg, s1)"
    "send_all cr xs s1 = Some (ms, s')" "msgs = msg # ms"
    by (auto split: option.splits)
  then have "pd_counter (packet_of msg) = sending_key_counter s" "sending_key_counter s1 = sending_key_counter s + 1"
    by (auto simp: format_packet_data_def Let_def packet_of_fields split: if_splits)
  with * 2 show ?case
    by (simp add: map_upt_Suc add.assoc del: upt_Suc)
qed simp

lemma distinct_consecutive:
  "n \<le> 2 ^ 64 \<Longrightarrow> distinct (map (\<lambda>i. (c :: u64) + of_nat i) [0..<n])"
  by (auto simp: distinct_map inj_on_def word_of_nat_eq_iff take_bit_nat_eq_self_iff [THEN iffD2])

section \<open>Receiving\<close>

definition session_accept :: "crypto \<Rightarrow> packet_data \<Rightarrow> session \<Rightarrow> session option" where
  "session_accept cr p s =
     (case receive_packet_data cr p (length (pd_encrypted_encapsulated_packet p)) s of
        Some (Inr _, s') \<Rightarrow> Some s' | _ \<Rightarrow> None)"

definition authentic :: "crypto \<Rightarrow> session \<Rightarrow> packet_data \<Rightarrow> bool" where
  "authentic cr s p \<longleftrightarrow> pd_receiver_idx p = receiving_index s \<and>
     cr_open cr (receiver s) (counter_nonce (pd_counter p)) [] (pd_encrypted_encapsulated_packet p) \<noteq> None"

lemma quick_check_of_mark:
  assumes "rv_ok v" "accept_counter c v = Some v'"
  shows "receiving_counter_quick_check c v = Ok ()"
proof -
  have "\<not> refused c v"
    using assms accept_counter_None_iff [OF assms(1), of c] by simp
  then show ?thesis
    by (auto simp: receiving_counter_quick_check_def will_accept_def refused_def not_le)
qed

lemma mark_cases:
  assumes "rv_ok v"
  shows "receiving_counter_mark c v =
     (case accept_counter c v of Some v' \<Rightarrow> Some (Ok (), v') | None \<Rightarrow> Some (Err InvalidCounter, v))"
proof (cases "refused c v")
  case True
  then show ?thesis
    using mark_did_receive_spec(1) [OF assms True] accept_counter_None_iff [OF assms, of c]
    by (simp add: receiving_counter_mark_def)
next
  case False
  then obtain v' where "accept_counter c v = Some v'"
    using accept_counter_None_iff [OF assms, of c] by auto
  then show ?thesis
    by (auto simp: accept_counter_def split: option.splits sum.splits prod.splits)
qed

lemma session_accept_eq:
  assumes "session_ok s"
  shows "session_accept cr p s =
     (if authentic cr s p
      then map_option (\<lambda>v. s\<lparr>receiving_key_counter := v\<rparr>) (accept_counter (pd_counter p) (receiving_key_counter s))
      else None)"
  using assms quick_check_of_mark [of "receiving_key_counter s" "pd_counter p"]
  by (auto simp: session_accept_def receive_packet_data_def authentic_def Let_def session_ok_def mark_cases
      split: option.splits sum.splits)

lemma session_accept_ok: "session_ok s \<Longrightarrow> session_accept cr p s = Some s' \<Longrightarrow> session_ok s'"
  by (auto simp: session_accept_eq session_ok_def dest: accept_counter_spec(1) split: if_splits)

lemma session_accept_authentic:
  "session_ok s \<Longrightarrow> session_accept cr p s = Some s' \<Longrightarrow> authentic cr s' = authentic cr s"
  by (auto simp: session_accept_eq authentic_def fun_eq_iff split: if_splits)

text \<open>A session accepts what its window accepts of the authentic packets.\<close>

lemma accepted_session:
  "session_ok s \<Longrightarrow>
   map pd_counter (accepted (session_accept cr) s ps) =
     accepted accept_counter (receiving_key_counter s) (map pd_counter (filter (authentic cr s) ps))"
proof (induction ps arbitrary: s)
  case (Cons p ps)
  show ?case
  proof (cases "session_accept cr p s")
    case None
    then show ?thesis
      using Cons by (auto simp: session_accept_eq split: if_splits)
  next
    case (Some s')
    then have "session_ok s'" "authentic cr s' = authentic cr s"
      using Cons.prems session_accept_ok session_accept_authentic by blast+
    with Some Cons show ?thesis
      by (auto simp: session_accept_eq split: if_splits)
  qed
qed simp

text \<open>The receiving half of a session opens what the sending half of its peer formats.\<close>

lemma receive_formatted:
  assumes "crypto_ok cr" "sender a = receiver b" "sending_index a = receiving_index b" "session_ok b"
    and "\<not> refused (sending_key_counter a) (receiving_key_counter b)"
    and "format_packet_data cr src dst_len ty pad a = Some (msg, a')" "length src + pad + 16 \<le> dst_len'"
  shows "\<exists>v. accept_counter (sending_key_counter a) (receiving_key_counter b) = Some v \<and>
           receive_packet_data cr (packet_of msg) dst_len' b = Some (Ok (src @ replicate pad 0), b\<lparr>receiving_key_counter := v\<rparr>)"
proof -
  let ?c = "sending_key_counter a"
  have ok: "rv_ok (receiving_key_counter b)"
    using assms(4) by (simp add: session_ok_def)
  obtain v where v: "accept_counter ?c (receiving_key_counter b) = Some v"
    using accept_counter_None_iff [OF ok, of ?c] assms(5) by auto
  have "packet_of msg = \<lparr>pd_receiver_idx = sending_index a, pd_counter = ?c,
      pd_encrypted_encapsulated_packet = cr_seal cr (sender a) (counter_nonce ?c) [] (src @ replicate pad 0)\<rparr>"
    using assms(6) by (auto simp: format_packet_data_def Let_def packet_of_fields split: if_splits)
  then show ?thesis
    using assms(1-3,7) v quick_check_of_mark [OF ok v]
    by (simp add: receive_packet_data_def Let_def length_seal mark_cases [OF ok])
qed

section \<open>Properties\<close>

text \<open>
  A data message formatted by one end of a session is opened by the other end to the packet
  sent, followed by the content padding, whenever the window has not seen its counter; the
  window then contains it, and the destination buffers need only the sizes stated.
\<close>

theorem session_data_roundtrip:
  assumes "crypto_ok cr" "sender a = receiver b" "sending_index a = receiving_index b"
    and "window_rel (receiving_key_counter b) n S" "unat (sending_key_counter a) + 1024 < 2 ^ 64"
    and "n \<le> unat (sending_key_counter a) + 1024" "unat (sending_key_counter a) \<notin> S"
    and "length src + pad + 32 \<le> dst_len" "length src + pad + 16 \<le> dst_len'"
  shows "\<exists>msg a' b'. format_packet_data cr src dst_len ty pad a = Some (msg, a') \<and>
           receive_packet_data cr (packet_of msg) dst_len' b = Some (Ok (src @ replicate pad 0), b') \<and>
           sending_key_counter a' = sending_key_counter a + 1 \<and>
           window_rel (receiving_key_counter b') (max n (unat (sending_key_counter a) + 1))
             (insert (unat (sending_key_counter a)) S)"
proof -
  have fmt: "\<exists>msg a'. format_packet_data cr src dst_len ty pad a = Some (msg, a') \<and> sending_key_counter a' = sending_key_counter a + 1"
    by (simp add: format_packet_data_eq [OF assms(8)])
  have "session_ok b" "\<not> refused (sending_key_counter a) (receiving_key_counter b)"
    using assms(4) window_rel_refused [OF assms(4,5)] assms(6,7) by (simp_all add: window_rel_def session_ok_def)
  note rcv = receive_formatted [OF assms(1-3) this _ assms(9)]
  show ?thesis
    using fmt rcv window_rel_accept [OF assms(4,5)] by fastforce
qed

theorem session_data_roundtrip_witness:
  "\<exists>msg a' b'. format_packet_data sample_crypto [0x45, 1, 2] 40 4 5 (Session_new 1 2 [7] [9]) = Some (msg, a') \<and>
     receive_packet_data sample_crypto (packet_of msg) 24 (Session_new 2 1 [9] [7]) =
       Some (Ok [0x45, 1, 2, 0, 0, 0, 0, 0], b')"
proof -
  have pad: "[0x45, 1, 2] @ replicate 5 0 = [0x45, 1, 2, 0, 0, 0, 0, 0 :: u8]"
    by (simp add: numeral_eq_Suc)
  have "\<exists>msg a' b'. format_packet_data sample_crypto [0x45, 1, 2] 40 4 5 (Session_new 1 2 [7] [9]) = Some (msg, a') \<and>
      receive_packet_data sample_crypto (packet_of msg) 24 (Session_new 2 1 [9] [7]) =
        Some (Ok ([0x45, 1, 2] @ replicate 5 0), b') \<and>
      sending_key_counter a' = sending_key_counter (Session_new 1 2 [7] [9]) + 1 \<and>
      window_rel (receiving_key_counter b') (max 0 (unat (sending_key_counter (Session_new 1 2 [7] [9])) + 1))
        (insert (unat (sending_key_counter (Session_new 1 2 [7] [9]))) {})"
    by (rule session_data_roundtrip [OF sample_crypto_ok])
      (simp_all add: Session_new_def window_rel_default)
  then show ?thesis
    unfolding pad by blast
qed

text \<open>
  C8. A session accepts no two data packets with the same counter, below the last one: of any
  sequence of packets, forged or replayed, in any order, none of which carries the counter
  \<open>2^64 - 1\<close>, those it accepts carry distinct counters. (That last counter wraps the window; what
  happens then is shown with the window.)
\<close>

theorem session_no_replay:
  assumes "list_all (\<lambda>p. pd_counter p \<noteq> - 1) ps"
  shows "distinct (map pd_counter (accepted (session_accept cr) (Session_new i j rk sk) ps))"
proof -
  have "list_all (\<lambda>c. c \<noteq> - 1) (map pd_counter (filter (authentic cr (Session_new i j rk sk)) ps))"
    using assms by (auto simp: list_all_iff)
  then show ?thesis
    using counter_window.accepted_distinct [of "receiving_key_counter (Session_new i j rk sk)"]
    by (simp add: accepted_session) (simp add: Session_new_def rv_ok_def validator_default_def)
qed

theorem session_no_replay_witness:
  "distinct (map pd_counter (accepted (session_accept sample_crypto) (Session_new 1 2 [7] [9])
     (replicate 3 \<lparr>pd_receiver_idx = 1, pd_counter = 4,
                   pd_encrypted_encapsulated_packet = checksum_seal [7] (counter_nonce 4) [] [1, 2]\<rparr>)))"
  by (rule session_no_replay) (simp add: list_all_iff)

text \<open>
  C12. The sealing nonces of a session are used once: in any run of at most 2^64 calls the
  messages carry pairwise distinct counters, and the nonce determines the counter.
\<close>

theorem session_nonces_distinct:
  assumes "send_all cr xs s = Some (msgs, s')" "length xs \<le> 2 ^ 64"
  shows "distinct (map (counter_nonce \<circ> pd_counter \<circ> packet_of) msgs)"
proof -
  have "distinct (map (pd_counter \<circ> packet_of) msgs)"
    using send_all_counters [OF assms(1)] distinct_consecutive [OF assms(2)] by simp
  then show ?thesis
    by (auto simp: distinct_map inj_on_def)
qed

theorem session_nonces_distinct_witness:
  "case send_all sample_crypto [([1], 64, 4, 0), ([1], 64, 4, 0), ([2, 3], 64, 4, 1)] (Session_new 1 2 [7] [9]) of
     None \<Rightarrow> False
   | Some (msgs, s') \<Rightarrow> distinct (map (counter_nonce \<circ> pd_counter \<circ> packet_of) msgs)"
proof -
  obtain msgs s' where "send_all sample_crypto [([1], 64, 4, 0), ([1], 64, 4, 0), ([2, 3], 64, 4, 1)]
      (Session_new 1 2 [7] [9]) = Some (msgs, s')"
    by (simp add: format_packet_data_eq)
  from session_nonces_distinct [OF this] this show ?thesis
    by (auto split: option.splits)
qed

end
