(* ===== verification/Handshake.thy ===== *)
theory Handshake
  imports Session
begin

text \<open>
  The Noise IK handshake (\<open>noise/handshake.rs\<close>): initiation, response and cookie reply, with
  the whole state of \<open>Handshake\<close>. Ephemeral secrets are drawn from the random tape, the clock
  is an argument (nanoseconds). An output buffer is modelled by its length. The functions
  return the result, the new state and the rest of the tape; \<^const>\<open>None\<close> is a panic.
\<close>

definition LABEL_MAC1 :: bytes where
  "LABEL_MAC1 = map char_byte ''mac1----''"

definition LABEL_COOKIE :: bytes where
  "LABEL_COOKIE = map char_byte ''cookie--''"

definition TIMESTAMP_LEN :: nat where "TIMESTAMP_LEN = 12"

definition INITIAL_CHAIN_KEY :: bytes where
  "INITIAL_CHAIN_KEY =
     [96, 226, 109, 174, 243, 39, 239, 192, 46, 195, 53, 226, 160, 37, 210, 208, 22, 235, 66, 6, 248,
      114, 119, 245, 45, 56, 209, 152, 139, 120, 205, 54]"

definition INITIAL_CHAIN_HASH :: bytes where
  "INITIAL_CHAIN_HASH =
     [34, 17, 179, 97, 8, 26, 197, 102, 105, 18, 67, 219, 69, 138, 213, 50, 45, 156, 108, 102, 34,
      147, 232, 183, 14, 225, 156, 101, 186, 7, 158, 243]"

section \<open>Timestamps\<close>

datatype Tai64N = Tai64N (secs: u64) (nano: u32)

record time_stamper =
  duration_at_start :: nat
  instant_at_start :: nat

definition TAI64_BASE :: u64 where "TAI64_BASE = 2 ^ 62 + 10"

definition TimeStamper_stamp :: "nat \<Rightarrow> time_stamper \<Rightarrow> bytes" where
  "TimeStamper_stamp now ts =
     (let stamp = (now - instant_at_start ts) + duration_at_start ts
      in be_bytes 8 (of_nat (stamp div 10 ^ 9) + TAI64_BASE) @ be_bytes 4 (of_nat (stamp mod 10 ^ 9) :: u32))"

definition Tai64N_zero :: Tai64N where
  "Tai64N_zero = Tai64N 0 0"

definition Tai64N_parse :: "bytes \<Rightarrow> WireGuardError + Tai64N" where
  "Tai64N_parse buf =
     (if length buf < 12 then Err InvalidTai64nTimestamp
      else Ok (Tai64N (of_be_bytes (take 8 buf)) (of_be_bytes (drop 8 buf))))"

definition Tai64N_after :: "Tai64N \<Rightarrow> Tai64N \<Rightarrow> bool" where
  "Tai64N_after t other \<longleftrightarrow> secs t > secs other \<or> secs t = secs other \<and> nano t > nano other"

section \<open>State\<close>

record noise_params =
  np_static_public :: bytes
  np_static_private :: bytes
  np_peer_static_public :: bytes
  np_static_shared :: bytes
  np_sending_mac1_key :: bytes
  np_preshared_key :: "bytes option"

record init_sent_state =
  is_local_index :: u32
  is_hash :: bytes
  is_chaining_key :: bytes
  is_ephemeral_private :: bytes
  is_time_sent :: nat

datatype HandshakeState =
    HsNone
  | InitSent init_sent_state
  | InitReceived (ir_hash: bytes) (ir_chaining_key: bytes) (ir_peer_ephemeral_public: bytes) (ir_peer_index: u32)
  | Expired

record cookies =
  last_mac1 :: "bytes option"
  cookie_index :: u32
  write_cookie :: "bytes option"

record handshake =
  hs_params :: noise_params
  hs_next_index :: u32
  hs_previous :: HandshakeState
  hs_state :: HandshakeState
  hs_cookies :: cookies
  hs_last_timestamp :: Tai64N
  hs_stamper :: time_stamper
  hs_last_rtt :: "u32 option"

definition NoiseParams_new :: "crypto \<Rightarrow> bytes \<Rightarrow> bytes \<Rightarrow> bytes \<Rightarrow> bytes option \<Rightarrow> noise_params" where
  "NoiseParams_new cr static_private static_public peer_static_public preshared_key =
     \<lparr>np_static_public = static_public, np_static_private = static_private,
      np_peer_static_public = peer_static_public,
      np_static_shared = cr_dh cr static_private peer_static_public,
      np_sending_mac1_key = b2s_hash cr LABEL_MAC1 peer_static_public,
      np_preshared_key = preshared_key\<rparr>"

definition NoiseParams_set_static_private :: "crypto \<Rightarrow> bytes \<Rightarrow> bytes \<Rightarrow> noise_params \<Rightarrow> noise_params option" where
  "NoiseParams_set_static_private cr static_private static_public p =
     (if cr_pub cr static_private = static_public
      then Some (p\<lparr>np_static_private := static_private, np_static_public := static_public,
                   np_static_shared := cr_dh cr static_private (np_peer_static_public p)\<rparr>)
      else None)"

definition Handshake_new ::
    "crypto \<Rightarrow> time_stamper \<Rightarrow> bytes \<Rightarrow> bytes \<Rightarrow> bytes \<Rightarrow> u32 \<Rightarrow> bytes option \<Rightarrow> handshake" where
  "Handshake_new cr stamper static_private static_public peer_static_public global_idx preshared_key =
     \<lparr>hs_params = NoiseParams_new cr static_private static_public peer_static_public preshared_key,
      hs_next_index = global_idx, hs_previous = HsNone, hs_state = HsNone,
      hs_cookies = \<lparr>last_mac1 = None, cookie_index = 0, write_cookie = None\<rparr>,
      hs_last_timestamp = Tai64N_zero, hs_stamper = stamper, hs_last_rtt = None\<rparr>"

definition is_in_progress :: "handshake \<Rightarrow> bool" where
  "is_in_progress hs = (case hs_state hs of HsNone \<Rightarrow> False | Expired \<Rightarrow> False | _ \<Rightarrow> True)"

definition handshake_timer :: "handshake \<Rightarrow> nat option" where
  "handshake_timer hs = (case hs_state hs of InitSent s \<Rightarrow> Some (is_time_sent s) | _ \<Rightarrow> None)"

definition set_expired :: "handshake \<Rightarrow> handshake" where
  "set_expired hs = hs\<lparr>hs_previous := Expired, hs_state := Expired\<rparr>"

definition is_expired :: "handshake \<Rightarrow> bool" where
  "is_expired hs = (case hs_state hs of Expired \<Rightarrow> True | _ \<Rightarrow> False)"

definition has_cookie :: "handshake \<Rightarrow> bool" where
  "has_cookie hs = (write_cookie (hs_cookies hs) \<noteq> None)"

definition clear_cookie :: "handshake \<Rightarrow> handshake" where
  "clear_cookie hs = hs\<lparr>hs_cookies := (hs_cookies hs)\<lparr>write_cookie := None\<rparr>\<rparr>"

definition inc_index :: "handshake \<Rightarrow> u32 \<times> handshake" where
  "inc_index hs =
     (let idx = hs_next_index hs; idx8 = (ucast idx :: u8);
          next_index = (idx AND NOT 0xff) OR ucast (idx8 + 1)
      in (next_index, hs\<lparr>hs_next_index := next_index\<rparr>))"

definition Handshake_set_static_private :: "crypto \<Rightarrow> bytes \<Rightarrow> bytes \<Rightarrow> handshake \<Rightarrow> handshake option" where
  "Handshake_set_static_private cr private_key public_key hs =
     map_option (\<lambda>p. hs\<lparr>hs_params := p\<rparr>) (NoiseParams_set_static_private cr private_key public_key (hs_params hs))"

section \<open>Key derivation\<close>

text \<open>The chains of HMAC calls every message function repeats.\<close>

definition kdf1 :: "crypto \<Rightarrow> bytes \<Rightarrow> bytes \<Rightarrow> bytes" where
  "kdf1 cr chaining_key input = b2s_hmac cr (b2s_hmac cr chaining_key input) [1]"

definition kdf2 :: "crypto \<Rightarrow> bytes \<Rightarrow> bytes \<Rightarrow> bytes \<times> bytes" where
  "kdf2 cr chaining_key input =
     (let temp = b2s_hmac cr chaining_key input;
          chaining_key = b2s_hmac cr temp [1];
          key = b2s_hmac2 cr temp chaining_key [2]
      in (chaining_key, key))"

definition kdf3 :: "crypto \<Rightarrow> bytes \<Rightarrow> bytes \<Rightarrow> bytes \<times> bytes \<times> bytes" where
  "kdf3 cr chaining_key input =
     (let temp = b2s_hmac cr chaining_key input;
          chaining_key = b2s_hmac cr temp [1];
          temp2 = b2s_hmac2 cr temp chaining_key [2];
          key = b2s_hmac2 cr temp temp2 [3]
      in (chaining_key, temp2, key))"

definition transport_keys :: "crypto \<Rightarrow> bytes \<Rightarrow> bytes \<times> bytes" where
  "transport_keys cr chaining_key =
     (let temp1 = b2s_hmac cr chaining_key [];
          temp2 = b2s_hmac cr temp1 [1];
          temp3 = b2s_hmac2 cr temp1 temp2 [2]
      in (temp2, temp3))"

text \<open>
  The response part of the chain, over the two Diffie-Hellman results either side computes:
  the hash that authenticates the empty payload, the chaining key and the key.
\<close>

definition response_chain :: "crypto \<Rightarrow> bytes \<Rightarrow> bytes \<Rightarrow> bytes \<Rightarrow> bytes \<Rightarrow> bytes \<Rightarrow> bytes option \<Rightarrow> bytes \<times> bytes \<times> bytes" where
  "response_chain cr hash chaining_key ephemeral ee se preshared_key =
     (let hash = b2s_hash cr hash ephemeral;
          chaining_key = kdf1 cr chaining_key ephemeral;
          chaining_key = kdf1 cr chaining_key ee;
          chaining_key = kdf1 cr chaining_key se;
          (chaining_key, temp2, key) =
             kdf3 cr chaining_key (case preshared_key of Some k \<Rightarrow> k | None \<Rightarrow> replicate 32 0);
          hash = b2s_hash cr hash temp2
      in (hash, chaining_key, key))"

section \<open>Messages\<close>

text \<open>
  \<open>append_mac1_and_mac2\<close> takes the message up to its last 32 bytes, which it writes.
\<close>

definition append_mac1_and_mac2 :: "crypto \<Rightarrow> u32 \<Rightarrow> bytes \<Rightarrow> handshake \<Rightarrow> bytes \<times> handshake" where
  "append_mac1_and_mac2 cr local_index msg hs =
     (let msg_mac1 = b2s_keyed_mac_16 cr (np_sending_mac1_key (hs_params hs)) msg;
          msg_mac2 = (case write_cookie (hs_cookies hs) of
                        Some cookie \<Rightarrow> b2s_keyed_mac_16 cr cookie (msg @ msg_mac1)
                      | None \<Rightarrow> replicate 16 0)
      in (msg @ msg_mac1 @ msg_mac2,
          hs\<lparr>hs_cookies := (hs_cookies hs)\<lparr>cookie_index := local_index, last_mac1 := Some msg_mac1\<rparr>\<rparr>))"

definition format_handshake_initiation ::
    "crypto \<Rightarrow> nat \<Rightarrow> nat \<Rightarrow> u32 \<Rightarrow> handshake \<Rightarrow> rng \<Rightarrow> ((WireGuardError + bytes) \<times> handshake \<times> rng) option" where
  "format_handshake_initiation cr now dst_len msg_type hs r =
     (if dst_len < HANDSHAKE_INIT_SZ then Some (Err DestinationBufferTooSmall, hs, r)
      else
        let (local_index, hs) = inc_index hs;
            p = hs_params hs;
            hash = b2s_hash cr INITIAL_CHAIN_HASH (np_peer_static_public p);
            (ephemeral_private, r) = fill_bytes 32 r;
            unencrypted_ephemeral = cr_pub cr ephemeral_private;
            hash = b2s_hash cr hash unencrypted_ephemeral;
            chaining_key = kdf1 cr INITIAL_CHAIN_KEY unencrypted_ephemeral;
            (chaining_key, key) = kdf2 cr chaining_key (cr_dh cr ephemeral_private (np_peer_static_public p))
        in case aead_chacha20_seal cr 48 key 0 (np_static_public p) hash of
             None \<Rightarrow> None
           | Some encrypted_static \<Rightarrow>
        let hash = b2s_hash cr hash encrypted_static;
            (chaining_key, key) = kdf2 cr chaining_key (np_static_shared p);
            timestamp = TimeStamper_stamp now (hs_stamper hs)
        in case aead_chacha20_seal cr 28 key 0 timestamp hash of
             None \<Rightarrow> None
           | Some encrypted_timestamp \<Rightarrow>
        let hash = b2s_hash cr hash encrypted_timestamp;
            hs = hs\<lparr>hs_previous := hs_state hs,
                    hs_state := InitSent \<lparr>is_local_index = local_index, is_hash = hash, is_chaining_key = chaining_key,
                                          is_ephemeral_private = ephemeral_private, is_time_sent = now\<rparr>\<rparr>;
            (msg, hs) = append_mac1_and_mac2 cr local_index
              (le_bytes 4 msg_type @ le_bytes 4 local_index @ unencrypted_ephemeral @ encrypted_static @ encrypted_timestamp) hs
        in Some (Ok msg, hs, r))"

definition format_handshake_response ::
    "crypto \<Rightarrow> nat \<Rightarrow> u32 \<Rightarrow> handshake \<Rightarrow> rng \<Rightarrow> ((WireGuardError + bytes \<times> session) \<times> handshake \<times> rng) option" where
  "format_handshake_response cr dst_len msg_type hs r =
     (if dst_len < HANDSHAKE_RESP_SZ then Some (Err DestinationBufferTooSmall, hs, r)
      else case hs_state hs of
        InitReceived hash chaining_key peer_ephemeral_public peer_index \<Rightarrow>
          let hs = hs\<lparr>hs_state := HsNone\<rparr>;
              p = hs_params hs;
              (ephemeral_private, r) = fill_bytes 32 r;
              (local_index, hs) = inc_index hs;
              unencrypted_ephemeral = cr_pub cr ephemeral_private;
              (hash, chaining_key, key) = response_chain cr hash chaining_key unencrypted_ephemeral
                 (cr_dh cr ephemeral_private peer_ephemeral_public)
                 (cr_dh cr ephemeral_private (np_peer_static_public p)) (np_preshared_key p)
          in (case aead_chacha20_seal cr 16 key 0 [] hash of
                None \<Rightarrow> None
              | Some encrypted_nothing \<Rightarrow>
                  let (temp2, temp3) = transport_keys cr chaining_key;
                      (msg, hs) = append_mac1_and_mac2 cr local_index
                        (le_bytes 4 msg_type @ le_bytes 4 local_index @ le_bytes 4 peer_index @ unencrypted_ephemeral @
                         encrypted_nothing) hs
                  in Some (Ok (msg, Session_new local_index peer_index temp2 temp3), hs, r))
      | _ \<Rightarrow> None)"

text \<open>
  Reading an initiation, up to the decrypted timestamp: the first steps of
  \<open>receive_handshake_initialization\<close>, which change no state.
\<close>

definition read_initiation ::
    "crypto \<Rightarrow> noise_params \<Rightarrow> handshake_init \<Rightarrow> (WireGuardError, bytes \<times> bytes \<times> Tai64N) fallible" where
  "read_initiation cr p packet =
     (let hash = b2s_hash cr INITIAL_CHAIN_HASH (np_static_public p);
          peer_ephemeral_public = hi_unencrypted_ephemeral packet;
          hash = b2s_hash cr hash peer_ephemeral_public;
          chaining_key = kdf1 cr INITIAL_CHAIN_KEY peer_ephemeral_public;
          (chaining_key, key) = kdf2 cr chaining_key (cr_dh cr (np_static_private p) peer_ephemeral_public)
      in bind_res (aead_chacha20_open cr KEY_LEN key 0 (hi_encrypted_static packet) hash) (\<lambda>peer_static_public.
         if np_peer_static_public p \<noteq> peer_static_public then Some (Err WrongKey)
         else
           let hash = b2s_hash cr hash (hi_encrypted_static packet);
               (chaining_key, key) = kdf2 cr chaining_key (np_static_shared p)
           in bind_res (aead_chacha20_open cr TIMESTAMP_LEN key 0 (hi_encrypted_timestamp packet) hash) (\<lambda>timestamp.
              Some (map_sum id (\<lambda>t. (hash, chaining_key, t)) (Tai64N_parse timestamp)))))"

definition receive_handshake_initialization ::
    "crypto \<Rightarrow> handshake_init \<Rightarrow> nat \<Rightarrow> u32 \<Rightarrow> handshake \<Rightarrow> rng \<Rightarrow>
     ((WireGuardError + bytes \<times> session) \<times> handshake \<times> rng) option" where
  "receive_handshake_initialization cr packet dst_len resp_msg_type hs r =
     (case read_initiation cr (hs_params hs) packet of
        None \<Rightarrow> None
      | Some (Inl e) \<Rightarrow> Some (Err e, hs, r)
      | Some (Inr (hash, chaining_key, timestamp)) \<Rightarrow>
          if \<not> Tai64N_after timestamp (hs_last_timestamp hs) then Some (Err WrongTai64nTimestamp, hs, r)
          else
            let hash = b2s_hash cr hash (hi_encrypted_timestamp packet);
                hs = hs\<lparr>hs_last_timestamp := timestamp, hs_previous := hs_state hs,
                        hs_state := InitReceived hash chaining_key (hi_unencrypted_ephemeral packet) (hi_sender_idx packet)\<rparr>
            in format_handshake_response cr dst_len resp_msg_type hs r)"

text \<open>The pending initiation a response answers, and whether it is the previous one.\<close>

definition awaited :: "HandshakeState \<Rightarrow> u32 \<Rightarrow> init_sent_state option" where
  "awaited st receiver_idx =
     (case st of InitSent s \<Rightarrow> if is_local_index s = receiver_idx then Some s else None | _ \<Rightarrow> None)"

definition pending_initiation :: "handshake \<Rightarrow> u32 \<Rightarrow> (init_sent_state \<times> bool) option" where
  "pending_initiation hs receiver_idx =
     (case awaited (hs_state hs) receiver_idx of
        Some s \<Rightarrow> Some (s, False)
      | None \<Rightarrow> map_option (\<lambda>s. (s, True)) (awaited (hs_previous hs) receiver_idx))"

definition receive_handshake_response ::
    "crypto \<Rightarrow> nat \<Rightarrow> handshake_response \<Rightarrow> handshake \<Rightarrow> ((WireGuardError + session) \<times> handshake) option" where
  "receive_handshake_response cr now packet hs =
     (case pending_initiation hs (hp_receiver_idx packet) of
        None \<Rightarrow> Some (Err UnexpectedPacket, hs)
      | Some (st, is_previous) \<Rightarrow>
          let p = hs_params hs;
              ephemeral = hp_unencrypted_ephemeral packet;
              (hash, chaining_key, key) = response_chain cr (is_hash st) (is_chaining_key st) ephemeral
                 (cr_dh cr (is_ephemeral_private st) ephemeral)
                 (cr_dh cr (np_static_private p) ephemeral) (np_preshared_key p)
          in (case aead_chacha20_open cr 0 key 0 (hp_encrypted_nothing packet) hash of
                None \<Rightarrow> None
              | Some (Inl e) \<Rightarrow> Some (Err e, hs)
              | Some (Inr _) \<Rightarrow>
                  let (temp2, temp3) = transport_keys cr chaining_key;
                      hs = hs\<lparr>hs_last_rtt := Some (of_nat ((now - is_time_sent st) div 10 ^ 6))\<rparr>;
                      hs = (if is_previous then hs\<lparr>hs_previous := HsNone\<rparr> else hs\<lparr>hs_state := HsNone\<rparr>)
                  in Some (Ok (Session_new (is_local_index st) (hp_sender_idx packet) temp3 temp2), hs)))"

definition receive_cookie_reply :: "crypto \<Rightarrow> packet_cookie_reply \<Rightarrow> handshake \<Rightarrow> (WireGuardError + unit) \<times> handshake" where
  "receive_cookie_reply cr packet hs =
     (case last_mac1 (hs_cookies hs) of
        None \<Rightarrow> (Err UnexpectedPacket, hs)
      | Some mac1 \<Rightarrow>
          if pcr_receiver_idx packet \<noteq> cookie_index (hs_cookies hs) then (Err WrongIndex, hs)
          else
            let key = b2s_hash cr LABEL_COOKIE (np_peer_static_public (hs_params hs)) in
            if length (pcr_nonce packet) \<noteq> 24 then (Err InvalidPacket, hs)
            else case cr_xopen cr key (pcr_nonce packet) mac1 (pcr_encrypted_cookie packet) of
              None \<Rightarrow> (Err InvalidAeadTag, hs)
            | Some plaintext \<Rightarrow>
                if length plaintext \<noteq> 16 then (Err InvalidPacket, hs)
                else (Ok (), hs\<lparr>hs_cookies := (hs_cookies hs)\<lparr>write_cookie := Some plaintext\<rparr>\<rparr>))"

record half_handshake =
  hh_peer_index :: u32
  hh_peer_static_public :: bytes

definition parse_handshake_anon :: "crypto \<Rightarrow> bytes \<Rightarrow> bytes \<Rightarrow> handshake_init \<Rightarrow> (WireGuardError, half_handshake) fallible" where
  "parse_handshake_anon cr static_private static_public packet =
     (let hash = b2s_hash cr INITIAL_CHAIN_HASH static_public;
          peer_ephemeral_public = hi_unencrypted_ephemeral packet;
          hash = b2s_hash cr hash peer_ephemeral_public;
          chaining_key = kdf1 cr INITIAL_CHAIN_KEY peer_ephemeral_public;
          (chaining_key, key) = kdf2 cr chaining_key (cr_dh cr static_private peer_ephemeral_public)
      in bind_res (aead_chacha20_open cr KEY_LEN key 0 (hi_encrypted_static packet) hash) (\<lambda>peer_static_public.
         Some (Ok \<lparr>hh_peer_index = hi_sender_idx packet, hh_peer_static_public = peer_static_public\<rparr>)))"

section \<open>Timestamps are ordered\<close>

instantiation Tai64N :: linorder
begin

definition less_Tai64N :: "Tai64N \<Rightarrow> Tai64N \<Rightarrow> bool" where
  "less_Tai64N a b \<longleftrightarrow> Tai64N_after b a"

definition less_eq_Tai64N :: "Tai64N \<Rightarrow> Tai64N \<Rightarrow> bool" where
  "less_eq_Tai64N a b \<longleftrightarrow> a = b \<or> Tai64N_after b a"

instance
proof
  fix x y :: Tai64N
  show "x \<le> y \<or> y \<le> x"
    by (cases x; cases y) (auto simp: less_eq_Tai64N_def Tai64N_after_def)
qed (auto simp: less_Tai64N_def less_eq_Tai64N_def Tai64N_after_def)

end

lemma Tai64N_after_iff: "Tai64N_after a b \<longleftrightarrow> b < a"
  by (simp add: less_Tai64N_def)

lemma length_stamp [simp, length_simps]: "length (TimeStamper_stamp now ts) = 12"
  by (simp add: TimeStamper_stamp_def Let_def)

definition stamp_time :: "nat \<Rightarrow> time_stamper \<Rightarrow> Tai64N" where
  "stamp_time now ts =
     (let stamp = (now - instant_at_start ts) + duration_at_start ts
      in Tai64N (of_nat (stamp div 10 ^ 9) + TAI64_BASE) (of_nat (stamp mod 10 ^ 9)))"

lemma parse_stamp: "Tai64N_parse (TimeStamper_stamp now ts) = Ok (stamp_time now ts)"
  by (simp add: Tai64N_parse_def TimeStamper_stamp_def stamp_time_def Let_def)

lemma stamp_time_mono:
  assumes "instant_at_start ts \<le> now" "now < now'"
    and "(now' - instant_at_start ts) + duration_at_start ts < 10 ^ 9 * 2 ^ 62"
  shows "stamp_time now ts < stamp_time now' ts"
proof -
  define a b where "a = (now - instant_at_start ts) + duration_at_start ts"
    and "b = (now' - instant_at_start ts) + duration_at_start ts"
  then have ab: "a < b" "b < 10 ^ 9 * 2 ^ 62"
    using assms by auto
  have small: "x div 10 ^ 9 < 2 ^ 62" if "x < 10 ^ 9 * 2 ^ 62" for x :: nat
    using that by (simp add: div_less_iff_less_mult mult.commute)
  have s: "unat (of_nat (x div 10 ^ 9) + TAI64_BASE :: u64) = x div 10 ^ 9 + 2 ^ 62 + 10" if "x < 10 ^ 9 * 2 ^ 62" for x
    using small [OF that] by (subst unat_add_small) (simp_all add: TAI64_BASE_def unat_of_nat_small)
  have n: "unat (of_nat (x mod 10 ^ 9) :: u32) = x mod 10 ^ 9" for x :: nat
    by (rule unat_of_nat_small) (simp add: less_trans [OF mod_less_divisor])
  have "a div 10 ^ 9 < b div 10 ^ 9 \<or> a div 10 ^ 9 = b div 10 ^ 9 \<and> a mod 10 ^ 9 < b mod 10 ^ 9"
  proof (cases "a div 10 ^ 9 = b div 10 ^ 9")
    case True
    then have "a mod 10 ^ 9 < b mod 10 ^ 9"
      using ab(1) by (metis add_less_cancel_left div_mult_mod_eq)
    with True show ?thesis
      by simp
  next
    case False
    then show ?thesis
      using div_le_mono [of a b "10 ^ 9"] ab(1) by linarith
  qed
  then show ?thesis
    using ab s [of a] s [of b] n [of a] n [of b]
    by (auto simp: less_Tai64N_def Tai64N_after_def stamp_time_def Let_def a_def [symmetric] b_def [symmetric]
        word_less_nat_alt word_unat_eq_iff)
qed

section \<open>Parameters\<close>

definition params_ok :: "crypto \<Rightarrow> noise_params \<Rightarrow> bool" where
  "params_ok cr p \<longleftrightarrow>
     np_static_public p = cr_pub cr (np_static_private p) \<and>
     np_static_shared p = cr_dh cr (np_static_private p) (np_peer_static_public p) \<and>
     np_sending_mac1_key p = b2s_hash cr LABEL_MAC1 (np_peer_static_public p)"

definition mirrored :: "noise_params \<Rightarrow> noise_params \<Rightarrow> bool" where
  "mirrored p q \<longleftrightarrow>
     np_peer_static_public p = np_static_public q \<and> np_peer_static_public q = np_static_public p \<and>
     np_preshared_key p = np_preshared_key q"

lemma params_ok_new: "pub = cr_pub cr priv \<Longrightarrow> params_ok cr (NoiseParams_new cr priv pub peer psk)"
  by (simp add: params_ok_def NoiseParams_new_def)

lemma params_ok_set:
  "params_ok cr p \<Longrightarrow> NoiseParams_set_static_private cr priv pub p = Some q \<Longrightarrow> params_ok cr q"
  by (auto simp: params_ok_def NoiseParams_set_static_private_def split: if_splits)

lemma static_shared_mirrored:
  "crypto_ok cr \<Longrightarrow> params_ok cr p \<Longrightarrow> params_ok cr q \<Longrightarrow> mirrored p q \<Longrightarrow> np_static_shared p = np_static_shared q"
  by (simp add: params_ok_def mirrored_def dh_comm)

section \<open>Message layout\<close>

lemma length_append_macs:
  "crypto_ok cr \<Longrightarrow> length (fst (append_mac1_and_mac2 cr i msg hs)) = length msg + 32"
  by (auto simp: append_mac1_and_mac2_def Let_def b2s_keyed_mac_16_def length_mac16 split: option.splits)

lemma append_macs_eq:
  assumes "crypto_ok cr" "append_mac1_and_mac2 cr i msg hs = (out, hs')"
  shows "\<exists>macs. out = msg @ macs \<and> length macs = 32" and "hs_params hs' = hs_params hs"
    and "hs_state hs' = hs_state hs" and "hs_previous hs' = hs_previous hs"
    and "hs_last_timestamp hs' = hs_last_timestamp hs" and "hs_next_index hs' = hs_next_index hs"
    and "hs_stamper hs' = hs_stamper hs"
  using assms by (auto simp: append_mac1_and_mac2_def Let_def b2s_keyed_mac_16_def length_mac16 split: option.splits)

lemma parse_initiation:
  assumes "HeaderRange_contains (hc_init hc) ty" "length e = 32" "length es = 48" "length et = 28" "length macs = 32"
  shows "parse_incoming_packet_config (le_bytes 4 ty @ le_bytes 4 i @ e @ es @ et @ macs) hc =
    Ok (HandshakeInit \<lparr>hi_sender_idx = i, hi_unencrypted_ephemeral = e, hi_encrypted_static = es,
                       hi_encrypted_timestamp = et\<rparr>)"
  using assms by (simp add: parse_incoming_packet_config_def HANDSHAKE_INIT_SZ_def slice_def Let_def)

lemma parse_response:
  assumes "HeaderRange_contains (hc_response hc) ty" "length e = 32" "length en = 16" "length macs = 32"
  shows "parse_incoming_packet_config (le_bytes 4 ty @ le_bytes 4 i @ le_bytes 4 j @ e @ en @ macs) hc =
    Ok (HandshakeResponse \<lparr>hp_sender_idx = i, hp_receiver_idx = j, hp_unencrypted_ephemeral = e,
                           hp_encrypted_nothing = en\<rparr>)"
  using assms by (simp add: parse_incoming_packet_config_def HANDSHAKE_INIT_SZ_def HANDSHAKE_RESP_SZ_def slice_def Let_def)

section \<open>Agreement\<close>

lemma inc_index_frame:
  "inc_index hs = (i, hs') \<Longrightarrow> hs' = hs\<lparr>hs_next_index := i\<rparr>"
  by (auto simp: inc_index_def Let_def)

text \<open>
  The initiation message, with the state the initiator keeps and what the responder reads
  from the same fields.
\<close>

definition initiation_fits ::
    "crypto \<Rightarrow> noise_params \<Rightarrow> bytes \<Rightarrow> Tai64N \<Rightarrow> handshake_init \<Rightarrow> init_sent_state \<Rightarrow> bool" where
  "initiation_fits cr q e t pk st \<longleftrightarrow>
     hi_unencrypted_ephemeral pk = cr_pub cr e \<and> hi_sender_idx pk = is_local_index st \<and>
     is_ephemeral_private st = e \<and> length (hi_encrypted_static pk) = 48 \<and> length (hi_encrypted_timestamp pk) = 28 \<and>
     (\<exists>hash. read_initiation cr q pk = Some (Ok (hash, is_chaining_key st, t)) \<and>
             is_hash st = b2s_hash cr hash (hi_encrypted_timestamp pk))"

lemma initiation_agreement:
  assumes cr: "crypto_ok cr" and p: "params_ok cr (hs_params hs)" and q: "params_ok cr q" and m: "mirrored (hs_params hs) q"
    and len: "HANDSHAKE_INIT_SZ \<le> dst_len"
  shows "\<exists>msg pk st macs hs' r'. format_handshake_initiation cr now dst_len ty hs r = Some (Ok msg, hs', r') \<and>
     msg = le_bytes 4 ty @ le_bytes 4 (hi_sender_idx pk) @ hi_unencrypted_ephemeral pk @ hi_encrypted_static pk @
           hi_encrypted_timestamp pk @ macs \<and> length macs = 32 \<and>
     hs_state hs' = InitSent st \<and> hs_previous hs' = hs_state hs \<and> is_time_sent st = now \<and> hs_params hs' = hs_params hs \<and>
     hs_last_timestamp hs' = hs_last_timestamp hs \<and> is_local_index st = fst (inc_index hs) \<and>
     initiation_fits cr q (fst (fill_bytes 32 r)) (stamp_time now (hs_stamper hs)) pk st"
proof -
  obtain i hs1 where i: "inc_index hs = (i, hs1)"
    by fastforce
  then have hs1: "hs1 = hs\<lparr>hs_next_index := i\<rparr>"
    by (rule inc_index_frame)
  obtain e r' where e: "fill_bytes 32 r = (e, r')"
    by fastforce
  let ?p = "hs_params hs"
  let ?h1 = "b2s_hash cr (b2s_hash cr INITIAL_CHAIN_HASH (np_peer_static_public ?p)) (cr_pub cr e)"
  obtain ck1 key1 where k1: "kdf2 cr (kdf1 cr INITIAL_CHAIN_KEY (cr_pub cr e)) (cr_dh cr e (np_peer_static_public ?p)) = (ck1, key1)"
    by fastforce
  define es where "es = cr_seal cr key1 (counter_nonce 0) ?h1 (np_static_public ?p)"
  let ?h2 = "b2s_hash cr ?h1 es"
  obtain ck2 key2 where k2: "kdf2 cr ck1 (np_static_shared ?p) = (ck2, key2)"
    by fastforce
  define et where "et = cr_seal cr key2 (counter_nonce 0) ?h2 (TimeStamper_stamp now (hs_stamper hs))"
  define st where "st = \<lparr>is_local_index = i, is_hash = b2s_hash cr ?h2 et, is_chaining_key = ck2,
                         is_ephemeral_private = e, is_time_sent = now\<rparr>"
  define hs2 where "hs2 = hs1\<lparr>hs_previous := hs_state hs, hs_state := InitSent st\<rparr>"
  obtain msg hs3 where mac: "append_mac1_and_mac2 cr i (le_bytes 4 ty @ le_bytes 4 i @ cr_pub cr e @ es @ et) hs2 = (msg, hs3)"
    by fastforce
  have len_pub: "length (np_static_public ?p) = 32"
    using p cr by (simp add: params_ok_def length_pub)
  have run: "format_handshake_initiation cr now dst_len ty hs r = Some (Ok msg, hs3, r')"
    using len len_pub mac by (simp add: format_handshake_initiation_def i hs1 e k1 k2 aead_chacha20_seal_def es_def [symmetric]
        et_def [symmetric] st_def [symmetric] hs2_def Let_def)
  have sh: "cr_dh cr (np_static_private q) (cr_pub cr e) = cr_dh cr e (np_peer_static_public ?p)"
    using q m cr by (simp add: mirrored_def params_ok_def dh_comm)
  have ss: "np_static_shared q = np_static_shared ?p"
    using static_shared_mirrored [OF cr p q m] by simp
  have pub: "np_static_public q = np_peer_static_public ?p" "np_peer_static_public q = np_static_public ?p"
    using m by (simp_all add: mirrored_def)
  define pk where "pk = \<lparr>hi_sender_idx = i, hi_unencrypted_ephemeral = cr_pub cr e, hi_encrypted_static = es,
                         hi_encrypted_timestamp = et\<rparr>"
  have o1: "aead_chacha20_open cr KEY_LEN key1 0 es ?h1 = Some (Ok (np_static_public ?p))"
    unfolding es_def by (rule aead_open_seal [OF cr]) (simp add: len_pub KEY_LEN_def)
  have o2: "aead_chacha20_open cr TIMESTAMP_LEN key2 0 et ?h2 = Some (Ok (TimeStamper_stamp now (hs_stamper hs)))"
    unfolding et_def by (rule aead_open_seal [OF cr]) (simp add: TIMESTAMP_LEN_def)
  have "read_initiation cr q pk = Some (Ok (?h2, ck2, stamp_time now (hs_stamper hs)))"
    by (simp add: read_initiation_def pk_def pub sh ss k1 k2 o1 o2 parse_stamp Let_def)
  then have fits: "initiation_fits cr q e (stamp_time now (hs_stamper hs)) pk st"
    using cr len_pub by (auto simp: initiation_fits_def pk_def st_def es_def et_def length_seal)
  obtain macs where "msg = le_bytes 4 ty @ le_bytes 4 i @ cr_pub cr e @ es @ et @ macs" "length macs = 32"
    using append_macs_eq(1) [OF cr mac] by auto
  then show ?thesis
    using run fits append_macs_eq [OF cr mac] e i
    by (intro exI [of _ msg] exI [of _ pk] exI [of _ st] exI [of _ macs] exI [of _ hs3] exI [of _ r'])
      (simp add: pk_def st_def hs2_def hs1)
qed

text \<open>Two ends of one session: each seals with the key the other opens with.\<close>

definition paired :: "session \<Rightarrow> session \<Rightarrow> bool" where
  "paired a b \<longleftrightarrow>
     sender a = receiver b \<and> receiver a = sender b \<and>
     sending_index a = receiving_index b \<and> receiving_index a = sending_index b"

lemma response_agreement:
  assumes cr: "crypto_ok cr" and p: "params_ok cr (hs_params hsA)" and q: "params_ok cr (hs_params hsB)"
    and m: "mirrored (hs_params hsA) (hs_params hsB)" and fits: "initiation_fits cr (hs_params hsB) e t pk st"
    and later: "hs_last_timestamp hsB < t" and pend: "pending_initiation hsA (is_local_index st) = Some (st, prev)"
    and len: "HANDSHAKE_RESP_SZ \<le> dst_len"
  shows "\<exists>msg rp macs a b hsA' hsB' r'.
     receive_handshake_initialization cr pk dst_len ty hsB r = Some (Ok (msg, b), hsB', r') \<and>
     msg = le_bytes 4 ty @ le_bytes 4 (hp_sender_idx rp) @ le_bytes 4 (hp_receiver_idx rp) @ hp_unencrypted_ephemeral rp @
           hp_encrypted_nothing rp @ macs \<and>
     length (hp_unencrypted_ephemeral rp) = 32 \<and> length (hp_encrypted_nothing rp) = 16 \<and> length macs = 32 \<and>
     receive_handshake_response cr now rp hsA = Some (Ok a, hsA') \<and> paired a b \<and>
     receiving_index a = is_local_index st \<and> receiving_index b = fst (inc_index hsB) \<and>
     hs_last_timestamp hsB' = t \<and> hs_params hsB' = hs_params hsB \<and> hs_params hsA' = hs_params hsA"
proof -
  let ?q = "hs_params hsB"
  obtain hash where rd: "read_initiation cr ?q pk = Some (Ok (hash, is_chaining_key st, t))"
    and ih: "is_hash st = b2s_hash cr hash (hi_encrypted_timestamp pk)" and pk: "hi_unencrypted_ephemeral pk = cr_pub cr e"
    "hi_sender_idx pk = is_local_index st" "is_ephemeral_private st = e"
    using fits by (auto simp: initiation_fits_def)
  define hs1 where "hs1 = hsB\<lparr>hs_last_timestamp := t, hs_previous := hs_state hsB, hs_state := HsNone\<rparr>"
  obtain f r' where f: "fill_bytes 32 r = (f, r')"
    by fastforce
  obtain j hs2 where j: "inc_index hs1 = (j, hs2)"
    by fastforce
  then have hs2: "hs2 = hs1\<lparr>hs_next_index := j\<rparr>"
    by (rule inc_index_frame)
  obtain h ck key where ch: "response_chain cr (is_hash st) (is_chaining_key st) (cr_pub cr f)
      (cr_dh cr f (cr_pub cr e)) (cr_dh cr f (np_peer_static_public ?q)) (np_preshared_key ?q) = (h, ck, key)"
    by (meson prod_cases3)
  obtain t2 t3 where tk: "transport_keys cr ck = (t2, t3)"
    by fastforce
  define en where "en = cr_seal cr key (counter_nonce 0) h []"
  define rp where "rp = \<lparr>hp_sender_idx = j, hp_receiver_idx = is_local_index st, hp_unencrypted_ephemeral = cr_pub cr f,
                         hp_encrypted_nothing = en\<rparr>"
  obtain msg hs3 where mac: "append_mac1_and_mac2 cr j
      (le_bytes 4 ty @ le_bytes 4 j @ le_bytes 4 (is_local_index st) @ cr_pub cr f @ en) hs2 = (msg, hs3)"
    by fastforce
  let ?b = "Session_new j (is_local_index st) t2 t3" and ?a = "Session_new (is_local_index st) j t3 t2"
  have run: "receive_handshake_initialization cr pk dst_len ty hsB r = Some (Ok (msg, ?b), hs3, r')"
    using len later mac j by (simp add: receive_handshake_initialization_def rd Tai64N_after_iff ih [symmetric] pk
        format_handshake_response_def f hs2 hs1_def ch aead_chacha20_seal_def en_def [symmetric] tk Let_def)
  have dh: "cr_dh cr e (cr_pub cr f) = cr_dh cr f (cr_pub cr e)"
    "cr_dh cr (np_static_private (hs_params hsA)) (cr_pub cr f) = cr_dh cr f (np_peer_static_public ?q)"
    using p m dh_comm [OF cr] by (simp_all add: params_ok_def mirrored_def)
  have op: "aead_chacha20_open cr 0 key 0 en h = Some (Ok [])"
    unfolding en_def by (rule aead_open_seal [OF cr]) simp
  have psk: "np_preshared_key (hs_params hsA) = np_preshared_key ?q"
    using m by (simp add: mirrored_def)
  obtain hsA' where resp: "receive_handshake_response cr now rp hsA = Some (Ok ?a, hsA')" "hs_params hsA' = hs_params hsA"
    using pend by (simp add: receive_handshake_response_def rp_def ch dh pk psk op tk Let_def split: if_splits)
  obtain macs where "msg = le_bytes 4 ty @ le_bytes 4 j @ le_bytes 4 (is_local_index st) @ cr_pub cr f @ en @ macs" "length macs = 32"
    using append_macs_eq(1) [OF cr mac] by auto
  moreover have "fst (inc_index hsB) = j"
    using j by (simp add: inc_index_def hs1_def Let_def)
  moreover have "paired ?a ?b" "receiving_index ?a = is_local_index st" "receiving_index ?b = j"
    by (simp_all add: paired_def Session_new_def)
  ultimately show ?thesis
    using run resp cr append_macs_eq [OF cr mac]
    by (intro exI [of _ msg] exI [of _ rp] exI [of _ macs] exI [of _ ?a] exI [of _ ?b] exI [of _ hsA'] exI [of _ hs3] exI [of _ r'])
      (simp add: rp_def en_def hs2 hs1_def length_pub length_seal)
qed

section \<open>The handshake as a transition system\<close>

text \<open>
  One call on a \<open>Handshake\<close>, whatever its arguments and its result. A change of the static key,
  which gives the handshake another identity, is not a step.
\<close>

inductive hs_step :: "crypto \<Rightarrow> handshake \<Rightarrow> handshake \<Rightarrow> bool" for cr where
  initiate: "format_handshake_initiation cr now dst_len ty hs r = Some (x, hs', r') \<Longrightarrow> hs_step cr hs hs'"
| initiation: "receive_handshake_initialization cr pk dst_len ty hs r = Some (y, hs', r') \<Longrightarrow> hs_step cr hs hs'"
| response: "receive_handshake_response cr now rp hs = Some (z, hs') \<Longrightarrow> hs_step cr hs hs'"
| cookie: "receive_cookie_reply cr ck hs = (u, hs') \<Longrightarrow> hs_step cr hs hs'"
| expire: "hs_step cr hs (set_expired hs)"
| forget: "hs_step cr hs (clear_cookie hs)"

text \<open>What every call keeps: the block of indices, and that the two pending initiations differ.\<close>

definition index_block :: "u32 \<Rightarrow> u32" where
  "index_block i = i AND NOT 0xff"

definition hs_inv :: "handshake \<Rightarrow> bool" where
  "hs_inv hs \<longleftrightarrow>
     (\<forall>s. hs_state hs = InitSent s \<longrightarrow> is_local_index s = hs_next_index hs \<and>
       (\<forall>s'. hs_previous hs = InitSent s' \<longrightarrow> is_local_index s' \<noteq> is_local_index s))"

lemma low_byte_mask: "(0xff :: u32) = mask 8"
  by (simp add: mask_eq_exp_minus_1)

lemma inc_index_block: "index_block (fst (inc_index hs)) = index_block (hs_next_index hs)"
  unfolding index_block_def inc_index_def Let_def fst_conv low_byte_mask
  by (rule bit_word_eqI) (auto simp: bit_simps dest: bit_imp_le_length)

lemma inc_index_low: "ucast (fst (inc_index hs)) = (ucast (hs_next_index hs) + 1 :: u8)"
  unfolding inc_index_def Let_def fst_conv low_byte_mask
  by (rule bit_word_eqI) (auto simp: bit_simps dest: bit_imp_le_length)

lemma inc_index_neq: "fst (inc_index hs) \<noteq> hs_next_index hs"
  using inc_index_low [of hs] by auto

lemma format_initiation_effect:
  assumes "format_handshake_initiation cr now dst_len ty hs r = Some (x, hs', r')"
  shows "(case x of Inl e \<Rightarrow> hs' = hs
          | Inr msg \<Rightarrow> hs_previous hs' = hs_state hs \<and> hs_next_index hs' = fst (inc_index hs) \<and>
              (\<exists>s. hs_state hs' = InitSent s \<and> is_local_index s = fst (inc_index hs)))"
    and "hs_params hs' = hs_params hs" and "hs_last_timestamp hs' = hs_last_timestamp hs"
    and "hs_stamper hs' = hs_stamper hs"
  using assms by (auto simp: format_handshake_initiation_def Let_def inc_index_def append_mac1_and_mac2_def
      split: if_splits option.splits prod.splits)

lemma format_response_effect:
  assumes "format_handshake_response cr dst_len ty hs r = Some (y, hs', r')"
  shows "(case y of Inl e \<Rightarrow> e = DestinationBufferTooSmall \<and> hs' = hs
          | Inr (msg, s) \<Rightarrow> hs_state hs' = HsNone \<and> hs_next_index hs' = fst (inc_index hs) \<and>
              receiving_index s = fst (inc_index hs))"
    and "hs_previous hs' = hs_previous hs"
    and "hs_params hs' = hs_params hs" and "hs_last_timestamp hs' = hs_last_timestamp hs"
    and "hs_stamper hs' = hs_stamper hs"
  using assms by (auto simp: format_handshake_response_def Let_def inc_index_def Session_new_def append_mac1_and_mac2_def
      split: if_splits option.splits prod.splits HandshakeState.splits)

lemma receive_initiation_cases:
  assumes "receive_handshake_initialization cr pk dst_len ty hs r = Some (y, hs', r')"
  obtains (rejected) e where "y = Err e" "hs' = hs" "r' = r"
  | (read) hash ck t hs1 where "read_initiation cr (hs_params hs) pk = Some (Ok (hash, ck, t))" "hs_last_timestamp hs < t"
      "hs1 = hs\<lparr>hs_last_timestamp := t, hs_previous := hs_state hs,
         hs_state := InitReceived (b2s_hash cr hash (hi_encrypted_timestamp pk)) ck (hi_unencrypted_ephemeral pk) (hi_sender_idx pk)\<rparr>"
      "format_handshake_response cr dst_len ty hs1 r = Some (y, hs', r')"
  using assms by (auto simp: receive_handshake_initialization_def Tai64N_after_iff Let_def
      split: option.splits sum.splits prod.splits if_splits)

lemma receive_initiation_effect:
  assumes "receive_handshake_initialization cr pk dst_len ty hs r = Some (y, hs', r')"
  shows "hs_params hs' = hs_params hs" and "hs_last_timestamp hs \<le> hs_last_timestamp hs'"
    and "hs_inv hs \<Longrightarrow> hs_inv hs'" and "index_block (hs_next_index hs') = index_block (hs_next_index hs)"
    and "y = Ok (msg, s) \<Longrightarrow> index_block (receiving_index s) = index_block (hs_next_index hs)"
    and "hs_stamper hs' = hs_stamper hs"
proof -
  have "hs_params hs' = hs_params hs \<and> hs_last_timestamp hs \<le> hs_last_timestamp hs' \<and> (hs_inv hs \<longrightarrow> hs_inv hs') \<and>
      index_block (hs_next_index hs') = index_block (hs_next_index hs) \<and>
      (y = Ok (msg, s) \<longrightarrow> index_block (receiving_index s) = index_block (hs_next_index hs)) \<and> hs_stamper hs' = hs_stamper hs"
    using assms
  proof (cases rule: receive_initiation_cases)
    case (read hash ck t hs1)
    note eff = format_response_effect [OF read(4)]
    have "inc_index hs1 = (fst (inc_index hs), hs1\<lparr>hs_next_index := fst (inc_index hs)\<rparr>)"
      by (simp add: inc_index_def read(3) Let_def)
    then show ?thesis
      using eff read(2) inc_index_block [of hs]
      by (auto simp: read(3) hs_inv_def split: sum.splits)
  qed simp
  then show "hs_params hs' = hs_params hs" and "hs_last_timestamp hs \<le> hs_last_timestamp hs'"
    and "hs_inv hs \<Longrightarrow> hs_inv hs'" and "index_block (hs_next_index hs') = index_block (hs_next_index hs)"
    and "y = Ok (msg, s) \<Longrightarrow> index_block (receiving_index s) = index_block (hs_next_index hs)"
    and "hs_stamper hs' = hs_stamper hs"
    by blast+
qed

lemma receive_response_effect:
  assumes "receive_handshake_response cr now rp hs = Some (z, hs')"
  shows "(case z of Inl e \<Rightarrow> hs' = hs
          | Inr s \<Rightarrow> receiving_index s = hp_receiver_idx rp \<and>
             (hs_state hs' = HsNone \<and> hs_previous hs' = hs_previous hs \<and> awaited (hs_state hs) (hp_receiver_idx rp) \<noteq> None \<or>
              hs_previous hs' = HsNone \<and> hs_state hs' = hs_state hs \<and> awaited (hs_state hs) (hp_receiver_idx rp) = None))"
    and "hs_params hs' = hs_params hs" and "hs_last_timestamp hs' = hs_last_timestamp hs"
    and "hs_next_index hs' = hs_next_index hs" and "hs_stamper hs' = hs_stamper hs"
  using assms by (auto simp: receive_handshake_response_def pending_initiation_def awaited_def Session_new_def Let_def
      split: option.splits sum.splits prod.splits if_splits HandshakeState.splits)

lemma cookie_reply_effect:
  "receive_cookie_reply cr ck hs = (u, hs') \<Longrightarrow> hs' = hs \<or> (\<exists>c. hs' = hs\<lparr>hs_cookies := c\<rparr>)"
  by (auto simp: receive_cookie_reply_def Let_def split: option.splits if_splits)

lemma hs_inv_cookies [simp]: "hs_inv (hs\<lparr>hs_cookies := c\<rparr>) = hs_inv hs"
  by (simp add: hs_inv_def)

lemma hs_inv_initiate:
  assumes "hs_inv hs" "hs_previous hs' = hs_state hs" "hs_state hs' = InitSent s" "is_local_index s = hs_next_index hs'"
    and "hs_next_index hs' \<noteq> hs_next_index hs"
  shows "hs_inv hs'"
  unfolding hs_inv_def using assms(2-5) assms(1) [unfolded hs_inv_def] by (metis HandshakeState.inject(1))

lemma hs_step_keeps:
  assumes "hs_step cr hs hs'"
  shows "hs_params hs' = hs_params hs" and "hs_last_timestamp hs \<le> hs_last_timestamp hs'"
    and "hs_inv hs \<Longrightarrow> hs_inv hs'" and "index_block (hs_next_index hs') = index_block (hs_next_index hs)"
proof -
  have "hs_params hs' = hs_params hs \<and> hs_last_timestamp hs \<le> hs_last_timestamp hs' \<and> (hs_inv hs \<longrightarrow> hs_inv hs') \<and>
    index_block (hs_next_index hs') = index_block (hs_next_index hs)"
    using assms
  proof cases
    case (initiate now dst_len ty r x r')
    note eff = format_initiation_effect [OF this]
    show ?thesis
    proof (cases x)
      case (Inr msg)
      then obtain s where "hs_previous hs' = hs_state hs" "hs_next_index hs' = fst (inc_index hs)"
        "hs_state hs' = InitSent s" "is_local_index s = fst (inc_index hs)"
        using eff(1) by auto
      then show ?thesis
        using hs_inv_initiate [of hs hs' s] inc_index_block [of hs] inc_index_neq [of hs] eff(2,3) by simp
    qed (use eff(1) in simp)
  next
    case initiation
    from receive_initiation_effect [OF this] show ?thesis
      by blast
  next
    case response
    from receive_response_effect [OF this] show ?thesis
      by (auto simp: hs_inv_def split: sum.splits)
  next
    case cookie
    from cookie_reply_effect [OF this] show ?thesis
      by auto
  next
    case expire
    then show ?thesis
      by (simp add: set_expired_def hs_inv_def)
  next
    case forget
    then show ?thesis
      by (simp add: clear_cookie_def)
  qed
  then show "hs_params hs' = hs_params hs" and "hs_last_timestamp hs \<le> hs_last_timestamp hs'"
    and "hs_inv hs \<Longrightarrow> hs_inv hs'" and "index_block (hs_next_index hs') = index_block (hs_next_index hs)"
    by blast+
qed

lemma hs_steps_keep:
  assumes "(hs_step cr)\<^sup>*\<^sup>* hs hs'"
  shows "hs_params hs' = hs_params hs" and "hs_last_timestamp hs \<le> hs_last_timestamp hs'"
    and "hs_inv hs \<Longrightarrow> hs_inv hs'" and "index_block (hs_next_index hs') = index_block (hs_next_index hs)"
  using assms by (induction rule: rtranclp_induct) (auto dest: hs_step_keeps intro: order_trans)

lemma hs_inv_new [simp]: "hs_inv (Handshake_new cr ts priv pub peer idx psk)"
  by (simp add: hs_inv_def Handshake_new_def)

section \<open>Indices\<close>

text \<open>The indices of a run of \<open>inc_index\<close> calls.\<close>

fun take_indices :: "nat \<Rightarrow> handshake \<Rightarrow> u32 list \<times> handshake" where
  "take_indices 0 hs = ([], hs)"
| "take_indices (Suc n) hs =
     (let (i, hs) = inc_index hs; (is, hs) = take_indices n hs in (i # is, hs))"

lemma take_indices_low:
  "map (\<lambda>i. ucast i :: u8) (fst (take_indices n hs)) = map (\<lambda>k. ucast (hs_next_index hs) + of_nat (Suc k)) [0..<n]"
proof (induction n arbitrary: hs)
  case (Suc n)
  obtain i hs1 where i: "inc_index hs = (i, hs1)"
    by fastforce
  then have "(ucast (hs_next_index hs1) :: u8) = ucast (hs_next_index hs) + 1" "(ucast i :: u8) = ucast (hs_next_index hs) + 1"
    using inc_index_low [of hs] inc_index_frame [OF i] by auto
  then show ?case
    using Suc [of hs1] i by (simp add: split_beta map_upt_Suc add.assoc del: upt_Suc)
qed simp

lemma take_indices_block: "i \<in> set (fst (take_indices n hs)) \<Longrightarrow> index_block i = index_block (hs_next_index hs)"
proof (induction n arbitrary: hs)
  case (Suc n)
  obtain j hs1 where j: "inc_index hs = (j, hs1)"
    by fastforce
  then have "index_block j = index_block (hs_next_index hs)" "hs_next_index hs1 = j"
    using inc_index_block [of hs] inc_index_frame [OF j] by auto
  then show ?case
    using Suc j by (auto simp: split_beta)
qed simp

lemma distinct_bytes_upt: "n \<le> 256 \<Longrightarrow> distinct (map (\<lambda>k. (c :: u8) + of_nat (Suc k)) [0..<n])"
  unfolding distinct_map inj_on_def
  by (auto simp: word_of_nat_eq_iff take_bit_nat_eq_self_iff [THEN iffD2])

lemma length_take_indices: "length (fst (take_indices n hs)) = n"
  using arg_cong [OF take_indices_low [of n hs], of length] by simp

lemma read_initiation_total:
  assumes "crypto_ok cr" "length (hi_encrypted_static pk) = 48" "length (hi_encrypted_timestamp pk) = 28"
  shows "read_initiation cr p pk \<noteq> None"
  unfolding read_initiation_def Let_def case_prod_unfold
  by (intro bind_res_not_None if_not_None aead_open_total [OF assms(1)])
    (simp_all add: assms KEY_LEN_def TIMESTAMP_LEN_def)

section \<open>Properties\<close>

text \<open>
  C6. A handshake between two peers that know each other's public key and share the same
  preshared key completes, and both ends derive the two ends of one session: the initiation is
  parsed and accepted by the responder, whose response is parsed and accepted by the
  initiator, and the sessions seal and open with mirrored keys and indices. The clock of the
  initiator must be past the last timestamp the responder saw.
\<close>

theorem handshake_agreement:
  assumes "crypto_ok cr" "params_ok cr (hs_params hsA)" "params_ok cr (hs_params hsB)"
    and "mirrored (hs_params hsA) (hs_params hsB)"
    and "hs_last_timestamp hsB < stamp_time now (hs_stamper hsA)"
    and "HANDSHAKE_INIT_SZ \<le> n" "HANDSHAKE_RESP_SZ \<le> n'"
    and "HeaderRange_contains (hc_init hc) ty" "HeaderRange_contains (hc_response hc) ty'"
  shows "\<exists>msg1 hsA1 rA1 pk msg2 b hsB' rB1 rp a hsA2.
     format_handshake_initiation cr now n ty hsA rA = Some (Ok msg1, hsA1, rA1) \<and>
     parse_incoming_packet_config msg1 hc = Ok (HandshakeInit pk) \<and>
     receive_handshake_initialization cr pk n' ty' hsB rB = Some (Ok (msg2, b), hsB', rB1) \<and>
     parse_incoming_packet_config msg2 hc = Ok (HandshakeResponse rp) \<and>
     receive_handshake_response cr now' rp hsA1 = Some (Ok a, hsA2) \<and> paired a b \<and>
     receiving_index a = fst (inc_index hsA) \<and> receiving_index b = fst (inc_index hsB)"
proof -
  obtain msg1 pk st macs hsA1 rA1 where i:
    "format_handshake_initiation cr now n ty hsA rA = Some (Ok msg1, hsA1, rA1)"
    "msg1 = le_bytes 4 ty @ le_bytes 4 (hi_sender_idx pk) @ hi_unencrypted_ephemeral pk @ hi_encrypted_static pk @
       hi_encrypted_timestamp pk @ macs" "length macs = 32"
    "hs_state hsA1 = InitSent st" "hs_params hsA1 = hs_params hsA" "is_local_index st = fst (inc_index hsA)"
    "initiation_fits cr (hs_params hsB) (fst (fill_bytes 32 rA)) (stamp_time now (hs_stamper hsA)) pk st"
    using initiation_agreement [OF assms(1-4,6), of now ty rA] by blast
  have "pending_initiation hsA1 (is_local_index st) = Some (st, False)"
    by (simp add: pending_initiation_def awaited_def i(4))
  from response_agreement [OF assms(1) _ assms(3) _ i(7) assms(5) this assms(7), of ty' rB now'] assms(2,4) i(5)
  obtain msg2 rp macs2 a b hsA2 hsB' rB1 where r:
    "receive_handshake_initialization cr pk n' ty' hsB rB = Some (Ok (msg2, b), hsB', rB1)"
    "msg2 = le_bytes 4 ty' @ le_bytes 4 (hp_sender_idx rp) @ le_bytes 4 (hp_receiver_idx rp) @ hp_unencrypted_ephemeral rp @
       hp_encrypted_nothing rp @ macs2"
    "length (hp_unencrypted_ephemeral rp) = 32" "length (hp_encrypted_nothing rp) = 16" "length macs2 = 32"
    "receive_handshake_response cr now' rp hsA1 = Some (Ok a, hsA2)" "paired a b"
    "receiving_index a = is_local_index st" "receiving_index b = fst (inc_index hsB)"
    by auto
  have "parse_incoming_packet_config msg1 hc = Ok (HandshakeInit pk)"
    using i(3,7) assms(1) by (simp add: i(2) parse_initiation [OF assms(8)] initiation_fits_def length_pub)
  moreover have "parse_incoming_packet_config msg2 hc = Ok (HandshakeResponse rp)"
    by (simp add: r(2-5) parse_response [OF assms(9)])
  ultimately show ?thesis
    using i(1,6) r(1,6-9) by (intro exI conjI) auto
qed

text \<open>A pair of peers for the witnesses.\<close>

definition sample_peer :: "bytes \<Rightarrow> bytes \<Rightarrow> u32 \<Rightarrow> handshake" where
  "sample_peer mine theirs idx =
     Handshake_new sample_crypto \<lparr>duration_at_start = 5 * 10 ^ 9, instant_at_start = 0\<rparr> mine (cr_pub sample_crypto mine)
       (cr_pub sample_crypto theirs) idx (Some [1, 2])"

lemma sample_peers:
  "params_ok sample_crypto (hs_params (sample_peer a b i))"
  "mirrored (hs_params (sample_peer a b i)) (hs_params (sample_peer b a j))"
  "hs_last_timestamp (sample_peer a b i) = Tai64N_zero"
  by (simp_all add: sample_peer_def Handshake_new_def params_ok_new) (simp add: mirrored_def NoiseParams_new_def)

lemma sample_peer_clock: "Tai64N_zero < stamp_time 7 (hs_stamper (sample_peer a b i))"
  by (simp add: sample_peer_def Handshake_new_def stamp_time_def Tai64N_zero_def less_Tai64N_def Tai64N_after_def
      TAI64_BASE_def Let_def)

lemma sample_initiation:
  "\<exists>msg pk st hsA r'. format_handshake_initiation sample_crypto 7 148 1 (sample_peer [3] [4] i) (\<lambda>i. 5) = Some (Ok msg, hsA, r') \<and>
     hs_state hsA = InitSent st \<and> hs_params hsA = hs_params (sample_peer [3] [4] i) \<and>
     initiation_fits sample_crypto (hs_params (sample_peer [4] [3] 512)) (fst (fill_bytes 32 (\<lambda>i. 5)))
       (stamp_time 7 (hs_stamper (sample_peer [3] [4] i))) pk st"
  using initiation_agreement [OF sample_crypto_ok sample_peers(1) [of "[3]" "[4]" i] sample_peers(1)
      sample_peers(2) [of _ _ _ 512], where dst_len = 148 and now = 7 and ty = 1 and r = "\<lambda>i. 5"]
  unfolding HANDSHAKE_INIT_SZ_def by blast

theorem handshake_agreement_witness:
  "\<exists>msg1 hsA1 rA1 pk msg2 b hsB' rB1 rp a hsA2.
     format_handshake_initiation sample_crypto 7 148 1 (sample_peer [3] [4] 256) (\<lambda>i. of_nat i) = Some (Ok msg1, hsA1, rA1) \<and>
     parse_incoming_packet_config msg1 HeaderConfig_wireguard_compatible = Ok (HandshakeInit pk) \<and>
     receive_handshake_initialization sample_crypto pk 92 2 (sample_peer [4] [3] 512) (\<lambda>i. 9) = Some (Ok (msg2, b), hsB', rB1) \<and>
     parse_incoming_packet_config msg2 HeaderConfig_wireguard_compatible = Ok (HandshakeResponse rp) \<and>
     receive_handshake_response sample_crypto 20 rp hsA1 = Some (Ok a, hsA2) \<and> paired a b"
proof -
  have "HeaderRange_contains (hc_init HeaderConfig_wireguard_compatible) 1"
    "HeaderRange_contains (hc_response HeaderConfig_wireguard_compatible) 2"
    by (simp_all add: HeaderConfig_wireguard_compatible_def HeaderRange_contains_def HeaderRange_single_def)
  then show ?thesis
    using handshake_agreement [OF sample_crypto_ok sample_peers(1) [of "[3]" "[4]" 256] sample_peers(1) [of "[4]" "[3]" 512]
        sample_peers(2), where now = 7 and n = 148 and n' = 92 and hc = HeaderConfig_wireguard_compatible
        and ty = 1 and ty' = 2 and rA = "\<lambda>i. of_nat i" and rB = "\<lambda>i. 9" and now' = 20]
    by (simp add: sample_peers sample_peer_clock HANDSHAKE_INIT_SZ_def HANDSHAKE_RESP_SZ_def) blast
qed

text \<open>
  C9. An initiation is accepted at most once: once the responder has accepted it, it rejects
  the same message as a replay after any further calls on the handshake other than a change of
  its static key, and the rejection leaves the state as it was.
\<close>

theorem initiation_never_replayed:
  assumes "receive_handshake_initialization cr pk n ty hs r = Some (Ok x, hs', r')"
    and "(hs_step cr)\<^sup>*\<^sup>* hs' hs''"
  shows "receive_handshake_initialization cr pk n2 ty2 hs'' r2 = Some (Err WrongTai64nTimestamp, hs'', r2)"
  using assms(1)
proof (cases rule: receive_initiation_cases)
  case (read hash ck t hs1)
  have "hs_params hs' = hs_params hs" "hs_last_timestamp hs' = t"
    using format_response_effect [OF read(4)] read(3) by simp_all
  then have "hs_params hs'' = hs_params hs" "\<not> hs_last_timestamp hs'' < t"
    using hs_steps_keep(1,2) [OF assms(2)] by auto
  then show ?thesis
    using read(1) by (simp add: receive_handshake_initialization_def Tai64N_after_iff)
qed simp

theorem initiation_never_replayed_witness:
  "\<exists>pk x hs' r'. receive_handshake_initialization sample_crypto pk 92 2 (sample_peer [4] [3] 512) (\<lambda>i. 9) = Some (Ok x, hs', r') \<and>
     receive_handshake_initialization sample_crypto pk 92 2 (set_expired hs') r' =
       Some (Err WrongTai64nTimestamp, set_expired hs', r')"
proof -
  obtain pk st where fits: "initiation_fits sample_crypto (hs_params (sample_peer [4] [3] 512)) (fst (fill_bytes 32 (\<lambda>i. 5)))
      (stamp_time 7 (hs_stamper (sample_peer [3] [4] 256))) pk st"
    using sample_initiation [of 256] by blast
  define hsA where "hsA = (sample_peer [3] [4] 256)\<lparr>hs_state := InitSent st\<rparr>"
  have "pending_initiation hsA (is_local_index st) = Some (st, False)"
    "hs_params hsA = hs_params (sample_peer [3] [4] 256)"
    by (simp_all add: hsA_def pending_initiation_def awaited_def)
  then obtain x hs' r' where acc:
    "receive_handshake_initialization sample_crypto pk 92 2 (sample_peer [4] [3] 512) (\<lambda>i. 9) = Some (Ok x, hs', r')"
    using response_agreement [OF sample_crypto_ok, of hsA "sample_peer [4] [3] 512", OF _ _ _ fits, of False 92 2 "\<lambda>i. 9" 0]
      sample_peer_clock sample_peers by (auto simp: HANDSHAKE_RESP_SZ_def)
  from initiation_never_replayed [OF this r_into_rtranclp [where r = "hs_step sample_crypto", OF hs_step.expire]] acc show ?thesis
    by blast
qed

text \<open>
  A response is accepted at most once: in a state reached by any calls from a new
  handshake, the message that was just accepted is refused as unexpected, since the initiation
  it answered is no longer pending and the other pending one has another index.
\<close>

theorem response_accepted_once:
  assumes "(hs_step cr)\<^sup>*\<^sup>* (Handshake_new cr ts priv pub peer idx psk) hs"
    and "receive_handshake_response cr now rp hs = Some (Ok s, hs')"
  shows "receive_handshake_response cr now' rp hs' = Some (Err UnexpectedPacket, hs')"
proof -
  have "hs_inv hs"
    using hs_steps_keep(3) [OF assms(1)] by simp
  then have "awaited (hs_state hs') (hp_receiver_idx rp) = None" "awaited (hs_previous hs') (hp_receiver_idx rp) = None"
    using receive_response_effect(1) [OF assms(2)]
    by (auto simp: hs_inv_def awaited_def split: HandshakeState.splits if_splits)
  then show ?thesis
    by (simp add: receive_handshake_response_def pending_initiation_def)
qed

theorem response_accepted_once_witness:
  "\<exists>hs rp s hs'. receive_handshake_response sample_crypto 20 rp hs = Some (Ok s, hs') \<and>
     receive_handshake_response sample_crypto 30 rp hs' = Some (Err UnexpectedPacket, hs')"
proof -
  obtain msg pk st hsA r' where A: "format_handshake_initiation sample_crypto 7 148 1 (sample_peer [3] [4] 256) (\<lambda>i. 5) =
      Some (Ok msg, hsA, r')" "hs_state hsA = InitSent st" "hs_params hsA = hs_params (sample_peer [3] [4] 256)"
    and fits: "initiation_fits sample_crypto (hs_params (sample_peer [4] [3] 512)) (fst (fill_bytes 32 (\<lambda>i. 5)))
      (stamp_time 7 (hs_stamper (sample_peer [3] [4] 256))) pk st"
    using sample_initiation [of 256] by blast
  have "pending_initiation hsA (is_local_index st) = Some (st, False)"
    by (simp add: pending_initiation_def awaited_def A)
  then obtain rp s hs' where acc: "receive_handshake_response sample_crypto 20 rp hsA = Some (Ok s, hs')"
    using response_agreement [OF sample_crypto_ok, of hsA "sample_peer [4] [3] 512", OF _ _ _ fits, of False 92 2 "\<lambda>i. 9" 20]
      sample_peer_clock sample_peers A(3) by (auto simp: HANDSHAKE_RESP_SZ_def)
  have "(hs_step sample_crypto)\<^sup>*\<^sup>* (sample_peer [3] [4] 256) hsA"
    by (rule r_into_rtranclp) (rule hs_step.initiate [OF A(1)])
  from response_accepted_once [OF this [unfolded sample_peer_def] acc] acc show ?thesis
    by blast
qed

text \<open>
  Every session index a peer hands out stays in its block of 256 indices: after any calls
  on its handshake, the index it announces in an initiation or assigns to a session has the
  upper 24 bits it was created with, by which the device finds the peer of a packet.
\<close>

theorem session_index_in_block:
  assumes "(hs_step cr)\<^sup>*\<^sup>* (Handshake_new cr ts priv pub peer idx psk) hs"
  shows "(format_handshake_initiation cr now n ty hs r = Some (Ok msg', hs', r') \<longrightarrow>
            (\<exists>st. hs_state hs' = InitSent st \<and> index_block (is_local_index st) = index_block idx)) \<and>
         (receive_handshake_initialization cr pk n ty hs r = Some (Ok (msg, s), hs', r') \<longrightarrow>
            index_block (receiving_index s) = index_block idx)"
proof -
  have "index_block (hs_next_index hs) = index_block idx"
    using hs_steps_keep(4) [OF assms(1)] by (simp add: Handshake_new_def)
  then show ?thesis
    using format_initiation_effect(1) [of cr now n ty hs r "Ok msg'" hs' r'] inc_index_block [of hs]
      receive_initiation_effect(5) [of cr pk n ty hs r "Ok (msg, s)" hs' r' msg s] by auto
qed

theorem session_index_in_block_witness:
  "\<exists>msg hs' r' st. format_handshake_initiation sample_crypto 7 148 1 (sample_peer [3] [4] 0x1ff) (\<lambda>i. 5) = Some (Ok msg, hs', r') \<and>
     hs_state hs' = InitSent st \<and> index_block (is_local_index st) = index_block 0x1ff"
proof -
  obtain msg hs' r' where run:
    "format_handshake_initiation sample_crypto 7 148 1 (sample_peer [3] [4] 0x1ff) (\<lambda>i. 5) = Some (Ok msg, hs', r')"
    using sample_initiation [of "0x1ff"] by blast
  from session_index_in_block [where cr = sample_crypto and hs = "sample_peer [3] [4] 0x1ff" and msg' = msg and hs' = hs' and r' = r'
      and now = 7 and n = 148 and ty = 1 and r = "\<lambda>i. 5", unfolded sample_peer_def, OF rtranclp.rtrancl_refl]
  have "\<exists>st. hs_state hs' = InitSent st \<and> index_block (is_local_index st) = index_block 0x1ff"
    using run [unfolded sample_peer_def] by blast
  with run show ?thesis
    by blast
qed

text \<open>
  The 256 indices of a peer's block are handed out in turn: any 256 consecutive ones are
  pairwise distinct and in the same block, so a session keeps its index until 256 later ones.
\<close>

theorem session_indices_distinct:
  assumes "n \<le> 256"
  shows "distinct (fst (take_indices n hs)) \<and> length (fst (take_indices n hs)) = n \<and>
    (\<forall>i \<in> set (fst (take_indices n hs)). index_block i = index_block (hs_next_index hs))"
proof -
  have "distinct (map (\<lambda>i. ucast i :: u8) (fst (take_indices n hs)))"
    unfolding take_indices_low by (rule distinct_bytes_upt [OF assms])
  then show ?thesis
    using take_indices_block length_take_indices by (auto simp: distinct_map)
qed

theorem session_indices_distinct_witness:
  "distinct (fst (take_indices 256 (sample_peer [3] [4] 0x12ff)))"
  using session_indices_distinct [of 256] by simp

text \<open>
  C29. The anonymous reading the device uses to find the peer agrees with the peer's own: when a
  handshake reads an initiation, \<open>parse_handshake_anon\<close> on the same keys returns that peer's
  public key and the sender index.
\<close>

theorem parse_handshake_anon_agrees:
  assumes "read_initiation cr p pk = Some (Ok x)"
  shows "parse_handshake_anon cr (np_static_private p) (np_static_public p) pk =
    Some (Ok \<lparr>hh_peer_index = hi_sender_idx pk, hh_peer_static_public = np_peer_static_public p\<rparr>)"
proof -
  obtain ck key where k: "kdf2 cr (kdf1 cr INITIAL_CHAIN_KEY (hi_unencrypted_ephemeral pk))
      (cr_dh cr (np_static_private p) (hi_unencrypted_ephemeral pk)) = (ck, key)"
    by fastforce
  then show ?thesis
    using assms by (auto simp: read_initiation_def parse_handshake_anon_def bind_res_eq_Inr Let_def split: if_splits)
qed

theorem parse_handshake_anon_agrees_witness:
  "\<exists>pk. parse_handshake_anon sample_crypto [4] (cr_pub sample_crypto [4]) pk =
     Some (Ok \<lparr>hh_peer_index = hi_sender_idx pk, hh_peer_static_public = cr_pub sample_crypto [3]\<rparr>)"
proof -
  obtain pk st where "initiation_fits sample_crypto (hs_params (sample_peer [4] [3] 512)) (fst (fill_bytes 32 (\<lambda>i. 5)))
      (stamp_time 7 (hs_stamper (sample_peer [3] [4] 256))) pk st"
    using sample_initiation [of 256] by blast
  then obtain x where "read_initiation sample_crypto (hs_params (sample_peer [4] [3] 512)) pk = Some (Ok x)"
    by (auto simp: initiation_fits_def)
  from parse_handshake_anon_agrees [OF this] show ?thesis
    by (auto simp: sample_peer_def Handshake_new_def NoiseParams_new_def)
qed

text \<open>
  Reading an initiation of the wire format never panics, and an initiation that is not
  accepted has no effect: unless the response does not fit the buffer, the state and the
  random source are as before.
\<close>

theorem rejected_initiation_no_effect:
  assumes "crypto_ok cr" "length (hi_encrypted_static pk) = 48" "length (hi_encrypted_timestamp pk) = 28"
  shows "\<exists>res hs' r'. receive_handshake_initialization cr pk n ty hs r = Some (res, hs', r') \<and>
     (case res of Inl e \<Rightarrow> e \<noteq> DestinationBufferTooSmall \<longrightarrow> hs' = hs \<and> r' = r
      | Inr (msg, s) \<Rightarrow> HANDSHAKE_RESP_SZ \<le> n \<and> length msg = HANDSHAKE_RESP_SZ)"
proof -
  have "\<exists>x. read_initiation cr (hs_params hs) pk = Some x"
    using read_initiation_total [OF assms] by auto
  then obtain x where x: "read_initiation cr (hs_params hs) pk = Some x" ..
  show ?thesis
  proof (cases x)
    case (Inr y)
    with x show ?thesis
      using assms(1) by (cases y) (auto simp: receive_handshake_initialization_def format_handshake_response_def Let_def
          aead_chacha20_seal_def length_append_macs length_pub length_seal HANDSHAKE_RESP_SZ_def split_beta)
  qed (simp add: receive_handshake_initialization_def x)
qed

theorem rejected_initiation_no_effect_witness:
  "\<exists>res hs' r'. receive_handshake_initialization sample_crypto
       \<lparr>hi_sender_idx = 1, hi_unencrypted_ephemeral = [], hi_encrypted_static = replicate 48 0,
        hi_encrypted_timestamp = replicate 28 0\<rparr> 92 2 (sample_peer [4] [3] 512) (\<lambda>i. 9) = Some (res, hs', r')"
  using rejected_initiation_no_effect [OF sample_crypto_ok, of "\<lparr>hi_sender_idx = 1, hi_unencrypted_ephemeral = [],
      hi_encrypted_static = replicate 48 0, hi_encrypted_timestamp = replicate 28 0\<rparr>" 92 2 "sample_peer [4] [3] 512" "\<lambda>i. 9"]
  by auto

text \<open>
  Handshake timestamps follow the clock: a later initiation carries a later timestamp, as
  long as the date is below 2^62 seconds, so that the responder's replay check accepts it.
\<close>

theorem handshake_timestamps_increase:
  assumes "instant_at_start ts \<le> now" "now < now'"
    and "(now' - instant_at_start ts) + duration_at_start ts < 10 ^ 9 * 2 ^ 62"
  shows "\<exists>t t'. Tai64N_parse (TimeStamper_stamp now ts) = Ok t \<and> Tai64N_parse (TimeStamper_stamp now' ts) = Ok t' \<and>
    Tai64N_after t' t"
  using stamp_time_mono [OF assms] by (simp add: parse_stamp Tai64N_after_iff)

theorem handshake_timestamps_increase_witness:
  "\<exists>t t'. Tai64N_parse (TimeStamper_stamp 999999999 \<lparr>duration_at_start = 1, instant_at_start = 0\<rparr>) = Ok t \<and>
     Tai64N_parse (TimeStamper_stamp 1000000000 \<lparr>duration_at_start = 1, instant_at_start = 0\<rparr>) = Ok t' \<and> Tai64N_after t' t"
  by (rule handshake_timestamps_increase) simp_all

end
