(* ===== verification/RateLimiter.thy ===== *)
theory RateLimiter
  imports Handshake
begin

text \<open>
  The rate limiter of \<open>noise/rate_limiter.rs\<close>: the MACs of handshake messages, and cookies for
  senders that must prove their address while the device is under load. The atomic counters
  and the locked reset time are fields of the state; each call returns the new state. The
  results a tunnel returns (\<open>TunnResult\<close> of \<open>noise/mod.rs\<close>) are defined here, where they are
  first used.
\<close>

datatype TunnResult =
    Done
  | ErrResult WireGuardError
  | WriteToNetwork bytes
  | WriteToTunnelV4 bytes bytes
  | WriteToTunnelV6 bytes bytes

definition COOKIE_REFRESH :: nat where "COOKIE_REFRESH = 128"
definition COOKIE_SIZE :: nat where "COOKIE_SIZE = 16"
definition COOKIE_NONCE_SIZE :: nat where "COOKIE_NONCE_SIZE = 24"
definition RESET_PERIOD :: nat where "RESET_PERIOD = 1"

definition as_secs :: "nat \<Rightarrow> nat" where
  "as_secs duration = duration div 10 ^ 9"

record rate_limiter =
  rl_nonce_key :: bytes
  rl_secret_key :: bytes
  rl_start_time :: nat
  rl_nonce_ctr :: u64
  rl_mac1_key :: bytes
  rl_cookie_key :: bytes
  rl_limit :: u64
  rl_count :: u64
  rl_last_reset :: nat

definition RateLimiter_new :: "crypto \<Rightarrow> nat \<Rightarrow> bytes \<Rightarrow> u64 \<Rightarrow> rng \<Rightarrow> rate_limiter \<times> rng" where
  "RateLimiter_new cr now public_key limit r =
     (let (secret_key, r) = fill_bytes 16 r; (nonce_key, r) = fill_bytes 32 r
      in (\<lparr>rl_nonce_key = nonce_key, rl_secret_key = secret_key, rl_start_time = now, rl_nonce_ctr = 0,
           rl_mac1_key = b2s_hash cr LABEL_MAC1 public_key, rl_cookie_key = b2s_hash cr LABEL_COOKIE public_key,
           rl_limit = limit, rl_count = 0, rl_last_reset = now\<rparr>, r))"

definition reset_count :: "nat \<Rightarrow> rate_limiter \<Rightarrow> rate_limiter" where
  "reset_count now rl =
     (if as_secs (now - rl_last_reset rl) \<ge> RESET_PERIOD then rl\<lparr>rl_count := 0, rl_last_reset := now\<rparr> else rl)"

definition cookie_period :: "nat \<Rightarrow> rate_limiter \<Rightarrow> nat" where
  "cookie_period now rl = as_secs (now - rl_start_time rl) div COOKIE_REFRESH"

definition current_cookie :: "crypto \<Rightarrow> nat \<Rightarrow> IpAddr \<Rightarrow> rate_limiter \<Rightarrow> bytes" where
  "current_cookie cr now addr rl =
     (let addr_bytes = (case addr of V4 octets \<Rightarrow> octets @ replicate 12 0 | V6 octets \<Rightarrow> octets)
      in b2s_keyed_mac_16_2 cr (rl_secret_key rl) (le_bytes 8 (of_nat (cookie_period now rl) :: u64)) addr_bytes)"

definition rl_nonce :: "crypto \<Rightarrow> rate_limiter \<Rightarrow> bytes \<times> rate_limiter" where
  "rl_nonce cr rl =
     (b2s_mac_24 cr (rl_nonce_key rl) (le_bytes 8 (rl_nonce_ctr rl)), rl\<lparr>rl_nonce_ctr := rl_nonce_ctr rl + 1\<rparr>)"

definition is_under_load :: "rate_limiter \<Rightarrow> bool \<times> rate_limiter" where
  "is_under_load rl = (rl_count rl \<ge> rl_limit rl, rl\<lparr>rl_count := rl_count rl + 1\<rparr>)"

definition format_cookie_reply ::
    "crypto \<Rightarrow> u32 \<Rightarrow> bytes \<Rightarrow> bytes \<Rightarrow> nat \<Rightarrow> u32 \<Rightarrow> rate_limiter \<Rightarrow> (WireGuardError + bytes) \<times> rate_limiter" where
  "format_cookie_reply cr idx cookie mac1 dst_len msg_type rl =
     (if dst_len < COOKIE_REPLY_SZ then (Err DestinationBufferTooSmall, rl)
      else
        let (nonce, rl) = rl_nonce cr rl;
            encrypted_cookie = cr_xseal cr (rl_cookie_key rl) nonce mac1 cookie
        in (Ok (le_bytes 4 msg_type @ le_bytes 4 idx @ nonce @ encrypted_cookie), rl))"

text \<open>The sender index of a handshake message, the only packets that are checked.\<close>

definition handshake_sender :: "Packet \<Rightarrow> u32 option" where
  "handshake_sender p =
     (case p of HandshakeInit i \<Rightarrow> Some (hi_sender_idx i) | HandshakeResponse i \<Rightarrow> Some (hp_sender_idx i) | _ \<Rightarrow> None)"

definition verify_packet ::
    "crypto \<Rightarrow> nat \<Rightarrow> IpAddr option \<Rightarrow> bytes \<Rightarrow> nat \<Rightarrow> header_config \<Rightarrow> bool \<Rightarrow> rate_limiter \<Rightarrow> rng \<Rightarrow>
     (TunnResult + Packet) \<times> rate_limiter \<times> rng" where
  "verify_packet cr now src_addr src dst_len hc disable_cookies rl r =
     (case parse_incoming_packet_config src hc of
        Inl e \<Rightarrow> (Err (ErrResult e), rl, r)
      | Inr packet \<Rightarrow>
         (case handshake_sender packet of
            None \<Rightarrow> (Ok packet, rl, r)
          | Some sender_idx \<Rightarrow>
              let msg = take (length src - 32) src;
                  macs = drop (length src - 32) src;
                  mac1 = take 16 macs;
                  mac2 = drop 16 macs
              in if b2s_keyed_mac_16 cr (rl_mac1_key rl) msg \<noteq> mac1 then (Err (ErrResult InvalidMac), rl, r)
                 else if disable_cookies then (Ok packet, rl, r)
                 else
                   let (under_load, rl) = is_under_load rl in
                   if \<not> under_load then (Ok packet, rl, r)
                   else case src_addr of
                     None \<Rightarrow> (Err (ErrResult UnderLoad), rl, r)
                   | Some addr \<Rightarrow>
                       let cookie = current_cookie cr now addr rl in
                       if b2s_keyed_mac_16_2 cr cookie msg mac1 = mac2 then (Ok packet, rl, r)
                       else
                         let (cookie_msg_type, r) = HeaderRange_generate (hc_cookie hc) r;
                             (reply, rl) = format_cookie_reply cr sender_idx cookie mac1 dst_len cookie_msg_type rl
                         in (case reply of Inl e \<Rightarrow> Err (ErrResult e) | Inr p \<Rightarrow> Err (WriteToNetwork p), rl, r)))"

section \<open>Checking\<close>

text \<open>What a message with the given body and MACs must satisfy.\<close>

definition serves :: "crypto \<Rightarrow> rate_limiter \<Rightarrow> bytes \<Rightarrow> bool" where
  "serves cr rl public_key \<longleftrightarrow>
     rl_mac1_key rl = b2s_hash cr LABEL_MAC1 public_key \<and> rl_cookie_key rl = b2s_hash cr LABEL_COOKIE public_key"

definition mac2_valid :: "crypto \<Rightarrow> nat \<Rightarrow> IpAddr option \<Rightarrow> bytes \<Rightarrow> rate_limiter \<Rightarrow> bool" where
  "mac2_valid cr now src_addr src rl =
     (case src_addr of
        None \<Rightarrow> False
      | Some addr \<Rightarrow>
          b2s_keyed_mac_16_2 cr (current_cookie cr now addr rl) (take (length src - 32) src)
            (take 16 (drop (length src - 32) src)) = drop 16 (drop (length src - 32) src))"

definition same_keys :: "rate_limiter \<Rightarrow> rate_limiter \<Rightarrow> bool" where
  "same_keys rl rl' \<longleftrightarrow>
     rl_secret_key rl = rl_secret_key rl' \<and> rl_start_time rl = rl_start_time rl' \<and> rl_mac1_key rl = rl_mac1_key rl' \<and>
     rl_cookie_key rl = rl_cookie_key rl' \<and> rl_limit rl = rl_limit rl'"

lemma same_keys_refl [simp]: "same_keys rl rl"
  by (simp add: same_keys_def)

lemma same_keys_trans: "same_keys a b \<Longrightarrow> same_keys b c \<Longrightarrow> same_keys a c"
  by (simp add: same_keys_def)

lemma current_cookie_same: "same_keys rl rl' \<Longrightarrow> current_cookie cr now addr rl = current_cookie cr now addr rl'"
  by (simp add: current_cookie_def cookie_period_def same_keys_def Let_def)

lemma mac2_valid_same: "same_keys rl rl' \<Longrightarrow> mac2_valid cr now addr src rl = mac2_valid cr now addr src rl'"
  by (simp add: mac2_valid_def current_cookie_same split: option.splits)

lemma current_cookie_period:
  "cookie_period now rl = cookie_period now' rl \<Longrightarrow> current_cookie cr now addr rl = current_cookie cr now' addr rl"
  by (simp add: current_cookie_def)

lemma current_cookie_count [simp]:
  "current_cookie cr now addr (rl\<lparr>rl_count := c\<rparr>) = current_cookie cr now addr rl"
  by (simp add: current_cookie_def cookie_period_def)

lemma format_cookie_reply_keys: "format_cookie_reply cr i c m n ty rl = (x, rl') \<Longrightarrow> same_keys rl rl' \<and> rl_count rl' = rl_count rl"
  by (auto simp: format_cookie_reply_def rl_nonce_def same_keys_def Let_def split: if_splits)

lemma verify_packet_effect:
  assumes "verify_packet cr now addr src n hc dis rl r = (res, rl', r')"
  shows "same_keys rl rl'"
    and "rl_count rl' = rl_count rl \<and> (case res of Inl _ \<Rightarrow> True | Inr p \<Rightarrow> dis \<or> handshake_sender p = None) \<or>
         \<not> dis \<and> rl_count rl' = rl_count rl + 1 \<and>
           (case res of Inl _ \<Rightarrow> True | Inr p \<Rightarrow> rl_count rl < rl_limit rl \<or> mac2_valid cr now addr src rl)"
proof -
  have "same_keys rl rl' \<and> (rl_count rl' = rl_count rl \<and> (case res of Inl _ \<Rightarrow> True | Inr p \<Rightarrow> dis \<or> handshake_sender p = None) \<or>
         \<not> dis \<and> rl_count rl' = rl_count rl + 1 \<and>
           (case res of Inl _ \<Rightarrow> True | Inr p \<Rightarrow> rl_count rl < rl_limit rl \<or> mac2_valid cr now addr src rl))"
  proof (cases "parse_incoming_packet_config src hc")
    case (Inl e)
    then show ?thesis
      using assms by (auto simp: verify_packet_def)
  next
    case (Inr p)
    have "same_keys rl (rl\<lparr>rl_count := c\<rparr>)" for c
      by (simp add: same_keys_def)
    then show ?thesis
      using assms Inr
      by (auto simp: verify_packet_def Let_def is_under_load_def mac2_valid_def not_le same_keys_def
          dest!: format_cookie_reply_keys split: option.splits if_splits prod.splits sum.splits)
  qed
  then show "same_keys rl rl'" and "rl_count rl' = rl_count rl \<and> (case res of Inl _ \<Rightarrow> True | Inr p \<Rightarrow> dis \<or> handshake_sender p = None) \<or>
         \<not> dis \<and> rl_count rl' = rl_count rl + 1 \<and>
           (case res of Inl _ \<Rightarrow> True | Inr p \<Rightarrow> rl_count rl < rl_limit rl \<or> mac2_valid cr now addr src rl)"
    by blast+
qed

section \<open>MACs of a handshake message\<close>

lemma append_macs_split:
  assumes "crypto_ok cr" "append_mac1_and_mac2 cr i body hs = (pkt, hs')"
  shows "take (length pkt - 32) pkt = body"
    and "take 16 (drop (length pkt - 32) pkt) = b2s_keyed_mac_16 cr (np_sending_mac1_key (hs_params hs)) body"
    and "drop 16 (drop (length pkt - 32) pkt) =
      (case write_cookie (hs_cookies hs) of
         Some c \<Rightarrow> b2s_keyed_mac_16 cr c (body @ b2s_keyed_mac_16 cr (np_sending_mac1_key (hs_params hs)) body)
       | None \<Rightarrow> replicate 16 0)"
    and "last_mac1 (hs_cookies hs') = Some (b2s_keyed_mac_16 cr (np_sending_mac1_key (hs_params hs)) body)"
    and "cookie_index (hs_cookies hs') = i" and "hs_params hs' = hs_params hs"
  using assms by (auto simp: append_mac1_and_mac2_def Let_def b2s_keyed_mac_16_def length_mac16 split: option.splits)

lemma parse_cookie_reply:
  assumes "HeaderRange_contains (hc_cookie hc) ty" "length nonce = 24" "length ct = 32"
  shows "parse_incoming_packet_config (le_bytes 4 ty @ le_bytes 4 i @ nonce @ ct) hc =
    Ok (PacketCookieReply \<lparr>pcr_receiver_idx = i, pcr_nonce = nonce, pcr_encrypted_cookie = ct\<rparr>)"
  using assms by (simp add: parse_incoming_packet_config_def HANDSHAKE_INIT_SZ_def HANDSHAKE_RESP_SZ_def COOKIE_REPLY_SZ_def
      slice_def Let_def)

lemma verify_reply_shape:
  assumes "verify_packet cr now addr src n hc dis rl r = (Err (WriteToNetwork reply), rl', r')"
    and "parse_incoming_packet_config src hc = Ok p"
  shows "\<exists>i a. handshake_sender p = Some i \<and> addr = Some a \<and> \<not> dis \<and>
     reply = le_bytes 4 (fst (HeaderRange_generate (hc_cookie hc) r)) @ le_bytes 4 i @
       b2s_mac_24 cr (rl_nonce_key rl) (le_bytes 8 (rl_nonce_ctr rl)) @
       cr_xseal cr (rl_cookie_key rl) (b2s_mac_24 cr (rl_nonce_key rl) (le_bytes 8 (rl_nonce_ctr rl)))
         (take 16 (drop (length src - 32) src)) (current_cookie cr now a rl)"
  using assms
  by (auto simp: verify_packet_def Let_def is_under_load_def format_cookie_reply_def rl_nonce_def split_beta
      split: option.splits if_splits sum.splits)

section \<open>Runs of checks\<close>

type_synonym arrival = "nat \<times> IpAddr option \<times> bytes \<times> nat"

fun verify_all ::
    "crypto \<Rightarrow> header_config \<Rightarrow> bool \<Rightarrow> arrival list \<Rightarrow> rate_limiter \<Rightarrow> rng \<Rightarrow> (TunnResult + Packet) list" where
  "verify_all cr hc dis [] rl r = []"
| "verify_all cr hc dis ((now, addr, src, n) # xs) rl r =
     (let (res, rl, r) = verify_packet cr now addr src n hc dis rl r in res # verify_all cr hc dis xs rl r)"

text \<open>A handshake message that was let through without a valid \<open>mac2\<close>.\<close>

definition unproved :: "crypto \<Rightarrow> rate_limiter \<Rightarrow> arrival \<times> (TunnResult + Packet) \<Rightarrow> bool" where
  "unproved cr rl = (\<lambda>((now, addr, src, n), res).
     (case res of Inl _ \<Rightarrow> False | Inr p \<Rightarrow> handshake_sender p \<noteq> None \<and> \<not> mac2_valid cr now addr src rl))"

lemma unproved_same: "same_keys rl rl' \<Longrightarrow> unproved cr rl = unproved cr rl'"
  by (auto simp: unproved_def fun_eq_iff mac2_valid_same split: sum.splits)

lemma verify_all_bound:
  "\<not> dis \<Longrightarrow> unat (rl_count rl) + length xs < 2 ^ 64 \<Longrightarrow>
   length (filter (unproved cr rl) (zip xs (verify_all cr hc dis xs rl r))) \<le> unat (rl_limit rl) - unat (rl_count rl)"
proof (induction cr hc dis xs rl r rule: verify_all.induct)
  case (2 cr hc dis now addr src n xs rl r)
  obtain res rl' r' where v: "verify_packet cr now addr src n hc dis rl r = (res, rl', r')"
    by (meson prod_cases3)
  note eff = verify_packet_effect [OF v]
  have lim: "rl_limit rl' = rl_limit rl"
    using eff(1) by (simp add: same_keys_def)
  have inc: "unat (rl_count rl + 1) = unat (rl_count rl) + 1"
    using 2(3) by (subst unat_add_small) simp_all
  have cnt: "unat (rl_count rl') \<le> unat (rl_count rl) + 1"
    using eff(2) inc by auto
  have "length (filter (unproved cr rl) (zip xs (verify_all cr hc dis xs rl' r'))) \<le> unat (rl_limit rl) - unat (rl_count rl')"
    using 2(1) [OF v [symmetric] refl refl] 2(2,3) cnt lim unproved_same [OF eff(1)] by simp
  moreover have "unproved cr rl ((now, addr, src, n), res) \<Longrightarrow>
      unat (rl_count rl') = unat (rl_count rl) + 1 \<and> rl_count rl < rl_limit rl"
    using eff(2) inc 2(2) by (auto simp: unproved_def split: sum.splits)
  moreover have "unat (rl_count rl) \<le> unat (rl_count rl')"
    using eff(2) inc by auto
  ultimately show ?case
    using v by (auto simp: word_less_nat_alt)
qed simp

section \<open>Properties\<close>

text \<open>
  C14. The cookie exchange works: when a limiter under load answers an initiation with a cookie
  reply, the initiator accepts the reply, and its next initiation from the same address within
  the same two-minute period passes the limiter however loaded it is.
\<close>

theorem cookie_exchange:
  assumes "crypto_ok cr" "params_ok cr (hs_params hs)" "serves cr rl (np_peer_static_public (hs_params hs))"
    and "hr_wf (hc_cookie hc)"
    and "append_mac1_and_mac2 cr i body hs = (pkt, hs1)"
    and "parse_incoming_packet_config pkt hc = Ok (HandshakeInit p)" "hi_sender_idx p = i"
    and "verify_packet cr now addr pkt n hc dis rl r = (Err (WriteToNetwork reply), rl', r')"
  shows "\<exists>ck hs2. parse_incoming_packet_config reply hc = Ok (PacketCookieReply ck) \<and>
     receive_cookie_reply cr ck hs1 = (Ok (), hs2) \<and>
     (\<forall>j body' pkt' hs3 p' now' n' c r2.
        append_mac1_and_mac2 cr j body' hs2 = (pkt', hs3) \<longrightarrow>
        parse_incoming_packet_config pkt' hc = Ok (HandshakeInit p') \<longrightarrow>
        cookie_period now' rl = cookie_period now rl \<longrightarrow>
        fst (verify_packet cr now' addr pkt' n' hc dis (rl'\<lparr>rl_count := c\<rparr>) r2) = Ok (HandshakeInit p'))"
proof -
  note cr = assms(1) and macs = append_macs_split [OF assms(1,5)]
  let ?nonce = "b2s_mac_24 cr (rl_nonce_key rl) (le_bytes 8 (rl_nonce_ctr rl))"
  obtain a where a: "addr = Some a" and reply: "reply = le_bytes 4 (fst (HeaderRange_generate (hc_cookie hc) r)) @ le_bytes 4 i @
      ?nonce @ cr_xseal cr (rl_cookie_key rl) ?nonce (take 16 (drop (length pkt - 32) pkt)) (current_cookie cr now a rl)"
    using verify_reply_shape [OF assms(8,6)] assms(7) by (auto simp: handshake_sender_def)
  define ct where "ct = cr_xseal cr (rl_cookie_key rl) ?nonce (take 16 (drop (length pkt - 32) pkt)) (current_cookie cr now a rl)"
  have lens: "length ?nonce = 24" "length (current_cookie cr now a rl) = 16" "length ct = 32"
    using cr by (simp_all add: ct_def b2s_mac_24_def length_mac24 current_cookie_def b2s_keyed_mac_16_2_def length_mac16
        length_xseal Let_def)
  define ck where "ck = \<lparr>pcr_receiver_idx = i, pcr_nonce = ?nonce, pcr_encrypted_cookie = ct\<rparr>"
  define hs2 where "hs2 = hs1\<lparr>hs_cookies := (hs_cookies hs1)\<lparr>write_cookie := Some (current_cookie cr now a rl)\<rparr>\<rparr>"
  have "parse_incoming_packet_config reply hc = Ok (PacketCookieReply ck)"
    using parse_cookie_reply [OF HeaderRange_generate_in [OF assms(4)] lens(1,3)] by (simp add: reply ct_def ck_def)
  moreover have "receive_cookie_reply cr ck hs1 = (Ok (), hs2)"
    using assms(3) cr lens macs by (simp add: receive_cookie_reply_def ck_def hs2_def serves_def ct_def)
  moreover have "fst (verify_packet cr now' addr pkt' n' hc dis (rl'\<lparr>rl_count := c\<rparr>) r2) = Ok (HandshakeInit p')"
    if next_msg: "append_mac1_and_mac2 cr j body' hs2 = (pkt', hs3)" "parse_incoming_packet_config pkt' hc = Ok (HandshakeInit p')"
      "cookie_period now' rl = cookie_period now rl" for j body' pkt' hs3 p' now' n' c r2
  proof -
    note m2 = append_macs_split [OF cr next_msg(1)]
    have keys: "same_keys rl rl'"
      by (rule verify_packet_effect(1) [OF assms(8)])
    have "current_cookie cr now' a rl' = current_cookie cr now a rl"
      using current_cookie_same [OF keys] current_cookie_period [OF next_msg(3)] by simp
    moreover have "rl_mac1_key rl' = np_sending_mac1_key (hs_params hs2)"
      using assms(2,3) keys macs(6) by (simp add: same_keys_def serves_def params_ok_def hs2_def)
    ultimately show ?thesis
      using next_msg(2) m2(1-3) a by (simp add: verify_packet_def handshake_sender_def is_under_load_def hs2_def
          b2s_keyed_mac_16_def b2s_keyed_mac_16_2_def Let_def)
  qed
  ultimately show ?thesis
    by blast
qed

definition sample_limiter :: "u64 \<Rightarrow> rate_limiter" where
  "sample_limiter limit = fst (RateLimiter_new sample_crypto 0 (cr_pub sample_crypto [4]) limit (\<lambda>i. 2))"

definition sample_body :: bytes where
  "sample_body = le_bytes 4 (1 :: u32) @ le_bytes 4 (257 :: u32) @ replicate 32 0 @ replicate 48 0 @ replicate 28 0"

lemma sample_limiter_serves: "serves sample_crypto (sample_limiter limit) (np_peer_static_public (hs_params (sample_peer [3] [4] 256)))"
  by (simp add: sample_limiter_def RateLimiter_new_def serves_def sample_peer_def Handshake_new_def NoiseParams_new_def split_beta)

lemma sample_body_parse:
  assumes "append_mac1_and_mac2 sample_crypto i sample_body hs = (pkt, hs1)"
  shows "\<exists>p. parse_incoming_packet_config pkt HeaderConfig_wireguard_compatible = Ok (HandshakeInit p) \<and> hi_sender_idx p = 257"
proof -
  obtain macs where "pkt = sample_body @ macs" "length macs = 32"
    using append_macs_eq(1) [OF sample_crypto_ok assms] by auto
  then show ?thesis
    using parse_initiation [of HeaderConfig_wireguard_compatible 1 "replicate 32 0" "replicate 48 0" "replicate 28 0" macs 257]
    by (simp add: sample_body_def HeaderConfig_wireguard_compatible_def HeaderRange_contains_def HeaderRange_single_def)
qed

lemma sample_sums: "sum_list sample_body = 3" "sum_list LABEL_MAC1 = 22"
  by code_simp+

lemma le_bytes_zero: "le_bytes n 0 = replicate n 0"
  by (induction n) simp_all

lemma verify_under_load:
  assumes "parse_incoming_packet_config src hc = Ok p" "handshake_sender p = Some i" "rl_limit rl \<le> rl_count rl"
    and "b2s_keyed_mac_16 cr (rl_mac1_key rl) (take (length src - 32) src) = take 16 (drop (length src - 32) src)"
    and "\<not> mac2_valid cr now (Some a) src rl" "COOKIE_REPLY_SZ \<le> n"
  shows "\<exists>reply rl' r'. verify_packet cr now (Some a) src n hc False rl r = (Err (WriteToNetwork reply), rl', r')"
  using assms by (auto simp: verify_packet_def mac2_valid_def is_under_load_def format_cookie_reply_def rl_nonce_def split_beta Let_def)

lemma sample_cookie_reply:
  assumes "append_mac1_and_mac2 sample_crypto 257 sample_body (sample_peer [3] [4] 256) = (pkt, hs1)"
  shows "\<exists>reply rl' r'. verify_packet sample_crypto 0 (Some (V4 [1, 2, 3, 4])) pkt 64 HeaderConfig_wireguard_compatible False
    (sample_limiter 0) (\<lambda>i. 9) = (Err (WriteToNetwork reply), rl', r')"
proof -
  note macs = append_macs_split [OF sample_crypto_ok assms]
  have keys: "np_sending_mac1_key (hs_params (sample_peer [3] [4] 256)) = replicate 32 195"
    "rl_mac1_key (sample_limiter 0) = replicate 32 195" "write_cookie (hs_cookies (sample_peer [3] [4] 256)) = None"
    by (simp_all add: sample_peer_def Handshake_new_def NoiseParams_new_def sample_limiter_def RateLimiter_new_def split_beta
        b2s_hash_def sample_crypto_def sample_sums sum_list_replicate)
  have cookie: "current_cookie sample_crypto 0 (V4 [1, 2, 3, 4]) (sample_limiter 0) = replicate 16 63"
    by (simp add: current_cookie_def cookie_period_def sample_limiter_def RateLimiter_new_def split_beta Let_def as_secs_def
        b2s_keyed_mac_16_2_def sample_crypto_def sum_list_replicate fill_bytes_def map_replicate_const le_bytes_zero)
  have m2: "\<not> mac2_valid sample_crypto 0 (Some (V4 [1, 2, 3, 4])) pkt (sample_limiter 0)"
    unfolding mac2_valid_def option.case macs(1-3) keys cookie
    by (simp add: b2s_keyed_mac_16_def b2s_keyed_mac_16_2_def sample_crypto_def sum_list_replicate sample_sums)
  obtain p where p: "parse_incoming_packet_config pkt HeaderConfig_wireguard_compatible = Ok (HandshakeInit p)" "hi_sender_idx p = 257"
    using sample_body_parse [OF assms] by blast
  show ?thesis
  proof (rule verify_under_load [OF p(1) _ _ _ m2])
    show "handshake_sender (HandshakeInit p) = Some 257"
      by (simp add: handshake_sender_def p(2))
    show "b2s_keyed_mac_16 sample_crypto (rl_mac1_key (sample_limiter 0)) (take (length pkt - 32) pkt) =
        take 16 (drop (length pkt - 32) pkt)"
      by (simp add: macs(1,2) keys)
  qed (simp_all add: sample_limiter_def RateLimiter_new_def split_beta COOKIE_REPLY_SZ_def)
qed

theorem cookie_exchange_witness:
  "\<exists>pkt hs1 reply rl' r' ck hs2.
     append_mac1_and_mac2 sample_crypto 257 sample_body (sample_peer [3] [4] 256) = (pkt, hs1) \<and>
     verify_packet sample_crypto 0 (Some (V4 [1, 2, 3, 4])) pkt 64 HeaderConfig_wireguard_compatible False (sample_limiter 0) (\<lambda>i. 9) =
       (Err (WriteToNetwork reply), rl', r') \<and>
     parse_incoming_packet_config reply HeaderConfig_wireguard_compatible = Ok (PacketCookieReply ck) \<and>
     receive_cookie_reply sample_crypto ck hs1 = (Ok (), hs2)"
proof -
  obtain pkt hs1 where 1: "append_mac1_and_mac2 sample_crypto 257 sample_body (sample_peer [3] [4] 256) = (pkt, hs1)"
    by fastforce
  obtain p where 2: "parse_incoming_packet_config pkt HeaderConfig_wireguard_compatible = Ok (HandshakeInit p)" "hi_sender_idx p = 257"
    using sample_body_parse [OF 1] by blast
  obtain reply rl' r' where 3: "verify_packet sample_crypto 0 (Some (V4 [1, 2, 3, 4])) pkt 64 HeaderConfig_wireguard_compatible False
      (sample_limiter 0) (\<lambda>i. 9) = (Err (WriteToNetwork reply), rl', r')"
    using sample_cookie_reply [OF 1] by blast
  have "hr_wf (hc_cookie HeaderConfig_wireguard_compatible)"
    by (simp add: HeaderConfig_wireguard_compatible_def HeaderRange_single_def hr_wf_def)
  from cookie_exchange [OF sample_crypto_ok sample_peers(1) sample_limiter_serves this 1 2 3] 1 3 show ?thesis
    by blast
qed

text \<open>
  C28. Between two resets at most \<open>limit\<close> handshake messages are let through without proof of
  address, unless cookies are disabled: of any run of arrivals, the accepted handshake messages
  without a valid cookie MAC are no more than the limit less those already counted.
\<close>

theorem rate_limit_bound:
  assumes "\<not> disable_cookies" "unat (rl_count rl) + length xs < 2 ^ 64"
  shows "length (filter (unproved cr rl) (zip xs (verify_all cr hc disable_cookies xs rl r))) \<le> unat (rl_limit rl) - unat (rl_count rl)"
  by (rule verify_all_bound [OF assms])

lemma verify_no_address:
  assumes "append_mac1_and_mac2 cr i body hs = (pkt, hs')" "parse_incoming_packet_config pkt hc = Ok p" "handshake_sender p = Some j"
    and "crypto_ok cr" "params_ok cr (hs_params hs)" "serves cr rl (np_peer_static_public (hs_params hs))"
  shows "verify_packet cr now None pkt n hc False rl r =
    (if rl_count rl < rl_limit rl then Ok p else Err (ErrResult UnderLoad), rl\<lparr>rl_count := rl_count rl + 1\<rparr>, r)"
  using assms(2,3,5,6) append_macs_split(1,2) [OF assms(4,1)]
  by (auto simp: verify_packet_def params_ok_def serves_def Let_def is_under_load_def)

text \<open>Three messages with the right MAC and a limit of one: the bound is reached.\<close>

theorem rate_limit_bound_witness:
  "\<exists>pkt p. pkt = fst (append_mac1_and_mac2 sample_crypto 257 sample_body (sample_peer [3] [4] 256)) \<and>
     verify_all sample_crypto HeaderConfig_wireguard_compatible False (replicate 3 (0, None, pkt, 64)) (sample_limiter 1) (\<lambda>i. 9) =
       [Ok p, Err (ErrResult UnderLoad), Err (ErrResult UnderLoad)] \<and>
     unproved sample_crypto (sample_limiter 1) ((0, None, pkt, 64), Ok p) \<and>
     length (filter (unproved sample_crypto (sample_limiter 1)) (zip (replicate 3 (0, None, pkt, 64))
       (verify_all sample_crypto HeaderConfig_wireguard_compatible False (replicate 3 (0, None, pkt, 64)) (sample_limiter 1) (\<lambda>i. 9)))) \<le> 1"
proof -
  obtain pkt hs1 where 1: "append_mac1_and_mac2 sample_crypto 257 sample_body (sample_peer [3] [4] 256) = (pkt, hs1)"
    by fastforce
  obtain p where 2: "parse_incoming_packet_config pkt HeaderConfig_wireguard_compatible = Ok (HandshakeInit p)" "hi_sender_idx p = 257"
    using sample_body_parse [OF 1] by blast
  have lim: "rl_count (sample_limiter 1) = 0" "rl_limit (sample_limiter 1) = 1"
    by (simp_all add: sample_limiter_def RateLimiter_new_def split_beta)
  have "serves sample_crypto ((sample_limiter 1)\<lparr>rl_count := c\<rparr>) (np_peer_static_public (hs_params (sample_peer [3] [4] 256)))" for c
    using sample_limiter_serves [of 1] by (simp add: serves_def)
  note again = this
  have s: "handshake_sender (HandshakeInit p) = Some 257"
    by (simp add: handshake_sender_def 2(2))
  note v = verify_no_address [OF 1 2(1) s sample_crypto_ok sample_peers(1)]
  have "verify_all sample_crypto HeaderConfig_wireguard_compatible False (replicate 3 (0, None, pkt, 64)) (sample_limiter 1) (\<lambda>i. 9) =
      [Ok (HandshakeInit p), Err (ErrResult UnderLoad), Err (ErrResult UnderLoad)]"
    using lim by (simp add: numeral_3_eq_3 v [OF sample_limiter_serves] v [OF again])
  moreover have "unproved sample_crypto (sample_limiter 1) ((0, None, pkt, 64), Ok (HandshakeInit p))"
    by (simp add: unproved_def mac2_valid_def s)
  ultimately show ?thesis
    using rate_limit_bound [of False "sample_limiter 1" "replicate 3 (0, None, pkt, 64)" sample_crypto HeaderConfig_wireguard_compatible "\<lambda>i. 9"] 1 lim
    by (intro exI [of _ pkt] exI [of _ "HandshakeInit p"]) simp
qed

text \<open>
  A handshake message of a peer that knows the device's public key is never refused for its
  first MAC, and is let through while the limiter is not under load or when cookies are
  disabled.
\<close>

theorem honest_message_verified:
  assumes "crypto_ok cr" "params_ok cr (hs_params hs)" "serves cr rl (np_peer_static_public (hs_params hs))"
    and "append_mac1_and_mac2 cr i body hs = (pkt, hs')" "parse_incoming_packet_config pkt hc = Ok p"
  shows "fst (verify_packet cr now addr pkt n hc dis rl r) \<noteq> Err (ErrResult InvalidMac) \<and>
    (dis \<or> rl_count rl < rl_limit rl \<longrightarrow> fst (verify_packet cr now addr pkt n hc dis rl r) = Ok p)"
  using assms(2,3,5) append_macs_split(1,2) [OF assms(1,4)]
  by (auto simp: verify_packet_def params_ok_def serves_def Let_def is_under_load_def format_cookie_reply_def split_beta
      split: option.splits sum.splits)

theorem honest_message_verified_witness:
  "\<exists>p. fst (verify_packet sample_crypto 0 None (fst (append_mac1_and_mac2 sample_crypto 257 sample_body (sample_peer [3] [4] 256)))
     64 HeaderConfig_wireguard_compatible False (sample_limiter 3) (\<lambda>i. 9)) = Ok p"
proof -
  obtain pkt hs1 where 1: "append_mac1_and_mac2 sample_crypto 257 sample_body (sample_peer [3] [4] 256) = (pkt, hs1)"
    by fastforce
  obtain p where 2: "parse_incoming_packet_config pkt HeaderConfig_wireguard_compatible = Ok (HandshakeInit p)"
    using sample_body_parse [OF 1] by blast
  have "rl_count (sample_limiter 3) < rl_limit (sample_limiter 3)"
    by (simp add: sample_limiter_def RateLimiter_new_def split_beta)
  with honest_message_verified [OF sample_crypto_ok sample_peers(1) sample_limiter_serves 1 2] show ?thesis
    by (auto simp: 1)
qed

end
