(* ===== verification/Timers.thy ===== *)
theory Timers
  imports RateLimiter
begin

text \<open>
  Clocks and timers: the sleep-aware \<open>Instant\<close> of \<open>sleepyinstant/unix.rs\<close>, and the \<open>Timers\<close> of
  \<open>noise/timers.rs\<close> with their AmneziaWG 3.0 randomised ranges. Elsewhere an instant is its
  number of nanoseconds; \<open>duration_since_refines\<close> shows that this is what the clock computes.
  Durations are nanoseconds too.
\<close>

section \<open>Instants\<close>

record timespec =
  tv_sec :: int
  tv_nsec :: int

definition checked_duration_since :: "timespec \<Rightarrow> timespec \<Rightarrow> (int \<times> int) option" where
  "checked_duration_since t earlier =
     (let (sec, nsec) =
        (if tv_nsec t < tv_nsec earlier
         then (tv_sec t - tv_sec earlier - 1, tv_nsec t - tv_nsec earlier + 1000000000)
         else (tv_sec t - tv_sec earlier, tv_nsec t - tv_nsec earlier))
      in if sec < 0 then None else Some (sec, nsec))"

definition duration_since :: "timespec \<Rightarrow> timespec \<Rightarrow> int \<times> int" where
  "duration_since t earlier = (case checked_duration_since t earlier of Some d \<Rightarrow> d | None \<Rightarrow> (0, 0))"

definition timespec_ok :: "timespec \<Rightarrow> bool" where
  "timespec_ok t \<longleftrightarrow> 0 \<le> tv_sec t \<and> 0 \<le> tv_nsec t \<and> tv_nsec t < 1000000000"

definition instant_of :: "timespec \<Rightarrow> nat" where
  "instant_of t = nat (tv_sec t * 1000000000 + tv_nsec t)"

lemma duration_since_refines:
  assumes "timespec_ok t" "timespec_ok e"
  shows "fst (duration_since t e) * 1000000000 + snd (duration_since t e) = int (instant_of t - instant_of e)"
proof -
  have nonneg: "0 \<le> tv_sec t * 1000000000 + tv_nsec t" "0 \<le> tv_sec e * 1000000000 + tv_nsec e"
    using assms by (auto simp: timespec_ok_def)
  then have "int (instant_of t - instant_of e) =
      max 0 ((tv_sec t * 1000000000 + tv_nsec t) - (tv_sec e * 1000000000 + tv_nsec e))"
    unfolding instant_of_def by linarith
  then show ?thesis
    using assms by (auto simp: duration_since_def checked_duration_since_def timespec_ok_def Let_def max_def split: if_splits)
qed

section \<open>Timers\<close>

definition REKEY_AFTER_TIME_SECS :: u32 where "REKEY_AFTER_TIME_SECS = 120"
definition REJECT_AFTER_TIME_SECS :: u32 where "REJECT_AFTER_TIME_SECS = 180"
definition REKEY_TIMEOUT_SECS :: u32 where "REKEY_TIMEOUT_SECS = 5"
definition KEEPALIVE_TIMEOUT_SECS :: u32 where "KEEPALIVE_TIMEOUT_SECS = 10"
definition MAX_TIMER_HANDSHAKES :: u32 where "MAX_TIMER_HANDSHAKES = 18"
definition REKEY_TIMEOUT_JITTER_MAX_MS :: u32 where "REKEY_TIMEOUT_JITTER_MAX_MS = 334"

definition from_secs :: "nat \<Rightarrow> nat" where
  "from_secs n = n * 10 ^ 9"

definition from_millis :: "nat \<Rightarrow> nat" where
  "from_millis n = n * 10 ^ 6"

definition REKEY_ATTEMPT_TIME :: nat where
  "REKEY_ATTEMPT_TIME = from_secs (unat (REKEY_TIMEOUT_SECS * MAX_TIMER_HANDSHAKES))"

definition REKEY_TIMEOUT :: nat where "REKEY_TIMEOUT = from_secs (unat REKEY_TIMEOUT_SECS)"
definition COOKIE_EXPIRATION_TIME :: nat where "COOKIE_EXPIRATION_TIME = from_secs 120"

definition N_SESSIONS :: nat where "N_SESSIONS = 8"

datatype TimerName =
    TimeCurrent
  | TimeSessionEstablished
  | TimeLastHandshakeStarted
  | TimeLastPacketReceived
  | TimeLastPacketSent
  | TimeLastDataPacketReceived
  | TimeLastDataPacketSent
  | TimeCookieReceived
  | TimePersistentKeepalive

text \<open>The array of named timers is a function of the name.\<close>

record timers =
  tm_is_initiator :: bool
  tm_time_started :: nat
  tm_timers :: "TimerName \<Rightarrow> nat"
  tm_session_timers :: "nat list"
  tm_want_keepalive :: bool
  tm_want_handshake :: bool
  tm_persistent_keepalive :: nat
  tm_timing_ranges :: timing_ranges
  tm_rekey_timeout_current :: nat
  tm_rekey_attempt_deadline :: nat
  tm_persistent_keepalive_next :: nat
  tm_should_reset_rr :: bool

definition Timers_new :: "nat \<Rightarrow> u16 option \<Rightarrow> bool \<Rightarrow> timing_ranges \<Rightarrow> rng \<Rightarrow> timers \<times> rng" where
  "Timers_new now persistent_keepalive reset_rr ranges r =
     (let (keepalive_next, r) = U32Range_pick_or (tr_persistent_keepalive ranges) 0 r
      in (\<lparr>tm_is_initiator = False, tm_time_started = now, tm_timers = (\<lambda>_. 0),
           tm_session_timers = replicate N_SESSIONS 0, tm_want_keepalive = False, tm_want_handshake = False,
           tm_persistent_keepalive = (case persistent_keepalive of Some k \<Rightarrow> unat k | None \<Rightarrow> 0),
           tm_timing_ranges = ranges, tm_rekey_timeout_current = REKEY_TIMEOUT,
           tm_rekey_attempt_deadline = REKEY_ATTEMPT_TIME,
           tm_persistent_keepalive_next = from_secs (unat keepalive_next), tm_should_reset_rr = reset_rr\<rparr>, r))"

definition roll_handshake_timings :: "bool \<Rightarrow> timers \<Rightarrow> rng \<Rightarrow> timers \<times> rng" where
  "roll_handshake_timings starting_new_handshake tm r =
     (let (rekey_timeout, r) = U32Range_pick_or (tr_rekey_timeout (tm_timing_ranges tm)) REKEY_TIMEOUT_SECS r;
          (jitter_ms, r) = gen_range_u32 0 (REKEY_TIMEOUT_JITTER_MAX_MS - 1) r;
          tm = tm\<lparr>tm_rekey_timeout_current := from_secs (unat rekey_timeout) + from_millis (unat jitter_ms)\<rparr>
      in if starting_new_handshake
         then let (max_attempts, r) = U32Range_pick_or (tr_max_handshake_attempts (tm_timing_ranges tm)) MAX_TIMER_HANDSHAKES r
              in (tm\<lparr>tm_rekey_attempt_deadline := from_secs (unat rekey_timeout * unat max_attempts)\<rparr>, r)
         else (tm, r))"

definition reject_after_time :: "timers \<Rightarrow> nat" where
  "reject_after_time tm =
     from_secs (unat (U32Range_hi_or (tr_reject_after_time (tm_timing_ranges tm)) REJECT_AFTER_TIME_SECS))"

definition Timers_clear :: "nat \<Rightarrow> timers \<Rightarrow> timers" where
  "Timers_clear now tm =
     tm\<lparr>tm_timers := (\<lambda>_. now - tm_time_started tm), tm_want_handshake := False, tm_want_keepalive := False\<rparr>"

definition persistent_keepalive :: "timers \<Rightarrow> u16 option" where
  "persistent_keepalive tm =
     (if \<not> U32Range_is_zero (tr_persistent_keepalive (tm_timing_ranges tm))
      then Some (of_nat (min (as_secs (tm_persistent_keepalive_next tm)) 65535))
      else if tm_persistent_keepalive tm > 0 then Some (of_nat (tm_persistent_keepalive tm))
      else None)"

text \<open>The timer that one call ticks, with the flags that go with it.\<close>

definition tick :: "TimerName \<Rightarrow> timers \<Rightarrow> timers" where
  "tick name tm =
     (let tm = (case name of
                  TimeLastPacketReceived \<Rightarrow> tm\<lparr>tm_want_keepalive := True, tm_want_handshake := False\<rparr>
                | TimeLastPacketSent \<Rightarrow> tm\<lparr>tm_want_handshake := True, tm_want_keepalive := False\<rparr>
                | _ \<Rightarrow> tm)
      in tm\<lparr>tm_timers := (tm_timers tm)(name := tm_timers tm TimeCurrent)\<rparr>)"

definition tick_session_established :: "bool \<Rightarrow> nat \<Rightarrow> timers \<Rightarrow> timers" where
  "tick_session_established is_init session_idx tm =
     (let tm = tick TimeSessionEstablished tm
      in tm\<lparr>tm_session_timers := (tm_session_timers tm)[session_idx mod N_SESSIONS := tm_timers tm TimeCurrent],
            tm_is_initiator := is_init\<rparr>)"

section \<open>No timer is ahead of the clock\<close>

definition timers_ok :: "timers \<Rightarrow> bool" where
  "timers_ok tm \<longleftrightarrow>
     (\<forall>n. tm_timers tm n \<le> tm_timers tm TimeCurrent) \<and>
     length (tm_session_timers tm) = N_SESSIONS \<and> (\<forall>x \<in> set (tm_session_timers tm). x \<le> tm_timers tm TimeCurrent)"

lemma timers_ok_new: "timers_ok (fst (Timers_new now k rr ranges r))"
  by (simp add: Timers_new_def timers_ok_def split_beta N_SESSIONS_def)

lemma timers_ok_tick [simp]: "timers_ok tm \<Longrightarrow> timers_ok (tick n tm)"
  by (auto simp: timers_ok_def tick_def Let_def split: TimerName.splits)

lemma timers_ok_established [simp]: "timers_ok tm \<Longrightarrow> timers_ok (tick_session_established b i tm)"
proof -
  assume "timers_ok tm"
  then have "timers_ok (tick TimeSessionEstablished tm)"
    by simp
  then show "timers_ok (tick_session_established b i tm)"
    using set_update_subset_insert [of "tm_session_timers (tick TimeSessionEstablished tm)"]
    by (fastforce simp: tick_session_established_def timers_ok_def Let_def)
qed

lemma timers_ok_roll [simp]: "timers_ok tm \<Longrightarrow> timers_ok (fst (roll_handshake_timings b tm r))"
  by (simp add: roll_handshake_timings_def timers_ok_def split_beta Let_def)

lemma time_current_roll [simp]: "tm_timers (fst (roll_handshake_timings b tm r)) = tm_timers tm"
  by (simp add: roll_handshake_timings_def split_beta Let_def)

lemma tick_current [simp]: "tm_timers (tick n tm) TimeCurrent = tm_timers tm TimeCurrent"
  by (auto simp: tick_def Let_def split: TimerName.splits)

lemma tick_fields [simp]:
  "tm_session_timers (tick n tm) = tm_session_timers tm" "tm_time_started (tick n tm) = tm_time_started tm"
  "tm_timing_ranges (tick n tm) = tm_timing_ranges tm" "tm_is_initiator (tick n tm) = tm_is_initiator tm"
  by (simp_all add: tick_def Let_def split: TimerName.splits)

section \<open>Properties\<close>

text \<open>
  The clock arithmetic of \<open>Instant\<close> is subtraction of nanoseconds: for two readings the
  duration is their difference, and zero (not a panic) when the earlier reading is later.
\<close>

theorem instant_duration_exact:
  assumes "timespec_ok t" "timespec_ok e"
  shows "fst (duration_since t e) * 1000000000 + snd (duration_since t e) = int (instant_of t - instant_of e) \<and>
    0 \<le> snd (duration_since t e) \<and> snd (duration_since t e) < 1000000000"
  using duration_since_refines [OF assms] assms
  by (auto simp: duration_since_def checked_duration_since_def timespec_ok_def Let_def split: if_splits)

theorem instant_duration_exact_witness:
  "duration_since \<lparr>tv_sec = 7, tv_nsec = 5\<rparr> \<lparr>tv_sec = 3, tv_nsec = 999999999\<rparr> = (3, 6) \<and>
   duration_since \<lparr>tv_sec = 3, tv_nsec = 5\<rparr> \<lparr>tv_sec = 7, tv_nsec = 0\<rparr> = (0, 0)"
  using instant_duration_exact [of "\<lparr>tv_sec = 7, tv_nsec = 5\<rparr>" "\<lparr>tv_sec = 3, tv_nsec = 999999999\<rparr>"]
    instant_duration_exact [of "\<lparr>tv_sec = 3, tv_nsec = 5\<rparr>" "\<lparr>tv_sec = 7, tv_nsec = 0\<rparr>"]
  by (simp add: duration_since_def checked_duration_since_def)

text \<open>
  Handshake timings stay in their ranges: the retransmit timeout is a value of the
  configured range (5 s when unset) plus less than 334 ms, and a new handshake is given up after
  that value times a number of attempts of the configured range (18 when unset).
\<close>

theorem roll_handshake_timings_bounds:
  assumes "tr_wf (tm_timing_ranges tm)"
  shows "\<exists>secs attempts jitter. fst (roll_handshake_timings True tm r) =
      tm\<lparr>tm_rekey_timeout_current := from_secs (unat secs) + from_millis jitter,
         tm_rekey_attempt_deadline := from_secs (unat secs * unat attempts)\<rparr> \<and> jitter < 334 \<and>
    U32Range_lo_or (tr_rekey_timeout (tm_timing_ranges tm)) REKEY_TIMEOUT_SECS \<le> secs \<and>
    secs \<le> U32Range_hi_or (tr_rekey_timeout (tm_timing_ranges tm)) REKEY_TIMEOUT_SECS \<and>
    U32Range_lo_or (tr_max_handshake_attempts (tm_timing_ranges tm)) MAX_TIMER_HANDSHAKES \<le> attempts \<and>
    attempts \<le> U32Range_hi_or (tr_max_handshake_attempts (tm_timing_ranges tm)) MAX_TIMER_HANDSHAKES"
proof -
  let ?g = "tr_rekey_timeout (tm_timing_ranges tm)" and ?a = "tr_max_handshake_attempts (tm_timing_ranges tm)"
  obtain secs r1 where s: "U32Range_pick_or ?g REKEY_TIMEOUT_SECS r = (secs, r1)"
    by fastforce
  obtain j r2 where j: "gen_range_u32 0 (REKEY_TIMEOUT_JITTER_MAX_MS - 1) r1 = (j, r2)"
    by fastforce
  obtain att r3 where a: "U32Range_pick_or ?a MAX_TIMER_HANDSHAKES r2 = (att, r3)"
    by fastforce
  have "unat j < 334"
    using gen_range_u32_bounds [of 0 "REKEY_TIMEOUT_JITTER_MAX_MS - 1" r1] j
    by (simp add: REKEY_TIMEOUT_JITTER_MAX_MS_def word_le_nat_alt)
  moreover have "ur_wf ?g" "ur_wf ?a"
    using assms by (simp_all add: tr_wf_def)
  ultimately show ?thesis
    using U32Range_pick_or_bounds [of ?g REKEY_TIMEOUT_SECS r] U32Range_pick_or_bounds [of ?a MAX_TIMER_HANDSHAKES r2]
    by (intro exI [of _ secs] exI [of _ att] exI [of _ "unat j"]) (simp add: roll_handshake_timings_def s j a)
qed

theorem roll_handshake_timings_bounds_witness:
  "\<exists>jitter. tm_rekey_timeout_current (fst (roll_handshake_timings True (fst (Timers_new 0 None True TimingRanges_default (\<lambda>i. 3))) (\<lambda>i. 200))) =
     from_secs 5 + from_millis jitter \<and> jitter < 334"
proof -
  have "tr_wf (tm_timing_ranges (fst (Timers_new 0 None True TimingRanges_default (\<lambda>i. 3))))"
    "U32Range_is_zero (tr_rekey_timeout (tm_timing_ranges (fst (Timers_new 0 None True TimingRanges_default (\<lambda>i. 3)))))"
    by (simp_all add: Timers_new_def split_beta TimingRanges_default_def U32Range_zero_def tr_wf_def ur_wf_def U32Range_is_zero_def)
  from roll_handshake_timings_bounds [OF this(1), of "\<lambda>i. 200"] this(2) show ?thesis
    by (auto simp: U32Range_lo_or_def U32Range_hi_or_def REKEY_TIMEOUT_SECS_def)
qed

end
