(* ===== verification/Tunn.thy ===== *)
theory Tunn
  imports Timers
begin

text \<open>
  The tunnel of \<open>noise/mod.rs\<close>: the whole \<open>Tunn\<close> struct and its methods, with the timer methods
  of \<open>noise/timers.rs\<close>. A call takes the environment it runs in (primitives, clock readings),
  the state and the random tape, and returns the result, the new state and the rest of the
  tape; \<^const>\<open>None\<close> is a panic. All clock readings of one call are the same instant. The
  destination buffer is modelled by its length.

  The rate limiter is a field of the tunnel. When a device shares one limiter between its
  peers, the field is the copy of the moment, see the device theory.
\<close>

record env =
  en_crypto :: crypto
  en_keystream :: keystream
  en_b64 :: "bytes \<Rightarrow> bytes"
  en_now :: nat
  en_unix :: nat

definition MAX_QUEUE_DEPTH :: nat where "MAX_QUEUE_DEPTH = 256"
definition PEER_HANDSHAKE_RATE_LIMIT :: u64 where "PEER_HANDSHAKE_RATE_LIMIT = 10"
definition MAX_PREFIX_DRAWS :: nat where "MAX_PREFIX_DRAWS = 8"

record tunn =
  t_handshake :: handshake
  t_sessions :: "session option list"
  t_current :: nat
  t_packet_queue :: "bytes list"
  t_timers :: timers
  t_tx_bytes :: nat
  t_rx_bytes :: nat
  t_rate_limiter :: rate_limiter
  t_header_config :: header_config
  t_padding_config :: padding_config
  t_junk_config :: junk_config
  t_init_packet_config :: init_packet_config
  t_header_protection :: "bytes option"
  t_content_padding :: "u32_range option"
  t_mtu :: u32
  t_random_trailers :: bool
  t_disable_cookies :: bool
  t_udp_window :: u32
  t_network_outgoing :: "bytes list"

section \<open>Construction\<close>

definition limiter_or_new :: "env \<Rightarrow> bytes \<Rightarrow> rate_limiter option \<Rightarrow> rng \<Rightarrow> rate_limiter \<times> rng" where
  "limiter_or_new en static_public rate_limiter r =
     (case rate_limiter of
        Some rl \<Rightarrow> (rl, r)
      | None \<Rightarrow> RateLimiter_new (en_crypto en) (en_now en) static_public PEER_HANDSHAKE_RATE_LIMIT r)"

definition new_with_amnezia3 ::
    "env \<Rightarrow> bytes \<Rightarrow> bytes \<Rightarrow> bytes option \<Rightarrow> u16 option \<Rightarrow> u32 \<Rightarrow> rate_limiter option \<Rightarrow> amnezia3_config \<Rightarrow> rng \<Rightarrow>
     (ConfigError + tunn) \<times> rng" where
  "new_with_amnezia3 en static_private peer_static_public preshared_key keepalive idx rate_limiter amnezia r =
     (case Amnezia3Config_validate amnezia of
        Inl e \<Rightarrow> (Err e, r)
      | Inr _ \<Rightarrow>
          let static_public = cr_pub (en_crypto en) static_private;
              handshake = Handshake_new (en_crypto en) \<lparr>duration_at_start = en_unix en, instant_at_start = en_now en\<rparr>
                static_private static_public peer_static_public (push_bit 8 idx) preshared_key;
              (timers, r) = Timers_new (en_now en) keepalive (rate_limiter = None) (a3_timing_ranges amnezia) r;
              (rl, r) = limiter_or_new en static_public rate_limiter r
          in (Ok \<lparr>t_handshake = handshake, t_sessions = replicate N_SESSIONS None, t_current = 0, t_packet_queue = [],
                  t_timers = timers, t_tx_bytes = 0, t_rx_bytes = 0, t_rate_limiter = rl,
                  t_header_config = a3_headers amnezia, t_padding_config = a3_paddings amnezia,
                  t_junk_config = a3_junk amnezia, t_init_packet_config = a3_init_packets amnezia,
                  t_header_protection = a3_header_protection_key amnezia,
                  t_content_padding = a3_content_padding_addition amnezia, t_mtu = a3_mtu amnezia,
                  t_random_trailers = a3_random_trailers amnezia, t_disable_cookies = a3_disable_cookies amnezia,
                  t_udp_window = AWG31_DEFAULT_UDP_WINDOW, t_network_outgoing = []\<rparr>, r))"

definition new_with_amnezia where
  "new_with_amnezia en static_private peer_static_public preshared_key keepalive idx rate_limiter amnezia r =
     new_with_amnezia3 en static_private peer_static_public preshared_key keepalive idx rate_limiter (from_amnezia2 amnezia) r"

definition Tunn_new :: "env \<Rightarrow> bytes \<Rightarrow> bytes \<Rightarrow> bytes option \<Rightarrow> u16 option \<Rightarrow> u32 \<Rightarrow> rate_limiter option \<Rightarrow> rng \<Rightarrow> (tunn \<times> rng) option" where
  "Tunn_new en static_private peer_static_public preshared_key keepalive idx rate_limiter r =
     (case new_with_amnezia en static_private peer_static_public preshared_key keepalive idx rate_limiter Amnezia2Config_default r of
        (Inl e, r) \<Rightarrow> None
      | (Inr t, r) \<Rightarrow> Some (t, r))"

definition Tunn_set_static_private ::
    "env \<Rightarrow> bytes \<Rightarrow> bytes \<Rightarrow> rate_limiter option \<Rightarrow> tunn \<Rightarrow> rng \<Rightarrow> (tunn \<times> rng) option" where
  "Tunn_set_static_private en static_private static_public rate_limiter t r =
     (let (rl, r) = limiter_or_new en static_public rate_limiter r
      in case Handshake_set_static_private (en_crypto en) static_private static_public (t_handshake t) of
           None \<Rightarrow> None
         | Some hs \<Rightarrow>
             Some (t\<lparr>t_timers := (t_timers t)\<lparr>tm_should_reset_rr := (rate_limiter = None)\<rparr>, t_rate_limiter := rl,
                     t_handshake := hs, t_sessions := map (\<lambda>_. None) (t_sessions t)\<rparr>, r))"

section \<open>Windows and padding\<close>

definition s1 :: "tunn \<Rightarrow> nat" where "s1 t = unat (pc_s1 (t_padding_config t))"
definition s2 :: "tunn \<Rightarrow> nat" where "s2 t = unat (pc_s2 (t_padding_config t))"
definition s3 :: "tunn \<Rightarrow> nat" where "s3 t = unat (pc_s3 (t_padding_config t))"
definition s4 :: "tunn \<Rightarrow> nat" where "s4 t = unat (pc_s4 (t_padding_config t))"

definition trailer_for :: "nat \<Rightarrow> nat \<Rightarrow> tunn \<Rightarrow> rng \<Rightarrow> nat \<times> rng" where
  "trailer_for packet_size dst_len t r =
     (if \<not> t_random_trailers t then (0, r)
      else let (want, r) = random_trailer_len packet_size (t_udp_window t) r in (min want (dst_len - packet_size), r))"

definition observe_datagram :: "nat \<Rightarrow> tunn \<Rightarrow> tunn" where
  "observe_datagram n t = t\<lparr>t_udp_window := max (t_udp_window t) (of_nat (min n (2 ^ 32 - 1)))\<rparr>"

definition reset_udp_window :: "tunn \<Rightarrow> tunn" where
  "reset_udp_window t = t\<lparr>t_udp_window := AWG31_DEFAULT_UDP_WINDOW\<rparr>"

definition content_padding_addition :: "nat \<Rightarrow> nat \<Rightarrow> tunn \<Rightarrow> rng \<Rightarrow> nat \<times> rng" where
  "content_padding_addition datagram_size dst_len t r =
     (case t_content_padding t of
        None \<Rightarrow> (0, r)
      | Some rg \<Rightarrow>
          if unat (t_udp_window t) < datagram_size then (0, r)
          else
            let space = unat (t_udp_window t) - datagram_size;
                (v, r) = U32Range_generate rg r;
                add = min (unat v) space;
                add = (if t_mtu t \<noteq> 0 then min add (unat (t_mtu t) - datagram_size) else add)
            in (min add (dst_len - datagram_size), r))"

definition transport_padding :: "nat \<Rightarrow> nat \<Rightarrow> tunn \<Rightarrow> rng \<Rightarrow> nat \<times> rng" where
  "transport_padding packet_size dst_len t r =
     (let datagram = s4 t + DATA_OVERHEAD_SZ + packet_size
      in if t_content_padding t \<noteq> None then content_padding_addition datagram dst_len t r
         else trailer_for datagram dst_len t r)"

definition Tunn_classifier :: "tunn \<Rightarrow> packet_classifier" where
  "Tunn_classifier t =
     with_random_trailers (t_random_trailers t)
       (PacketClassifier_new (t_padding_config t) (t_header_config t) (t_header_protection t))"

section \<open>Timers and queues\<close>

definition timer_tick :: "TimerName \<Rightarrow> tunn \<Rightarrow> tunn" where
  "timer_tick name t = t\<lparr>t_timers := tick name (t_timers t)\<rparr>"

definition timer_tick_session_established :: "bool \<Rightarrow> nat \<Rightarrow> tunn \<Rightarrow> tunn" where
  "timer_tick_session_established is_init session_idx t =
     t\<lparr>t_timers := tick_session_established is_init session_idx (t_timers t)\<rparr>"

definition queue_packet :: "bytes \<Rightarrow> tunn \<Rightarrow> tunn" where
  "queue_packet packet t =
     (if length (t_packet_queue t) < MAX_QUEUE_DEPTH then t\<lparr>t_packet_queue := t_packet_queue t @ [packet]\<rparr> else t)"

definition requeue_packet :: "bytes \<Rightarrow> tunn \<Rightarrow> tunn" where
  "requeue_packet packet t =
     (if length (t_packet_queue t) < MAX_QUEUE_DEPTH then t\<lparr>t_packet_queue := packet # t_packet_queue t\<rparr> else t)"

definition dequeue_packet :: "tunn \<Rightarrow> bytes option \<times> tunn" where
  "dequeue_packet t =
     (case t_packet_queue t of [] \<Rightarrow> (None, t) | p # ps \<Rightarrow> (Some p, t\<lparr>t_packet_queue := ps\<rparr>))"

definition poll_outgoing_packet :: "tunn \<Rightarrow> bytes option \<times> tunn" where
  "poll_outgoing_packet t =
     (case t_network_outgoing t of [] \<Rightarrow> (None, t) | p # ps \<Rightarrow> (Some p, t\<lparr>t_network_outgoing := ps\<rparr>))"

definition has_outgoing_packets :: "tunn \<Rightarrow> bool" where
  "has_outgoing_packets t \<longleftrightarrow> t_network_outgoing t \<noteq> []"

definition set_mtu :: "u32 \<Rightarrow> tunn \<Rightarrow> tunn" where
  "set_mtu mtu t = t\<lparr>t_mtu := mtu\<rparr>"

definition set_current_session :: "nat \<Rightarrow> tunn \<Rightarrow> tunn" where
  "set_current_session new_idx t =
     (let cur_idx = t_current t in
      if cur_idx = new_idx then t
      else if t_sessions t ! (cur_idx mod N_SESSIONS) = None \<or>
              tm_session_timers (t_timers t) ! (new_idx mod N_SESSIONS) \<ge>
                tm_session_timers (t_timers t) ! (cur_idx mod N_SESSIONS)
           then t\<lparr>t_current := new_idx\<rparr> else t)"

section \<open>Framing\<close>

definition random_prefix :: "nat \<Rightarrow> rng \<Rightarrow> bytes \<times> rng" where
  "random_prefix n r = (if n > 0 then fill_bytes n r else ([], r))"

text \<open>
  What the handlers of initiations, responses and cookie replies do with a formatted message:
  the random prefix, header protection over the whole message, and the random trailer.
\<close>

definition frame_message :: "env \<Rightarrow> nat \<Rightarrow> bytes \<Rightarrow> nat \<Rightarrow> tunn \<Rightarrow> rng \<Rightarrow> (bytes \<times> rng) option" where
  "frame_message en padding msg dst_len t r =
     (let (prefix, r) = random_prefix padding r
      in case (case t_header_protection t of
                 Some key \<Rightarrow> HeaderProtection_apply (en_keystream en) key prefix msg
               | None \<Rightarrow> Some msg) of
           None \<Rightarrow> None
         | Some msg \<Rightarrow>
             let (n, r) = trailer_for (padding + length msg) dst_len t r;
                 (trailer, r) = random_prefix n r
             in Some (prefix @ msg @ trailer, r))"

definition peer_would_misclassify :: "tunn \<Rightarrow> bytes \<Rightarrow> bytes \<Rightarrow> bool" where
  "peer_would_misclassify t datagram mask4 =
     list_ex (\<lambda>(padding, rg, msg_size).
        (length datagram = padding + msg_size \<or> t_random_trailers t \<and> length datagram > padding + msg_size) \<and>
        padding + 4 \<le> length datagram \<and>
        HeaderRange_contains rg (of_le_bytes (xor_prefix (slice datagram padding (padding + 4)) mask4)))
       [(s1 t, hc_init (t_header_config t), HANDSHAKE_INIT_SZ),
        (s2 t, hc_response (t_header_config t), HANDSHAKE_RESP_SZ),
        (s3 t, hc_cookie (t_header_config t), COOKIE_REPLY_SZ)]"

fun prefix_draws :: "nat \<Rightarrow> env \<Rightarrow> tunn \<Rightarrow> bytes \<Rightarrow> bytes \<Rightarrow> rng \<Rightarrow> (bytes \<times> rng) option" where
  "prefix_draws 0 en t packet datagram r = Some (datagram, r)"
| "prefix_draws (Suc n) en t packet datagram r =
     (let (prefix, r) = random_prefix (s4 t) r
      in case t_header_protection t of
           None \<Rightarrow> Some (prefix @ packet, r)
         | Some key \<Rightarrow>
             (case HeaderProtection_keystream (en_keystream en) key TRANSPORT_HEADER_SZ prefix of
                None \<Rightarrow> None
              | Some keystream \<Rightarrow>
                  let datagram = prefix @ xor_prefix (take TRANSPORT_HEADER_SZ packet) keystream @ drop TRANSPORT_HEADER_SZ packet
                  in if \<not> peer_would_misclassify t datagram (take 4 keystream) then Some (datagram, r)
                     else prefix_draws n en t packet datagram r))"

definition format_transport_packet ::
    "env \<Rightarrow> session \<Rightarrow> bytes \<Rightarrow> nat \<Rightarrow> nat \<Rightarrow> tunn \<Rightarrow> rng \<Rightarrow> (bytes \<times> session \<times> rng) option" where
  "format_transport_packet en s src content_padding dst_len t r =
     (let (transport_type, r) = HeaderRange_generate (hc_transport (t_header_config t)) r
      in if dst_len < s4 t then None
         else case format_packet_data (en_crypto en) src (dst_len - s4 t) transport_type content_padding s of
           None \<Rightarrow> None
         | Some (packet, s) \<Rightarrow>
             map_option (\<lambda>(datagram, r). (datagram, s, r)) (prefix_draws MAX_PREFIX_DRAWS en t packet packet r))"

section \<open>Initiations\<close>

fun queue_chains :: "env \<Rightarrow> cps_chain list \<Rightarrow> rng \<Rightarrow> (bytes list \<times> rng) option" where
  "queue_chains en [] r = Some ([], r)"
| "queue_chains en (chain # rest) r =
     (case generate_for_init (en_b64 en) (en_unix en div 10 ^ 9) chain r of
        None \<Rightarrow> None
      | Some (packet, r) \<Rightarrow>
          (case queue_chains en rest r of
             None \<Rightarrow> None
           | Some (ps, r) \<Rightarrow> Some (if packet = [] then ps else packet # ps, r)))"

definition queue_pre_handshake_packets :: "env \<Rightarrow> tunn \<Rightarrow> rng \<Rightarrow> (tunn \<times> rng) option" where
  "queue_pre_handshake_packets en t r =
     (case queue_chains en (active_chains (t_init_packet_config t)) r of
        None \<Rightarrow> None
      | Some (packets, r) \<Rightarrow>
          let (junk, r) = generate_junk_packets (t_junk_config t) r
          in Some (t\<lparr>t_network_outgoing := t_network_outgoing t @ packets @ junk\<rparr>, r))"

definition Tunn_format_handshake_initiation ::
    "env \<Rightarrow> nat \<Rightarrow> bool \<Rightarrow> tunn \<Rightarrow> rng \<Rightarrow> (TunnResult \<times> tunn \<times> rng) option" where
  "Tunn_format_handshake_initiation en dst_len force_resend t r =
     (if is_in_progress (t_handshake t) \<and> \<not> force_resend then Some (Done, t, r)
      else if s1 t + HANDSHAKE_INIT_SZ > dst_len then Some (ErrResult DestinationBufferTooSmall, t, r)
      else
        let t = (if is_expired (t_handshake t) then t\<lparr>t_timers := Timers_clear (en_now en) (t_timers t)\<rparr> else t);
            starting_new_handshake = (\<not> is_in_progress (t_handshake t));
            (timers, r) = roll_handshake_timings starting_new_handshake (t_timers t) r;
            t = t\<lparr>t_timers := timers\<rparr>
        in case queue_pre_handshake_packets en t r of
             None \<Rightarrow> None
           | Some (t, r) \<Rightarrow>
        let (init_type, r) = HeaderRange_generate (hc_init (t_header_config t)) r
        in case format_handshake_initiation (en_crypto en) (en_now en) (dst_len - s1 t) init_type (t_handshake t) r of
             None \<Rightarrow> None
           | Some (Inl e, hs, r) \<Rightarrow> Some (ErrResult e, t\<lparr>t_handshake := hs\<rparr>, r)
           | Some (Inr packet, hs, r) \<Rightarrow>
               let t = t\<lparr>t_handshake := hs\<rparr>
               in (case frame_message en (s1 t) packet dst_len t r of
                     None \<Rightarrow> None
                   | Some (datagram, r) \<Rightarrow>
                       let t = (if starting_new_handshake then timer_tick TimeLastHandshakeStarted t else t)
                       in Some (WriteToNetwork datagram, timer_tick TimeLastPacketSent t, r)))"

section \<open>Sending\<close>

definition encapsulate :: "env \<Rightarrow> bytes \<Rightarrow> nat \<Rightarrow> tunn \<Rightarrow> rng \<Rightarrow> (TunnResult \<times> tunn \<times> rng) option" where
  "encapsulate en src dst_len t r =
     (let slot = t_current t mod N_SESSIONS in
      case t_sessions t ! slot of
        Some s \<Rightarrow>
          if s4 t + DATA_OVERHEAD_SZ + length src > dst_len then Some (ErrResult DestinationBufferTooSmall, t, r)
          else
            let t = observe_datagram (s4 t + DATA_OVERHEAD_SZ + length src) t;
                (content_padding, r) = transport_padding (length src) dst_len t r
            in (case format_transport_packet en s src content_padding dst_len t r of
                  None \<Rightarrow> None
                | Some (packet, s, r) \<Rightarrow>
                    let t = timer_tick TimeLastPacketSent (t\<lparr>t_sessions := (t_sessions t)[slot := Some s]\<rparr>);
                        t = (if src \<noteq> [] then timer_tick TimeLastDataPacketSent t else t)
                    in Some (WriteToNetwork packet, t\<lparr>t_tx_bytes := t_tx_bytes t + length src\<rparr>, r))
      | None \<Rightarrow> Tunn_format_handshake_initiation en dst_len False (queue_packet src t) r)"

definition send_queued_packet :: "env \<Rightarrow> nat \<Rightarrow> tunn \<Rightarrow> rng \<Rightarrow> (TunnResult \<times> tunn \<times> rng) option" where
  "send_queued_packet en dst_len t r =
     (case dequeue_packet t of
        (None, t) \<Rightarrow> Some (Done, t, r)
      | (Some packet, t) \<Rightarrow>
          (case encapsulate en packet dst_len t r of
             None \<Rightarrow> None
           | Some (ErrResult e, t, r) \<Rightarrow> Some (Done, requeue_packet packet t, r)
           | Some (res, t, r) \<Rightarrow> Some (res, t, r)))"

section \<open>Receiving\<close>

definition validate_decapsulated_packet :: "bytes \<Rightarrow> tunn \<Rightarrow> TunnResult \<times> tunn" where
  "validate_decapsulated_packet packet t =
     (let deliver = (\<lambda>computed_len result.
            if computed_len > length packet then (ErrResult InvalidPacket, t)
            else (result (take computed_len packet),
                  (timer_tick TimeLastDataPacketReceived t)\<lparr>t_rx_bytes := t_rx_bytes t + computed_len\<rparr>))
      in if packet = [] then (Done, t)
         else if ip_version packet = 4 \<and> length packet \<ge> IPV4_MIN_HEADER_SIZE then
           deliver (unat (of_be_bytes (slice packet IPV4_LEN_OFF (IPV4_LEN_OFF + IP_LEN_SZ)) :: u16))
             (\<lambda>p. WriteToTunnelV4 p (slice packet IPV4_SRC_IP_OFF (IPV4_SRC_IP_OFF + IPV4_IP_SZ)))
         else if ip_version packet = 6 \<and> length packet \<ge> IPV6_MIN_HEADER_SIZE then
           deliver (unat (of_be_bytes (slice packet IPV6_LEN_OFF (IPV6_LEN_OFF + IP_LEN_SZ)) :: u16) + IPV6_MIN_HEADER_SIZE)
             (\<lambda>p. WriteToTunnelV6 p (slice packet IPV6_SRC_IP_OFF (IPV6_SRC_IP_OFF + IPV6_IP_SZ)))
         else if hd packet = 0 then (Done, t)
         else (Done, timer_tick TimeLastDataPacketReceived t))"

definition handle_handshake_init ::
    "env \<Rightarrow> handshake_init \<Rightarrow> nat \<Rightarrow> tunn \<Rightarrow> rng \<Rightarrow> ((WireGuardError + TunnResult) \<times> tunn \<times> rng) option" where
  "handle_handshake_init en p dst_len t r =
     (let (resp_type, r) = HeaderRange_generate (hc_response (t_header_config t)) r
      in if s2 t + HANDSHAKE_RESP_SZ > dst_len then Some (Err DestinationBufferTooSmall, t, r)
         else case receive_handshake_initialization (en_crypto en) p (dst_len - s2 t) resp_type (t_handshake t) r of
           None \<Rightarrow> None
         | Some (Inl e, hs, r) \<Rightarrow> Some (Err e, t\<lparr>t_handshake := hs\<rparr>, r)
         | Some (Inr (packet, session), hs, r) \<Rightarrow>
             let idx = session_local_index session;
                 t = t\<lparr>t_handshake := hs, t_sessions := (t_sessions t)[idx mod N_SESSIONS := Some session]\<rparr>
             in (case frame_message en (s2 t) packet dst_len t r of
                   None \<Rightarrow> None
                 | Some (datagram, r) \<Rightarrow>
                     let t = timer_tick TimeLastPacketSent (timer_tick TimeLastPacketReceived t)
                     in Some (Ok (WriteToNetwork datagram), timer_tick_session_established False idx t, r)))"

definition handle_handshake_response ::
    "env \<Rightarrow> handshake_response \<Rightarrow> nat \<Rightarrow> tunn \<Rightarrow> rng \<Rightarrow> ((WireGuardError + TunnResult) \<times> tunn \<times> rng) option" where
  "handle_handshake_response en p dst_len t r =
     (if s4 t + DATA_OVERHEAD_SZ > dst_len then Some (Err DestinationBufferTooSmall, t, r)
      else case receive_handshake_response (en_crypto en) (en_now en) p (t_handshake t) of
        None \<Rightarrow> None
      | Some (Inl e, hs) \<Rightarrow> Some (Err e, t\<lparr>t_handshake := hs\<rparr>, r)
      | Some (Inr session, hs) \<Rightarrow>
          let t = t\<lparr>t_handshake := hs\<rparr>;
              (content_padding, r) = content_padding_addition 0 dst_len t r
          in (case format_transport_packet en session [] content_padding dst_len t r of
                None \<Rightarrow> None
              | Some (keepalive_packet, session, r) \<Rightarrow>
                  let l_idx = session_local_index session;
                      idx = l_idx mod N_SESSIONS;
                      t = timer_tick TimeLastPacketReceived (t\<lparr>t_sessions := (t_sessions t)[idx := Some session]\<rparr>);
                      t = timer_tick_session_established True idx t
                  in Some (Ok (WriteToNetwork keepalive_packet), set_current_session l_idx t, r)))"

definition handle_cookie_reply :: "env \<Rightarrow> packet_cookie_reply \<Rightarrow> tunn \<Rightarrow> (WireGuardError + TunnResult) \<times> tunn" where
  "handle_cookie_reply en p t =
     (case receive_cookie_reply (en_crypto en) p (t_handshake t) of
        (Inl e, hs) \<Rightarrow> (Err e, t\<lparr>t_handshake := hs\<rparr>)
      | (Inr _, hs) \<Rightarrow> (Ok Done, timer_tick TimeCookieReceived (timer_tick TimeLastPacketReceived (t\<lparr>t_handshake := hs\<rparr>))))"

definition handle_data :: "env \<Rightarrow> packet_data \<Rightarrow> nat \<Rightarrow> tunn \<Rightarrow> ((WireGuardError + TunnResult) \<times> tunn) option" where
  "handle_data en packet dst_len t =
     (let r_idx = unat (pd_receiver_idx packet);
          idx = r_idx mod N_SESSIONS;
          t = observe_datagram (s4 t + TRANSPORT_HEADER_SZ + length (pd_encrypted_encapsulated_packet packet)) t
      in case t_sessions t ! idx of
           None \<Rightarrow> Some (Err NoCurrentSession, t)
         | Some s \<Rightarrow>
             (case receive_packet_data (en_crypto en) packet dst_len s of
                None \<Rightarrow> None
              | Some (res, s) \<Rightarrow>
                  let t = t\<lparr>t_sessions := (t_sessions t)[idx := Some s]\<rparr>
                  in Some (case res of
                       Inl e \<Rightarrow> (Err e, t)
                     | Inr decapsulated \<Rightarrow>
                         let (result, t) = validate_decapsulated_packet decapsulated
                               (timer_tick TimeLastPacketReceived (set_current_session r_idx t))
                         in (Ok result, t))))"

definition handle_verified_packet :: "env \<Rightarrow> Packet \<Rightarrow> nat \<Rightarrow> tunn \<Rightarrow> rng \<Rightarrow> (TunnResult \<times> tunn \<times> rng) option" where
  "handle_verified_packet en packet dst_len t r =
     map_option (\<lambda>(res, t, r). (case res of Inl e \<Rightarrow> ErrResult e | Inr x \<Rightarrow> x, t, r))
       (case packet of
          HandshakeInit p \<Rightarrow> handle_handshake_init en p dst_len t r
        | HandshakeResponse p \<Rightarrow> handle_handshake_response en p dst_len t r
        | PacketCookieReply p \<Rightarrow> (let (res, t) = handle_cookie_reply en p t in Some (res, t, r))
        | PacketData p \<Rightarrow> map_option (\<lambda>(res, t). (res, t, r)) (handle_data en p dst_len t))"

definition decapsulate ::
    "env \<Rightarrow> IpAddr option \<Rightarrow> bytes \<Rightarrow> nat \<Rightarrow> tunn \<Rightarrow> rng \<Rightarrow> (TunnResult \<times> tunn \<times> rng) option" where
  "decapsulate en src_addr datagram dst_len t r =
     (if datagram = [] then send_queued_packet en dst_len t r
      else case deframe (en_keystream en) (Tunn_classifier t) datagram of
        None \<Rightarrow> None
      | Some (Transport packet) \<Rightarrow> handle_verified_packet en (PacketData packet) dst_len t r
      | Some (Stripped stripped) \<Rightarrow>
          (case verify_packet (en_crypto en) (en_now en) src_addr stripped COOKIE_REPLY_SZ (t_header_config t)
                  (t_disable_cookies t) (t_rate_limiter t) r of
             (Inr packet, rl, r) \<Rightarrow> handle_verified_packet en packet dst_len (t\<lparr>t_rate_limiter := rl\<rparr>) r
           | (Inl (WriteToNetwork cookie), rl, r) \<Rightarrow>
               let t = t\<lparr>t_rate_limiter := rl\<rparr> in
               if s3 t + length cookie > dst_len then Some (ErrResult DestinationBufferTooSmall, t, r)
               else map_option (\<lambda>(datagram, r). (WriteToNetwork datagram, t, r)) (frame_message en (s3 t) cookie dst_len t r)
           | (Inl (ErrResult e), rl, r) \<Rightarrow> Some (ErrResult e, t\<lparr>t_rate_limiter := rl\<rparr>, r)
           | _ \<Rightarrow> None))"

section \<open>Invariant\<close>

definition sessions_ok :: "session option list \<Rightarrow> bool" where
  "sessions_ok ss \<longleftrightarrow>
     length ss = N_SESSIONS \<and>
     (\<forall>i < N_SESSIONS. \<forall>s. ss ! i = Some s \<longrightarrow> session_ok s \<and> session_local_index s mod N_SESSIONS = i)"

definition tunn_ok :: "tunn \<Rightarrow> bool" where
  "tunn_ok t \<longleftrightarrow>
     sessions_ok (t_sessions t) \<and> length (t_packet_queue t) \<le> MAX_QUEUE_DEPTH \<and> timers_ok (t_timers t) \<and>
     hs_inv (t_handshake t)"

text \<open>The part of a tunnel that is fixed when it is created.\<close>

definition tunn_config where
  "tunn_config t =
     (t_header_config t, t_padding_config t, t_junk_config t, t_init_packet_config t, t_header_protection t,
      t_content_padding t, t_random_trailers t, t_disable_cookies t, tm_timing_ranges (t_timers t),
      tm_time_started (t_timers t))"

lemma N_SESSIONS_pos [simp]: "0 < N_SESSIONS" "i mod N_SESSIONS < N_SESSIONS"
  by (simp_all add: N_SESSIONS_def)

lemma sessions_ok_empty [simp]: "sessions_ok (replicate N_SESSIONS None)"
  by (simp add: sessions_ok_def)

lemma sessions_ok_update:
  "sessions_ok ss \<Longrightarrow> session_ok s \<Longrightarrow> session_local_index s mod N_SESSIONS = i \<Longrightarrow> sessions_ok (ss[i := Some s])"
  by (auto simp: sessions_ok_def nth_list_update split: if_splits)

lemma sessions_ok_nth:
  "sessions_ok ss \<Longrightarrow> i < N_SESSIONS \<Longrightarrow> ss ! i = Some s \<Longrightarrow> session_ok s \<and> session_local_index s mod N_SESSIONS = i"
  by (simp add: sessions_ok_def)

lemma sessions_ok_none: "sessions_ok ss \<Longrightarrow> sessions_ok (map (\<lambda>_. None) ss)"
  by (simp add: sessions_ok_def)

lemma format_packet_data_frame:
  assumes "format_packet_data cr src n ty pad s = Some (msg, s')"
  shows "session_local_index s' = session_local_index s" and "session_ok s' = session_ok s"
  using assms by (auto simp: format_packet_data_def session_local_index_def session_ok_def Let_def split: if_splits)

lemma receive_packet_data_frame:
  assumes "receive_packet_data cr p n s = Some (res, s')" "session_ok s"
  shows "session_local_index s' = session_local_index s" and "session_ok s'"
  using assms accept_counter_spec(1) [of "receiving_key_counter s" "pd_counter p"]
  by (auto simp: receive_packet_data_def session_local_index_def session_ok_def Let_def mark_cases
      split: if_splits option.splits sum.splits)

lemma tick_tunn [simp]:
  "tunn_ok (timer_tick n t) \<longleftrightarrow> tunn_ok t" if "timers_ok (t_timers t)"
  using that by (simp add: tunn_ok_def timer_tick_def)

lemma timer_tick_ok: "tunn_ok t \<Longrightarrow> tunn_ok (timer_tick n t)"
  by (simp add: tunn_ok_def timer_tick_def)

lemma timer_tick_established_ok: "tunn_ok t \<Longrightarrow> tunn_ok (timer_tick_session_established b i t)"
  by (simp add: tunn_ok_def timer_tick_session_established_def)

lemma tick_config [simp]:
  "tunn_config (timer_tick n t) = tunn_config t" "tunn_config (timer_tick_session_established b i t) = tunn_config t"
  by (simp_all add: tunn_config_def timer_tick_def timer_tick_session_established_def tick_session_established_def Let_def)

lemma observe_ok [simp]: "tunn_ok (observe_datagram n t) = tunn_ok t" "tunn_config (observe_datagram n t) = tunn_config t"
  by (simp_all add: tunn_ok_def observe_datagram_def tunn_config_def)

lemma queue_ok [simp]: "tunn_ok t \<Longrightarrow> tunn_ok (queue_packet p t)" "tunn_config (queue_packet p t) = tunn_config t"
  by (simp_all add: tunn_ok_def queue_packet_def tunn_config_def)

lemma requeue_ok [simp]: "tunn_ok t \<Longrightarrow> tunn_ok (requeue_packet p t)" "tunn_config (requeue_packet p t) = tunn_config t"
  by (simp_all add: tunn_ok_def requeue_packet_def tunn_config_def)

lemma current_ok [simp]: "tunn_ok (set_current_session i t) = tunn_ok t" "tunn_config (set_current_session i t) = tunn_config t"
  by (simp_all add: tunn_ok_def set_current_session_def tunn_config_def Let_def)

lemma dequeue_ok:
  "tunn_ok t \<Longrightarrow> dequeue_packet t = (p, t') \<Longrightarrow> tunn_ok t' \<and> tunn_config t' = tunn_config t"
  by (auto simp: tunn_ok_def dequeue_packet_def tunn_config_def split: list.splits)

lemma validate_ok:
  "tunn_ok t \<Longrightarrow> validate_decapsulated_packet p t = (res, t') \<Longrightarrow> tunn_ok t' \<and> tunn_config t' = tunn_config t"
  by (auto simp: validate_decapsulated_packet_def tunn_ok_def timer_tick_def tunn_config_def Let_def split: if_splits)

lemma put_session_ok:
  "tunn_ok t \<Longrightarrow> session_ok s \<Longrightarrow> session_local_index s mod N_SESSIONS = i \<Longrightarrow>
   tunn_ok (t\<lparr>t_sessions := (t_sessions t)[i := Some s]\<rparr>)"
  by (simp add: tunn_ok_def sessions_ok_update)

lemma put_handshake_ok:
  "tunn_ok t \<Longrightarrow> hs_step cr (t_handshake t) hs \<Longrightarrow> tunn_ok (t\<lparr>t_handshake := hs\<rparr>)"
  by (auto simp: tunn_ok_def dest: hs_step_keeps(3))

lemma timers_clear_ok: "timers_ok tm \<Longrightarrow> timers_ok (Timers_clear now tm)" if "tm_timers tm TimeCurrent \<le> now - tm_time_started tm"
  using that by (fastforce simp: timers_ok_def Timers_clear_def)

lemma config_updates [simp]:
  "tunn_config (t\<lparr>t_handshake := hs\<rparr>) = tunn_config t" "tunn_config (t\<lparr>t_sessions := ss\<rparr>) = tunn_config t"
  "tunn_config (t\<lparr>t_network_outgoing := q\<rparr>) = tunn_config t" "tunn_config (t\<lparr>t_tx_bytes := n\<rparr>) = tunn_config t"
  "tunn_config (t\<lparr>t_rate_limiter := rl\<rparr>) = tunn_config t" "tunn_config (t\<lparr>t_packet_queue := q\<rparr>) = tunn_config t"
  "tunn_config (t\<lparr>t_udp_window := w\<rparr>) = tunn_config t" "tunn_config (t\<lparr>t_mtu := m\<rparr>) = tunn_config t"
  by (simp_all add: tunn_config_def)

lemma ok_updates [simp]:
  "tunn_ok (t\<lparr>t_network_outgoing := q\<rparr>) = tunn_ok t" "tunn_ok (t\<lparr>t_tx_bytes := n\<rparr>) = tunn_ok t"
  "tunn_ok (t\<lparr>t_rate_limiter := rl\<rparr>) = tunn_ok t" "tunn_ok (t\<lparr>t_mtu := m\<rparr>) = tunn_ok t" "tunn_ok (t\<lparr>t_udp_window := w\<rparr>) = tunn_ok t"
  by (simp_all add: tunn_ok_def)

text \<open>The clock does not run backwards between calls.\<close>

definition clock_ok :: "env \<Rightarrow> tunn \<Rightarrow> bool" where
  "clock_ok en t \<longleftrightarrow> tm_timers (t_timers t) TimeCurrent \<le> en_now en - tm_time_started (t_timers t)"

definition keeps :: "tunn \<Rightarrow> tunn \<Rightarrow> bool" where
  "keeps t t' \<longleftrightarrow> tunn_ok t' \<and> tunn_config t' = tunn_config t"

lemma queue_pre_handshake_frame:
  "queue_pre_handshake_packets en t r = Some (t', r') \<Longrightarrow> \<exists>q. t' = t\<lparr>t_network_outgoing := t_network_outgoing t @ q\<rparr>"
  by (auto simp: queue_pre_handshake_packets_def split: option.splits prod.splits)

lemma Tunn_initiation_cases:
  assumes "Tunn_format_handshake_initiation en n force t r = Some (res, t', r')"
  obtains (idle) "t' = t" "res = Done \<or> res = ErrResult DestinationBufferTooSmall"
  | (sent) tm0 b tm r1 q ty k r2 x hs r3 t2 where
      "tm0 = (if is_expired (t_handshake t) then Timers_clear (en_now en) (t_timers t) else t_timers t)"
      "roll_handshake_timings b tm0 r = (tm, r1)"
      "format_handshake_initiation (en_crypto en) (en_now en) k ty (t_handshake t) r2 = Some (x, hs, r3)"
      "t2 = t\<lparr>t_timers := tm, t_network_outgoing := q, t_handshake := hs\<rparr>"
      "t' = t2 \<or> t' = timer_tick TimeLastPacketSent t2 \<or> t' = timer_tick TimeLastPacketSent (timer_tick TimeLastHandshakeStarted t2)"
proof (cases "is_in_progress (t_handshake t) \<and> \<not> force \<or> s1 t + HANDSHAKE_INIT_SZ > n")
  case True
  then show ?thesis
    using assms idle by (auto simp: Tunn_format_handshake_initiation_def split: if_splits)
next
  case False
  define t1 where "t1 = (if is_expired (t_handshake t) then t\<lparr>t_timers := Timers_clear (en_now en) (t_timers t)\<rparr> else t)"
  define b where "b = (\<not> is_in_progress (t_handshake t1))"
  obtain tm r1 where roll: "roll_handshake_timings b (t_timers t1) r = (tm, r1)"
    by fastforce
  note run = assms [unfolded Tunn_format_handshake_initiation_def Let_def, folded t1_def b_def, unfolded roll]
  obtain t2 r2 where pre: "queue_pre_handshake_packets en (t1\<lparr>t_timers := tm\<rparr>) r1 = Some (t2, r2)"
    using run False by (auto split: if_splits option.splits)
  obtain q where t2: "t2 = t1\<lparr>t_timers := tm, t_network_outgoing := q\<rparr>"
    using queue_pre_handshake_frame [OF pre] by auto
  obtain ty r3 where ty: "HeaderRange_generate (hc_init (t_header_config t2)) r2 = (ty, r3)"
    by fastforce
  obtain x hs r4 where fmt: "format_handshake_initiation (en_crypto en) (en_now en) (n - s1 t2) ty (t_handshake t2) r3 = Some (x, hs, r4)"
    using run False pre ty by (auto split: if_splits option.splits)
  have "t' = t2\<lparr>t_handshake := hs\<rparr> \<or> t' = timer_tick TimeLastPacketSent (t2\<lparr>t_handshake := hs\<rparr>) \<or>
      t' = timer_tick TimeLastPacketSent (timer_tick TimeLastHandshakeStarted (t2\<lparr>t_handshake := hs\<rparr>))"
    using run False pre ty fmt by (auto split: if_splits option.splits sum.splits)
  moreover have "t_handshake t2 = t_handshake t" "t2 = t\<lparr>t_timers := tm, t_network_outgoing := q\<rparr>"
    "t_timers t1 = (if is_expired (t_handshake t) then Timers_clear (en_now en) (t_timers t) else t_timers t)"
    by (simp_all add: t2 t1_def)
  ultimately show ?thesis
    using sent [OF _ roll, of "n - s1 t2" ty r3 x hs r4] fmt by simp
qed

lemma Tunn_initiation_keeps:
  assumes "Tunn_format_handshake_initiation en n force t r = Some (res, t', r')" "tunn_ok t" "clock_ok en t"
  shows "keeps t t'"
  using assms(1)
proof (cases rule: Tunn_initiation_cases)
  case (sent tm0 b tm r1 q ty k r2 x hs r3 t2)
  have "timers_ok tm0"
    using assms(2,3) timers_clear_ok by (auto simp: sent(1) tunn_ok_def clock_ok_def)
  then have tm: "timers_ok tm"
    using timers_ok_roll [of tm0 b r] sent(2) by simp
  have cfg: "tm_timing_ranges tm = tm_timing_ranges (t_timers t)" "tm_time_started tm = tm_time_started (t_timers t)"
    using sent(1,2) by (auto simp: roll_handshake_timings_def Timers_clear_def split_beta Let_def split: if_splits)
  have "hs_inv hs"
    using hs_step_keeps(3) [OF hs_step.initiate [OF sent(3)]] assms(2) by (simp add: tunn_ok_def)
  then have "keeps t t2"
    using assms(2) tm cfg by (simp add: sent(4) keeps_def tunn_ok_def tunn_config_def)
  then show ?thesis
    using sent(5) timer_tick_ok by (auto simp: keeps_def)
qed (simp add: keeps_def assms)

lemma clock_ok_same: "t_timers t' = t_timers t \<Longrightarrow> clock_ok en t \<Longrightarrow> clock_ok en t'"
  by (simp add: clock_ok_def)

lemma queue_timers [simp]: "t_timers (queue_packet p t) = t_timers t" "t_timers (snd (dequeue_packet t)) = t_timers t"
  by (simp_all add: queue_packet_def dequeue_packet_def split: list.splits)

lemma format_transport_frame:
  assumes "format_transport_packet en s src pad n t r = Some (d, s', r')"
  shows "session_local_index s' = session_local_index s" and "session_ok s' = session_ok s"
  using assms format_packet_data_frame
  by (auto simp: format_transport_packet_def Let_def split: prod.splits if_splits option.splits)

lemma encapsulate_cases:
  assumes "encapsulate en src n t r = Some (res, t', r')"
  obtains (small) s where "t_sessions t ! (t_current t mod N_SESSIONS) = Some s" "res = ErrResult DestinationBufferTooSmall" "t' = t" "r' = r"
      "n < s4 t + DATA_OVERHEAD_SZ + length src"
  | (sent) s t1 pad r1 packet s' t2 where "t_sessions t ! (t_current t mod N_SESSIONS) = Some s"
      "s4 t + DATA_OVERHEAD_SZ + length src \<le> n"
      "t1 = observe_datagram (s4 t + DATA_OVERHEAD_SZ + length src) t" "transport_padding (length src) n t1 r = (pad, r1)"
      "format_transport_packet en s src pad n t1 r1 = Some (packet, s', r')" "res = WriteToNetwork packet"
      "t2 = timer_tick TimeLastPacketSent (t1\<lparr>t_sessions := (t_sessions t)[t_current t mod N_SESSIONS := Some s']\<rparr>)"
      "t' = (if src \<noteq> [] then timer_tick TimeLastDataPacketSent t2 else t2)\<lparr>t_tx_bytes := t_tx_bytes t + length src\<rparr>"
  | (queued) "t_sessions t ! (t_current t mod N_SESSIONS) = None"
      "Tunn_format_handshake_initiation en n False (queue_packet src t) r = Some (res, t', r')"
proof (cases "t_sessions t ! (t_current t mod N_SESSIONS)")
  case None
  then show ?thesis
    using assms by (intro queued) (simp_all add: encapsulate_def)
next
  case (Some s)
  show ?thesis
  proof (cases "n < s4 t + DATA_OVERHEAD_SZ + length src")
    case True
    then have "res = ErrResult DestinationBufferTooSmall \<and> t' = t \<and> r' = r"
      using assms Some by (simp add: encapsulate_def)
    with True show ?thesis
      using small [OF Some] by blast
  next
    case False
    define t1 where "t1 = observe_datagram (s4 t + DATA_OVERHEAD_SZ + length src) t"
    obtain pad r1 where pad: "transport_padding (length src) n t1 r = (pad, r1)"
      by fastforce
    have ss: "t_sessions t1 = t_sessions t" "t_tx_bytes t1 = t_tx_bytes t"
      by (simp_all add: t1_def observe_datagram_def)
    have run: "encapsulate en src n t r =
        (case format_transport_packet en s src pad n t1 r1 of
           None \<Rightarrow> None
         | Some (packet, s', r') \<Rightarrow>
             let t2 = timer_tick TimeLastPacketSent (t1\<lparr>t_sessions := (t_sessions t1)[t_current t mod N_SESSIONS := Some s']\<rparr>);
                 t3 = (if src \<noteq> [] then timer_tick TimeLastDataPacketSent t2 else t2)
             in Some (WriteToNetwork packet, t3\<lparr>t_tx_bytes := t_tx_bytes t3 + length src\<rparr>, r'))"
      using Some False by (simp add: encapsulate_def Let_def t1_def [symmetric] pad)
    then obtain packet s' where fmt: "format_transport_packet en s src pad n t1 r1 = Some (packet, s', r')"
      using assms by (auto simp: Let_def split: option.splits)
    then show ?thesis
      using assms run False ss by (intro sent [OF Some _ t1_def pad fmt _ refl]) (auto simp: Let_def timer_tick_def)
  qed
qed

lemma encapsulate_keeps:
  assumes "encapsulate en src n t r = Some (res, t', r')" "tunn_ok t" "clock_ok en t"
  shows "keeps t t'"
  using assms(1)
proof (cases rule: encapsulate_cases)
  case (sent s t1 pad r1 packet s' t2)
  have "session_ok s" "session_local_index s mod N_SESSIONS = t_current t mod N_SESSIONS"
    using assms(2) sessions_ok_nth [OF _ N_SESSIONS_pos(2) sent(1)] by (simp_all add: tunn_ok_def)
  then have "tunn_ok (t1\<lparr>t_sessions := (t_sessions t1)[t_current t mod N_SESSIONS := Some s']\<rparr>)"
    using format_transport_frame [OF sent(5)] assms(2) by (intro put_session_ok) (simp_all add: sent(3))
  then have "keeps t t2"
    using timer_tick_ok by (simp add: sent(3,7) keeps_def observe_datagram_def [of _ t])
  then show ?thesis
    using timer_tick_ok [of t2] by (simp add: sent(8) keeps_def)
next
  case queued
  then show ?thesis
    using Tunn_initiation_keeps [OF queued(2)] assms(2) clock_ok_same [OF _ assms(3)] by (simp add: keeps_def)
qed (simp add: keeps_def assms)

lemma send_queued_keeps:
  assumes "send_queued_packet en n t r = Some (res, t', r')" "tunn_ok t" "clock_ok en t"
  shows "keeps t t'"
proof -
  obtain p t1 where d: "dequeue_packet t = (p, t1)"
    by fastforce
  have t1: "tunn_ok t1" "tunn_config t1 = tunn_config t" "t_timers t1 = t_timers t"
    using dequeue_ok [OF assms(2) d] queue_timers(2) [of t] d by auto
  show ?thesis
  proof (cases p)
    case None
    then show ?thesis
      using assms(1) d t1 by (simp add: send_queued_packet_def keeps_def)
  next
    case (Some packet)
    then obtain res1 t2 r2 where e: "encapsulate en packet n t1 r = Some (res1, t2, r2)"
      using assms(1) d by (auto simp: send_queued_packet_def split: option.splits)
    then have "keeps t t2"
      using encapsulate_keeps [OF e t1(1) clock_ok_same [OF t1(3) assms(3)]] t1(2) by (simp add: keeps_def)
    then show ?thesis
      using assms(1) d Some e by (cases res1) (auto simp: send_queued_packet_def keeps_def)
  qed
qed

lemma session_new_index [simp]: "session_local_index (Session_new i j rk sk) = unat i"
  by (simp add: session_local_index_def Session_new_def)

lemma handle_init_cases:
  assumes "handle_handshake_init en p n t r = Some (res, t', r')"
  obtains (small) r1 where "res = Err DestinationBufferTooSmall" "t' = t" "n < s2 t + HANDSHAKE_RESP_SZ"
  | (rejected) ty r1 e hs where "receive_handshake_initialization (en_crypto en) p (n - s2 t) ty (t_handshake t) r1 = Some (Inl e, hs, r')"
      "res = Err e" "t' = t\<lparr>t_handshake := hs\<rparr>"
  | (accepted) ty r1 packet s hs r2 t1 d where
      "HeaderRange_generate (hc_response (t_header_config t)) r = (ty, r1)" "s2 t + HANDSHAKE_RESP_SZ \<le> n"
      "receive_handshake_initialization (en_crypto en) p (n - s2 t) ty (t_handshake t) r1 = Some (Inr (packet, s), hs, r2)"
      "t1 = t\<lparr>t_handshake := hs, t_sessions := (t_sessions t)[session_local_index s mod N_SESSIONS := Some s]\<rparr>"
      "frame_message en (s2 t) packet n t1 r2 = Some (d, r')" "res = Ok (WriteToNetwork d)"
      "t' = timer_tick_session_established False (session_local_index s)
              (timer_tick TimeLastPacketSent (timer_tick TimeLastPacketReceived t1))"
proof -
  obtain ty r1 where ty: "HeaderRange_generate (hc_response (t_header_config t)) r = (ty, r1)"
    by fastforce
  show ?thesis
  proof (cases "n < s2 t + HANDSHAKE_RESP_SZ")
    case True
    then have "res = Err DestinationBufferTooSmall \<and> t' = t"
      using assms by (simp add: handle_handshake_init_def ty)
    with True show ?thesis
      using small by blast
  next
    case False
    then obtain x hs r2 where rcv: "receive_handshake_initialization (en_crypto en) p (n - s2 t) ty (t_handshake t) r1 = Some (x, hs, r2)"
      using assms by (auto simp: handle_handshake_init_def ty split: option.splits)
    show ?thesis
    proof (cases x)
      case (Inl e)
      then have "res = Err e \<and> t' = t\<lparr>t_handshake := hs\<rparr> \<and> r' = r2"
        using assms False rcv by (simp add: handle_handshake_init_def ty)
      then show ?thesis
        using rejected rcv Inl by blast
    next
      case (Inr y)
      obtain packet s where y: "y = (packet, s)"
        by fastforce
      define t1 where "t1 = t\<lparr>t_handshake := hs, t_sessions := (t_sessions t)[session_local_index s mod N_SESSIONS := Some s]\<rparr>"
      have s2: "s2 t1 = s2 t"
        by (simp add: t1_def s2_def)
      obtain d r3 where fr: "frame_message en (s2 t) packet n t1 r2 = Some (d, r3)"
        using assms False rcv Inr y by (auto simp: handle_handshake_init_def ty Let_def t1_def [symmetric] s2 split: option.splits)
      then have "r3 = r' \<and> res = Ok (WriteToNetwork d) \<and>
        t' = timer_tick_session_established False (session_local_index s)
              (timer_tick TimeLastPacketSent (timer_tick TimeLastPacketReceived t1))"
        using assms False rcv Inr y by (simp add: handle_handshake_init_def ty Let_def t1_def [symmetric] s2)
      then show ?thesis
        using accepted [OF ty _ rcv [unfolded Inr y] t1_def, of d] fr False by simp
    qed
  qed
qed

lemma handle_response_cases:
  assumes "handle_handshake_response en p n t r = Some (res, t', r')"
  obtains (small) "res = Err DestinationBufferTooSmall" "t' = t" "n < s4 t + DATA_OVERHEAD_SZ"
  | (rejected) e hs where "receive_handshake_response (en_crypto en) (en_now en) p (t_handshake t) = Some (Inl e, hs)"
      "res = Err e" "t' = t\<lparr>t_handshake := hs\<rparr>"
  | (accepted) s hs pad r1 d s' t1 where "receive_handshake_response (en_crypto en) (en_now en) p (t_handshake t) = Some (Inr s, hs)"
      "s4 t + DATA_OVERHEAD_SZ \<le> n"
      "content_padding_addition 0 n (t\<lparr>t_handshake := hs\<rparr>) r = (pad, r1)"
      "format_transport_packet en s [] pad n (t\<lparr>t_handshake := hs\<rparr>) r1 = Some (d, s', r')" "res = Ok (WriteToNetwork d)"
      "t1 = timer_tick TimeLastPacketReceived
              (t\<lparr>t_handshake := hs, t_sessions := (t_sessions t)[session_local_index s' mod N_SESSIONS := Some s']\<rparr>)"
      "t' = set_current_session (session_local_index s')
              (timer_tick_session_established True (session_local_index s' mod N_SESSIONS) t1)"
proof (cases "n < s4 t + DATA_OVERHEAD_SZ")
  case True
  then have "res = Err DestinationBufferTooSmall \<and> t' = t"
    using assms by (simp add: handle_handshake_response_def)
  with True show ?thesis
    using small by blast
next
  case False
  then obtain x hs where rcv: "receive_handshake_response (en_crypto en) (en_now en) p (t_handshake t) = Some (x, hs)"
    using assms by (auto simp: handle_handshake_response_def split: option.splits)
  show ?thesis
  proof (cases x)
    case (Inl e)
    then have "res = Err e \<and> t' = t\<lparr>t_handshake := hs\<rparr>"
      using assms False rcv by (simp add: handle_handshake_response_def)
    then show ?thesis
      using rejected rcv Inl by blast
  next
    case (Inr s)
    obtain pad r1 where pad: "content_padding_addition 0 n (t\<lparr>t_handshake := hs\<rparr>) r = (pad, r1)"
      by fastforce
    obtain d s' r2 where fmt: "format_transport_packet en s [] pad n (t\<lparr>t_handshake := hs\<rparr>) r1 = Some (d, s', r2)"
      using assms False rcv Inr by (auto simp: handle_handshake_response_def pad Let_def split: option.splits)
    then have "r2 = r' \<and> res = Ok (WriteToNetwork d) \<and> t' = set_current_session (session_local_index s')
              (timer_tick_session_established True (session_local_index s' mod N_SESSIONS) (timer_tick TimeLastPacketReceived
              (t\<lparr>t_handshake := hs, t_sessions := (t_sessions t)[session_local_index s' mod N_SESSIONS := Some s']\<rparr>)))"
      using assms False rcv Inr by (simp add: handle_handshake_response_def pad Let_def)
    then show ?thesis
      using accepted [OF rcv [unfolded Inr] _ pad _ _ refl, of d s'] fmt False by simp
  qed
qed

lemma handle_init_keeps:
  assumes "handle_handshake_init en p n t r = Some (res, t', r')" "tunn_ok t"
  shows "keeps t t'"
  using assms(1)
proof (cases rule: handle_init_cases)
  case (rejected ty r1 e hs)
  then show ?thesis
    using put_handshake_ok [OF assms(2) hs_step.initiation] by (simp add: keeps_def)
next
  case (accepted ty r1 packet s hs r2 t1 d)
  have "session_ok s"
    using accepted(3) by (auto simp: receive_handshake_initialization_def format_handshake_response_def Let_def
        split: option.splits sum.splits prod.splits if_splits HandshakeState.splits)
  then have "tunn_ok t1"
    using put_handshake_ok [OF assms(2) hs_step.initiation [OF accepted(3)]] put_session_ok [of "t\<lparr>t_handshake := hs\<rparr>" s]
    by (simp add: accepted(4))
  then show ?thesis
    using timer_tick_ok timer_tick_established_ok by (simp add: keeps_def accepted(4,7))
qed (simp add: keeps_def assms)

lemma handle_response_keeps:
  assumes "handle_handshake_response en p n t r = Some (res, t', r')" "tunn_ok t"
  shows "keeps t t'"
  using assms(1)
proof (cases rule: handle_response_cases)
  case (rejected e hs)
  then show ?thesis
    using put_handshake_ok [OF assms(2) hs_step.response] by (simp add: keeps_def)
next
  case (accepted s hs pad r1 d s' t1)
  have "session_ok s"
    using accepted(1) by (auto simp: receive_handshake_response_def Let_def split: option.splits sum.splits prod.splits)
  then have "session_ok s'"
    using format_transport_frame [OF accepted(4)] by simp
  then have "tunn_ok (t\<lparr>t_handshake := hs, t_sessions := (t_sessions t)[session_local_index s' mod N_SESSIONS := Some s']\<rparr>)"
    using put_handshake_ok [OF assms(2) hs_step.response [OF accepted(1)]] put_session_ok [of "t\<lparr>t_handshake := hs\<rparr>" s']
    by simp
  then show ?thesis
    using timer_tick_ok timer_tick_established_ok by (simp add: keeps_def accepted(6,7))
qed (simp add: keeps_def assms)

lemma handle_cookie_keeps:
  assumes "handle_cookie_reply en p t = (res, t')" "tunn_ok t"
  shows "keeps t t'"
  using assms put_handshake_ok [OF assms(2) hs_step.cookie] timer_tick_ok
  by (auto simp: handle_cookie_reply_def keeps_def split: prod.splits sum.splits)

lemma handle_data_cases:
  assumes "handle_data en p n t = Some (res, t')"
  obtains (unknown) "t_sessions t ! (unat (pd_receiver_idx p) mod N_SESSIONS) = None" "res = Err NoCurrentSession"
      "t' = observe_datagram (s4 t + TRANSPORT_HEADER_SZ + length (pd_encrypted_encapsulated_packet p)) t"
  | (rejected) s e s' t1 where "t_sessions t ! (unat (pd_receiver_idx p) mod N_SESSIONS) = Some s"
      "receive_packet_data (en_crypto en) p n s = Some (Inl e, s')" "res = Err e"
      "t1 = observe_datagram (s4 t + TRANSPORT_HEADER_SZ + length (pd_encrypted_encapsulated_packet p)) t"
      "t' = t1\<lparr>t_sessions := (t_sessions t1)[unat (pd_receiver_idx p) mod N_SESSIONS := Some s']\<rparr>"
  | (accepted) s pt s' t1 result where "t_sessions t ! (unat (pd_receiver_idx p) mod N_SESSIONS) = Some s"
      "receive_packet_data (en_crypto en) p n s = Some (Inr pt, s')" "res = Ok result"
      "t1 = observe_datagram (s4 t + TRANSPORT_HEADER_SZ + length (pd_encrypted_encapsulated_packet p)) t"
      "validate_decapsulated_packet pt (timer_tick TimeLastPacketReceived (set_current_session (unat (pd_receiver_idx p))
         (t1\<lparr>t_sessions := (t_sessions t1)[unat (pd_receiver_idx p) mod N_SESSIONS := Some s']\<rparr>))) = (result, t')"
proof -
  define t1 where "t1 = observe_datagram (s4 t + TRANSPORT_HEADER_SZ + length (pd_encrypted_encapsulated_packet p)) t"
  have ss: "t_sessions t1 = t_sessions t"
    by (simp add: t1_def observe_datagram_def)
  show ?thesis
  proof (cases "t_sessions t ! (unat (pd_receiver_idx p) mod N_SESSIONS)")
    case None
    then have "res = Err NoCurrentSession \<and> t' = t1"
      using assms by (simp add: handle_data_def t1_def [symmetric] ss)
    then show ?thesis
      using unknown None t1_def by blast
  next
    case (Some s)
    then obtain x s' where rcv: "receive_packet_data (en_crypto en) p n s = Some (x, s')"
      using assms by (auto simp: handle_data_def t1_def [symmetric] ss Let_def split: option.splits)
    show ?thesis
    proof (cases x)
      case (Inl e)
      then have "res = Err e \<and> t' = t1\<lparr>t_sessions := (t_sessions t1)[unat (pd_receiver_idx p) mod N_SESSIONS := Some s']\<rparr>"
        using assms Some rcv by (simp add: handle_data_def t1_def [symmetric] ss Let_def)
      then show ?thesis
        using rejected [OF Some _ _ t1_def] rcv Inl by blast
    next
      case (Inr pt)
      obtain result t2 where v: "validate_decapsulated_packet pt (timer_tick TimeLastPacketReceived
          (set_current_session (unat (pd_receiver_idx p))
           (t1\<lparr>t_sessions := (t_sessions t1)[unat (pd_receiver_idx p) mod N_SESSIONS := Some s']\<rparr>))) = (result, t2)"
        by fastforce
      then have "res = Ok result \<and> t2 = t'"
        using assms Some rcv Inr by (simp add: handle_data_def t1_def [symmetric] ss Let_def)
      then show ?thesis
        using accepted [OF Some _ _ t1_def] rcv Inr v by blast
    qed
  qed
qed

lemma handle_data_keeps:
  assumes "handle_data en p n t = Some (res, t')" "tunn_ok t"
  shows "keeps t t'"
proof -
  have put: "tunn_ok (t1\<lparr>t_sessions := (t_sessions t1)[unat (pd_receiver_idx p) mod N_SESSIONS := Some s']\<rparr>)"
    if "t_sessions t ! (unat (pd_receiver_idx p) mod N_SESSIONS) = Some s" "receive_packet_data (en_crypto en) p n s = Some (x, s')"
      "t1 = observe_datagram k t" for s x s' t1 k
  proof -
    have "session_ok s \<and> session_local_index s mod N_SESSIONS = unat (pd_receiver_idx p) mod N_SESSIONS"
      using assms(2) that(1) by (intro sessions_ok_nth) (simp_all add: tunn_ok_def)
    then show ?thesis
      using receive_packet_data_frame [OF that(2)] assms(2) by (intro put_session_ok) (simp_all add: that(3))
  qed
  from assms(1) show ?thesis
  proof (cases rule: handle_data_cases)
    case unknown
    then show ?thesis
      by (simp add: keeps_def assms)
  next
    case (rejected s e s' t1)
    then show ?thesis
      using put [OF rejected(1,2,4)] by (simp add: keeps_def)
  next
    case (accepted s pt s' t1 result)
    then show ?thesis
      using validate_ok [OF _ accepted(5)] put [OF accepted(1,2,4)] by (simp add: keeps_def timer_tick_ok)
  qed
qed

lemma handle_verified_keeps:
  assumes "handle_verified_packet en packet n t r = Some (res, t', r')" "tunn_ok t"
  shows "keeps t t'"
proof (cases packet)
  case (HandshakeInit p)
  then show ?thesis
    using assms by (auto simp: handle_verified_packet_def dest: handle_init_keeps)
next
  case (HandshakeResponse p)
  then show ?thesis
    using assms by (auto simp: handle_verified_packet_def dest: handle_response_keeps)
next
  case (PacketCookieReply p)
  then show ?thesis
    using assms by (auto simp: handle_verified_packet_def split: prod.splits dest: handle_cookie_keeps)
next
  case (PacketData p)
  then show ?thesis
    using assms by (auto simp: handle_verified_packet_def dest: handle_data_keeps)
qed

lemma decapsulate_keeps:
  assumes "decapsulate en addr d n t r = Some (res, t', r')" "tunn_ok t" "clock_ok en t"
  shows "keeps t t'"
proof (cases "d = []")
  case True
  then show ?thesis
    using assms send_queued_keeps by (simp add: decapsulate_def)
next
  case False
  then obtain f where f: "deframe (en_keystream en) (Tunn_classifier t) d = Some f"
    using assms(1) by (auto simp: decapsulate_def split: option.splits)
  show ?thesis
  proof (cases f)
    case (Transport p)
    then show ?thesis
      using assms(1,2) f False by (auto simp: decapsulate_def dest: handle_verified_keeps)
  next
    case (Stripped b)
    obtain v rl r1 where v: "verify_packet (en_crypto en) (en_now en) addr b COOKIE_REPLY_SZ (t_header_config t)
        (t_disable_cookies t) (t_rate_limiter t) r = (v, rl, r1)"
      by (meson prod_cases3)
    have ok: "tunn_ok (t\<lparr>t_rate_limiter := rl\<rparr>)"
      using assms(2) by simp
    show ?thesis
    proof (cases v)
      case (Inr packet)
      then show ?thesis
        using assms(1) f False Stripped v handle_verified_keeps [OF _ ok] by (auto simp: decapsulate_def keeps_def)
    next
      case (Inl e)
      then show ?thesis
        using assms(1) f False Stripped v ok by (cases e) (auto simp: decapsulate_def keeps_def Let_def split: if_splits)
    qed
  qed
qed

lemma new_ok:
  "new_with_amnezia3 en priv peer psk ka i rl a r = (Ok t, r') \<Longrightarrow> tunn_ok t"
  using timers_ok_new [of "en_now en" ka "rl = None" "a3_timing_ranges a" r]
  by (auto simp: new_with_amnezia3_def tunn_ok_def split_beta Let_def split: sum.splits)

end
