(* ===== verification/TunnTimers.thy ===== *)
theory TunnTimers
  imports Tunn
begin

text \<open>
  The timer state machine of a tunnel (\<open>noise/timers.rs\<close>): expiry of sessions and of the whole
  connection, retransmission, rekeying and keepalives. Subtracting a later \<open>Duration\<close> panics in
  the source; \<open>since\<close> makes that explicit, and no timer being ahead of the clock
  (\<^const>\<open>timers_ok\<close>) excludes it.
\<close>

section \<open>The timer tick\<close>

definition since :: "nat \<Rightarrow> nat \<Rightarrow> nat option" where
  "since now t = (if t \<le> now then Some (now - t) else None)"

text \<open>\<open>cond && now - t >= d\<close>\<close>

definition due :: "bool \<Rightarrow> nat \<Rightarrow> nat \<Rightarrow> nat \<Rightarrow> bool option" where
  "due cond now t d = (if cond then map_option (\<lambda>elapsed. d \<le> elapsed) (since now t) else Some False)"

definition clear_all :: "env \<Rightarrow> tunn \<Rightarrow> tunn" where
  "clear_all en t =
     t\<lparr>t_sessions := map (\<lambda>_. None) (t_sessions t), t_packet_queue := [], t_network_outgoing := [],
       t_timers := Timers_clear (en_now en) (t_timers t)\<rparr>"

fun expire_sessions :: "nat \<Rightarrow> nat \<Rightarrow> nat list \<Rightarrow> session option list \<Rightarrow> (nat list \<times> session option list) option" where
  "expire_sessions now reject (x # xs) (s # ss) =
     (case since now x of
        None \<Rightarrow> None
      | Some elapsed \<Rightarrow>
          map_option (\<lambda>(xs, ss). if elapsed > reject then (now # xs, None # ss) else (x # xs, s # ss))
            (expire_sessions now reject xs ss))"
| "expire_sessions now reject xs ss = Some (xs, ss)"

definition update_session_timers :: "nat \<Rightarrow> tunn \<Rightarrow> tunn option" where
  "update_session_timers now t =
     map_option (\<lambda>(xs, ss). t\<lparr>t_timers := (t_timers t)\<lparr>tm_session_timers := xs\<rparr>, t_sessions := ss\<rparr>)
       (expire_sessions now (reject_after_time (t_timers t)) (tm_session_timers (t_timers t)) (t_sessions t))"

text \<open>The three rekey conditions; the draws happen whether or not the condition holds.\<close>

definition initiator_rekey :: "nat \<Rightarrow> timers \<Rightarrow> rng \<Rightarrow> (bool \<times> rng) option" where
  "initiator_rekey now tm r =
     (let ranges = tm_timing_ranges tm;
          session_established = tm_timers tm TimeSessionEstablished;
          (rekey_after, r) = U32Range_pick_or (tr_rekey_after_time ranges) REKEY_AFTER_TIME_SECS r;
          on_send = due (session_established < tm_timers tm TimeLastDataPacketSent) now session_established
                      (from_secs (unat rekey_after));
          (reject, r) = U32Range_pick_or (tr_reject_after_time ranges) REJECT_AFTER_TIME_SECS r;
          margin = U32Range_lo_or (tr_keepalive_timeout ranges) KEEPALIVE_TIMEOUT_SECS +
                   U32Range_lo_or (tr_rekey_timeout ranges) REKEY_TIMEOUT_SECS;
          receiver_rekey_after = from_secs (unat reject - unat margin);
          on_receive = due (session_established < tm_timers tm TimeLastDataPacketReceived) now session_established
                         receiver_rekey_after
      in Option.bind on_send (\<lambda>a. Option.bind on_receive (\<lambda>b. Some (a \<or> b, r))))"

definition silence_rekey :: "nat \<Rightarrow> timers \<Rightarrow> rng \<Rightarrow> (bool \<times> timers \<times> rng) option" where
  "silence_rekey now tm r =
     (let ranges = tm_timing_ranges tm;
          aut_packet_received = tm_timers tm TimeLastPacketReceived;
          (rekey, r) = U32Range_pick_or (tr_rekey_timeout ranges) REKEY_TIMEOUT_SECS r;
          (jitter, r) = gen_range_u32 0 (REKEY_TIMEOUT_JITTER_MAX_MS - 1) r;
          new_handshake_after =
            from_secs (unat (U32Range_hi_or (tr_keepalive_timeout ranges) KEEPALIVE_TIMEOUT_SECS + rekey)) +
            from_millis (unat jitter)
      in Option.bind (due (tm_timers tm TimeLastDataPacketSent > aut_packet_received) now aut_packet_received new_handshake_after)
           (\<lambda>late. if late then Some (tm_want_handshake tm, tm\<lparr>tm_want_handshake := False\<rparr>, r) else Some (False, tm, r)))"

definition passive_keepalive :: "nat \<Rightarrow> timers \<Rightarrow> rng \<Rightarrow> (bool \<times> timers \<times> rng) option" where
  "passive_keepalive now tm r =
     (let aut_packet_sent = tm_timers tm TimeLastPacketSent;
          (timeout, r) = U32Range_pick_or (tr_keepalive_timeout (tm_timing_ranges tm)) KEEPALIVE_TIMEOUT_SECS r
      in Option.bind (due (tm_timers tm TimeLastDataPacketReceived > aut_packet_sent) now aut_packet_sent (from_secs (unat timeout)))
           (\<lambda>late. if late then Some (tm_want_keepalive tm, tm\<lparr>tm_want_keepalive := False\<rparr>, r) else Some (False, tm, r)))"

definition persistent_keepalive_due :: "nat \<Rightarrow> timers \<Rightarrow> rng \<Rightarrow> (bool \<times> timers \<times> rng) option" where
  "persistent_keepalive_due now tm r =
     (let keepalive_range = tr_persistent_keepalive (tm_timing_ranges tm);
          last = tm_timers tm TimePersistentKeepalive
      in if \<not> U32Range_is_zero keepalive_range
         then Option.bind (due True now last (tm_persistent_keepalive_next tm))
                (\<lambda>late. if late
                   then let (secs, r) = U32Range_generate keepalive_range r
                        in Some (True, tick TimePersistentKeepalive (tm\<lparr>tm_persistent_keepalive_next := from_secs (unat secs)\<rparr>), r)
                   else Some (False, tm, r))
         else Option.bind (due (tm_persistent_keepalive tm > 0) now last (from_secs (tm_persistent_keepalive tm)))
                (\<lambda>late. if late then Some (True, tick TimePersistentKeepalive tm, r) else Some (False, tm, r)))"

definition connection_expired :: "env \<Rightarrow> tunn \<Rightarrow> rng \<Rightarrow> (TunnResult \<times> tunn \<times> rng) option" where
  "connection_expired en t r =
     Some (ErrResult ConnectionExpired, clear_all en (t\<lparr>t_handshake := set_expired (t_handshake t)\<rparr>), r)"

definition keepalive_checks :: "env \<Rightarrow> nat \<Rightarrow> nat \<Rightarrow> tunn \<Rightarrow> rng \<Rightarrow> (TunnResult \<times> tunn \<times> rng) option" where
  "keepalive_checks en now dst_len t r =
     Option.bind (passive_keepalive now (t_timers t) r) (\<lambda>(a, tm, r).
     Option.bind (persistent_keepalive_due now tm r) (\<lambda>(b, tm, r).
       if a \<or> b then encapsulate en [] dst_len (t\<lparr>t_timers := tm\<rparr>) r else Some (Done, t\<lparr>t_timers := tm\<rparr>, r)))"

definition rekey_checks :: "env \<Rightarrow> nat \<Rightarrow> nat \<Rightarrow> tunn \<Rightarrow> rng \<Rightarrow> (TunnResult \<times> tunn \<times> rng) option" where
  "rekey_checks en now dst_len t r =
     Option.bind (if tm_is_initiator (t_timers t) then initiator_rekey now (t_timers t) r else Some (False, r)) (\<lambda>(a, r).
     Option.bind (silence_rekey now (t_timers t) r) (\<lambda>(b, tm, r).
       if a \<or> b then Tunn_format_handshake_initiation en dst_len True (t\<lparr>t_timers := tm\<rparr>) r
       else keepalive_checks en now dst_len (t\<lparr>t_timers := tm\<rparr>) r))"

text \<open>The part after the session timers, when the handshake has not expired.\<close>

definition timer_actions :: "env \<Rightarrow> nat \<Rightarrow> nat \<Rightarrow> tunn \<Rightarrow> rng \<Rightarrow> (TunnResult \<times> tunn \<times> rng) option" where
  "timer_actions en now dst_len t r =
     Option.bind (due (has_cookie (t_handshake t)) now (tm_timers (t_timers t) TimeCookieReceived) COOKIE_EXPIRATION_TIME) (\<lambda>cookie_old.
       let t = (if cookie_old then t\<lparr>t_handshake := clear_cookie (t_handshake t)\<rparr> else t) in
       Option.bind (due True now (tm_timers (t_timers t) TimeSessionEstablished) (reject_after_time (t_timers t) * 3)) (\<lambda>dead.
         if dead then connection_expired en t r
         else case handshake_timer (t_handshake t) of
           Some time_init_sent \<Rightarrow>
             Option.bind (due True now (tm_timers (t_timers t) TimeLastHandshakeStarted) (tm_rekey_attempt_deadline (t_timers t))) (\<lambda>give_up.
               if give_up then connection_expired en t r
               else if en_now en - time_init_sent \<ge> tm_rekey_timeout_current (t_timers t)
                    then Tunn_format_handshake_initiation en dst_len True t r
                    else Some (Done, t, r))
         | None \<Rightarrow> rekey_checks en now dst_len t r))"

definition update_timers :: "env \<Rightarrow> nat \<Rightarrow> tunn \<Rightarrow> rng \<Rightarrow> (TunnResult \<times> tunn \<times> rng) option" where
  "update_timers en dst_len t r =
     (let t = (if tm_should_reset_rr (t_timers t)
               then t\<lparr>t_rate_limiter := reset_count (en_now en) (t_rate_limiter t)\<rparr> else t);
          now = en_now en - tm_time_started (t_timers t);
          t = t\<lparr>t_timers := (t_timers t)\<lparr>tm_timers := (tm_timers (t_timers t))(TimeCurrent := now)\<rparr>\<rparr>
      in Option.bind (update_session_timers now t) (\<lambda>t.
           if is_expired (t_handshake t) then Some (ErrResult ConnectionExpired, t, r)
           else timer_actions en now dst_len t r))"

definition time_since_last_handshake :: "env \<Rightarrow> tunn \<Rightarrow> nat option option" where
  "time_since_last_handshake en t =
     (if t_sessions t ! (t_current t mod N_SESSIONS) \<noteq> None
      then map_option Some (since (en_now en - tm_time_started (t_timers t)) (tm_timers (t_timers t) TimeSessionEstablished))
      else Some None)"

section \<open>Expiry\<close>

lemma since_ok: "t \<le> now \<Longrightarrow> since now t = Some (now - t)"
  by (simp add: since_def)

lemma due_total: "t \<le> now \<Longrightarrow> due c now t d = Some (c \<and> d \<le> now - t)"
  by (simp add: due_def since_ok)

lemma expire_sessions_spec:
  assumes "length xs = length ss" "\<forall>x \<in> set xs. x \<le> now"
  shows "expire_sessions now reject xs ss =
    Some (map (\<lambda>x. if now - x > reject then now else x) xs,
          map (\<lambda>(x, s). if now - x > reject then None else s) (zip xs ss))"
  using assms by (induction xs ss rule: list_induct2) (auto simp: since_ok)

lemma map_zip_nth:
  "length xs = length ss \<Longrightarrow> i < length ss \<Longrightarrow> map f (zip xs ss) ! i = f (xs ! i, ss ! i)"
  by simp

text \<open>The state at the moment a tick looks at it.\<close>

definition at_tick :: "env \<Rightarrow> tunn \<Rightarrow> tunn" where
  "at_tick en t =
     t\<lparr>t_rate_limiter := (if tm_should_reset_rr (t_timers t) then reset_count (en_now en) (t_rate_limiter t) else t_rate_limiter t),
       t_timers := (t_timers t)\<lparr>tm_timers := (tm_timers (t_timers t))(TimeCurrent := en_now en - tm_time_started (t_timers t))\<rparr>\<rparr>"

lemma at_tick_ok: "tunn_ok t \<Longrightarrow> clock_ok en t \<Longrightarrow> keeps t (at_tick en t)"
  by (auto simp: keeps_def tunn_ok_def at_tick_def tunn_config_def timers_ok_def clock_ok_def intro: order_trans)

lemma at_tick_fields [simp]:
  "t_sessions (at_tick en t) = t_sessions t" "tm_session_timers (t_timers (at_tick en t)) = tm_session_timers (t_timers t)"
  "t_handshake (at_tick en t) = t_handshake t" "reject_after_time (t_timers (at_tick en t)) = reject_after_time (t_timers t)"
  "tm_timers (t_timers (at_tick en t)) TimeCurrent = en_now en - tm_time_started (t_timers t)"
  "n \<noteq> TimeCurrent \<Longrightarrow> tm_timers (t_timers (at_tick en t)) n = tm_timers (t_timers t) n"
  "tm_time_started (t_timers (at_tick en t)) = tm_time_started (t_timers t)"
  by (simp_all add: at_tick_def reject_after_time_def)

text \<open>The session slots after a tick: those older than the rejection time are empty.\<close>

definition expired_slots :: "nat \<Rightarrow> tunn \<Rightarrow> session option list" where
  "expired_slots now t =
     map (\<lambda>(x, s). if now - x > reject_after_time (t_timers t) then None else s) (zip (tm_session_timers (t_timers t)) (t_sessions t))"

definition refreshed_timers :: "nat \<Rightarrow> tunn \<Rightarrow> nat list" where
  "refreshed_timers now t = map (\<lambda>x. if now - x > reject_after_time (t_timers t) then now else x) (tm_session_timers (t_timers t))"

lemma update_session_timers_eq:
  assumes "tunn_ok t" "now = tm_timers (t_timers t) TimeCurrent"
  shows "update_session_timers now t =
     Some (t\<lparr>t_timers := (t_timers t)\<lparr>tm_session_timers := refreshed_timers now t\<rparr>, t_sessions := expired_slots now t\<rparr>)"
proof -
  have "length (tm_session_timers (t_timers t)) = length (t_sessions t)" "\<forall>x \<in> set (tm_session_timers (t_timers t)). x \<le> now"
    using assms by (auto simp: tunn_ok_def timers_ok_def sessions_ok_def)
  then show ?thesis
    by (simp add: update_session_timers_def expire_sessions_spec expired_slots_def refreshed_timers_def)
qed

lemma sessions_ok_expired: "tunn_ok t \<Longrightarrow> sessions_ok (expired_slots now t)"
  by (auto simp: sessions_ok_def tunn_ok_def timers_ok_def expired_slots_def split: if_splits)

lemma update_session_keeps:
  assumes "tunn_ok t" "now = tm_timers (t_timers t) TimeCurrent"
  shows "keeps t (t\<lparr>t_timers := (t_timers t)\<lparr>tm_session_timers := refreshed_timers now t\<rparr>, t_sessions := expired_slots now t\<rparr>)"
  using assms sessions_ok_expired [OF assms(1)]
  by (auto simp: keeps_def tunn_ok_def tunn_config_def timers_ok_def refreshed_timers_def)

lemma clear_all_keeps:
  assumes "tunn_ok t" "clock_ok en t"
  shows "keeps t (clear_all en t)"
  using assms timers_clear_ok [of "t_timers t" "en_now en"] sessions_ok_none
  by (auto simp: keeps_def tunn_ok_def clear_all_def tunn_config_def clock_ok_def Timers_clear_def)

section \<open>Ticks keep the invariant and do not panic\<close>

lemma initiator_rekey_total:
  assumes "timers_ok tm" "now = tm_timers tm TimeCurrent"
  shows "\<exists>a r'. initiator_rekey now tm r = Some (a, r')"
  using assms by (simp add: initiator_rekey_def due_total timers_ok_def split_beta Let_def)

lemma silence_rekey_total:
  assumes "timers_ok tm" "now = tm_timers tm TimeCurrent"
  shows "\<exists>b f r'. silence_rekey now tm r = Some (b, tm\<lparr>tm_want_handshake := f\<rparr>, r')"
proof -
  have "tm = tm\<lparr>tm_want_handshake := tm_want_handshake tm\<rparr>"
    by simp
  then show ?thesis
    using assms by (auto simp: silence_rekey_def due_total timers_ok_def split_beta Let_def intro: exI [of _ "tm_want_handshake tm"])
qed

lemma passive_keepalive_total:
  assumes "timers_ok tm" "now = tm_timers tm TimeCurrent"
  shows "\<exists>b f r'. passive_keepalive now tm r = Some (b, tm\<lparr>tm_want_keepalive := f\<rparr>, r')"
  using assms by (auto simp: passive_keepalive_def due_total timers_ok_def split_beta Let_def intro: exI [of _ "tm_want_keepalive tm"])

lemma persistent_keepalive_total:
  assumes "timers_ok tm" "now = tm_timers tm TimeCurrent"
  shows "\<exists>b tm' r'. persistent_keepalive_due now tm r = Some (b, tm', r') \<and> timers_ok tm' \<and>
     tm_timing_ranges tm' = tm_timing_ranges tm \<and> tm_time_started tm' = tm_time_started tm \<and>
     tm_timers tm' TimeCurrent = tm_timers tm TimeCurrent"
proof -
  have "timers_ok (tick TimePersistentKeepalive (tm\<lparr>tm_persistent_keepalive_next := k\<rparr>))" for k
    using assms(1) by (intro timers_ok_tick) (simp add: timers_ok_def)
  moreover have "tm_timers tm TimePersistentKeepalive \<le> now"
    using assms by (simp add: timers_ok_def)
  ultimately show ?thesis
    using assms(1) by (auto simp: persistent_keepalive_due_def due_total split_beta Let_def)
qed

text \<open>
  What a tick ends with: nothing, expiry of the connection, an initiation or a keepalive, from
  a state that differs from the one the tick found only in its timers and a dropped cookie.
\<close>

lemma timer_actions_cases:
  assumes "timer_actions en now n t r = Some (res, t', r')" "tunn_ok t" "clock_ok en t" "now = tm_timers (t_timers t) TimeCurrent"
  obtains (idle) t1 where "keeps t t1" "clock_ok en t1" "t' = t1" "res = Done" "t_sessions t1 = t_sessions t"
      "now - tm_timers (t_timers t) TimeSessionEstablished < reject_after_time (t_timers t) * 3"
  | (expired) t1 where "keeps t t1" "clock_ok en t1" "connection_expired en t1 r = Some (res, t', r')"
  | (initiate) t1 r1 where "keeps t t1" "clock_ok en t1" "Tunn_format_handshake_initiation en n True t1 r1 = Some (res, t', r')"
      "t_sessions t1 = t_sessions t" "now - tm_timers (t_timers t) TimeSessionEstablished < reject_after_time (t_timers t) * 3"
  | (keepalive) t1 r1 where "keeps t t1" "clock_ok en t1" "encapsulate en [] n t1 r1 = Some (res, t', r')"
      "t_sessions t1 = t_sessions t" "now - tm_timers (t_timers t) TimeSessionEstablished < reject_after_time (t_timers t) * 3"
proof -
  have tm: "timers_ok (t_timers t)"
    using assms(2) by (simp add: tunn_ok_def)
  then have le: "tm_timers (t_timers t) m \<le> now" for m
    using assms(4) by (simp add: timers_ok_def)
  define hs where "hs = (if has_cookie (t_handshake t) \<and> COOKIE_EXPIRATION_TIME \<le> now - tm_timers (t_timers t) TimeCookieReceived
                         then clear_cookie (t_handshake t) else t_handshake t)"
  define t1 where "t1 = t\<lparr>t_handshake := hs\<rparr>"
  have k1: "keeps t (t1\<lparr>t_timers := tm'\<rparr>)" "clock_ok en (t1\<lparr>t_timers := tm'\<rparr>)"
    if "timers_ok tm'" "tm_timing_ranges tm' = tm_timing_ranges (t_timers t)" "tm_time_started tm' = tm_time_started (t_timers t)"
      "tm_timers tm' TimeCurrent = tm_timers (t_timers t) TimeCurrent" for tm'
    using that assms(2,3) hs_step_keeps(3) [OF hs_step.forget, of "t_handshake t"]
    by (auto simp: keeps_def tunn_ok_def tunn_config_def t1_def hs_def clock_ok_def)
  have k0: "keeps t t1" "clock_ok en t1"
    using k1 [OF tm refl refl refl] by (simp_all add: t1_def)
  have run: "timer_actions en now n t r =
      (if reject_after_time (t_timers t) * 3 \<le> now - tm_timers (t_timers t) TimeSessionEstablished then connection_expired en t1 r
       else case handshake_timer hs of
           Some time_init_sent \<Rightarrow>
             if tm_rekey_attempt_deadline (t_timers t) \<le> now - tm_timers (t_timers t) TimeLastHandshakeStarted then connection_expired en t1 r
             else if en_now en - time_init_sent \<ge> tm_rekey_timeout_current (t_timers t)
                  then Tunn_format_handshake_initiation en n True t1 r
                  else Some (Done, t1, r)
         | None \<Rightarrow> rekey_checks en now n t1 r)"
    using le by (simp add: timer_actions_def due_total hs_def t1_def Let_def split: option.splits)
  show ?thesis
  proof (cases "reject_after_time (t_timers t) * 3 \<le> now - tm_timers (t_timers t) TimeSessionEstablished")
    case True
    then show ?thesis
      using expired [OF k0] assms(1) run by simp
  next
    case alive: False
    show ?thesis
    proof (cases "handshake_timer hs")
      case (Some x)
      then show ?thesis
        using expired [OF k0] initiate [OF k0] idle [OF k0] assms(1) run alive
        by (simp add: t1_def not_le split: if_splits)
    next
      case None
      then have rk: "rekey_checks en now n t1 r = Some (res, t', r')"
        using assms(1) run alive by simp
      obtain a r1 where a: "(if tm_is_initiator (t_timers t1) then initiator_rekey now (t_timers t1) r else Some (False, r)) = Some (a, r1)"
        using initiator_rekey_total [OF tm assms(4), of r] by (cases "tm_is_initiator (t_timers t)") (auto simp: t1_def)
      obtain b f r2 where b: "silence_rekey now (t_timers t1) r1 = Some (b, (t_timers t)\<lparr>tm_want_handshake := f\<rparr>, r2)"
        using silence_rekey_total [OF tm assms(4), of r1] by (auto simp: t1_def)
      let ?tm2 = "(t_timers t)\<lparr>tm_want_handshake := f\<rparr>"
      have tm2: "timers_ok ?tm2" "now = tm_timers ?tm2 TimeCurrent"
        using tm assms(4) by (simp_all add: timers_ok_def)
      obtain c g r3 where c: "passive_keepalive now ?tm2 r2 = Some (c, ?tm2\<lparr>tm_want_keepalive := g\<rparr>, r3)"
        using passive_keepalive_total [OF tm2, of r2] by auto
      let ?tm3 = "?tm2\<lparr>tm_want_keepalive := g\<rparr>"
      have tm3: "timers_ok ?tm3" "now = tm_timers ?tm3 TimeCurrent"
        using tm2 by (simp_all add: timers_ok_def)
      obtain d tm4 r4 where d: "persistent_keepalive_due now ?tm3 r3 = Some (d, tm4, r4)" "timers_ok tm4"
        "tm_timing_ranges tm4 = tm_timing_ranges (t_timers t)" "tm_time_started tm4 = tm_time_started (t_timers t)"
        "tm_timers tm4 TimeCurrent = tm_timers (t_timers t) TimeCurrent"
        using persistent_keepalive_total [OF tm3, of r3] by auto
      have k2: "keeps t (t1\<lparr>t_timers := ?tm2\<rparr>)" "clock_ok en (t1\<lparr>t_timers := ?tm2\<rparr>)"
        using k1 [of ?tm2] tm2 by simp_all
      have k4: "keeps t (t1\<lparr>t_timers := tm4\<rparr>)" "clock_ok en (t1\<lparr>t_timers := tm4\<rparr>)"
        using k1 [of tm4] d by simp_all
      show ?thesis
        using rk a b c d(1) alive initiate [OF k2, of r2] keepalive [OF k4, of r4] idle [OF k4]
        by (auto simp: rekey_checks_def keepalive_checks_def t1_def not_le split: if_splits)
    qed
  qed
qed

lemma connection_expired_keeps:
  assumes "connection_expired en t r = Some (res, t', r')" "tunn_ok t" "clock_ok en t"
  shows "keeps t t'"
proof -
  have "tunn_ok (t\<lparr>t_handshake := set_expired (t_handshake t)\<rparr>)"
    using put_handshake_ok [OF assms(2) hs_step.expire] .
  from clear_all_keeps [OF this, of en] assms show ?thesis
    by (simp add: connection_expired_def keeps_def clock_ok_def)
qed

lemma timer_actions_keeps:
  assumes "timer_actions en now n t r = Some (res, t', r')" "tunn_ok t" "clock_ok en t" "now = tm_timers (t_timers t) TimeCurrent"
  shows "keeps t t'"
  using assms
proof (cases rule: timer_actions_cases)
  case (expired t1)
  then show ?thesis
    using connection_expired_keeps [OF expired(3)] by (simp add: keeps_def)
next
  case (initiate t1 r1)
  then show ?thesis
    using Tunn_initiation_keeps [OF initiate(3)] by (simp add: keeps_def)
next
  case (keepalive t1 r1)
  then show ?thesis
    using encapsulate_keeps [OF keepalive(3)] by (simp add: keeps_def)
qed simp

text \<open>A tick on a good state is its expiry of sessions followed by the timer actions.\<close>

definition after_expiry :: "env \<Rightarrow> tunn \<Rightarrow> tunn" where
  "after_expiry en t =
     (let t1 = at_tick en t; now = en_now en - tm_time_started (t_timers t)
      in t1\<lparr>t_timers := (t_timers t1)\<lparr>tm_session_timers := refreshed_timers now t\<rparr>, t_sessions := expired_slots now t\<rparr>)"

lemma update_timers_eq:
  assumes "tunn_ok t" "clock_ok en t"
  shows "update_timers en n t r =
      (if is_expired (t_handshake t) then Some (ErrResult ConnectionExpired, after_expiry en t, r)
       else timer_actions en (en_now en - tm_time_started (t_timers t)) n (after_expiry en t) r)"
    and "keeps t (after_expiry en t)" and "clock_ok en (after_expiry en t)"
    and "tm_timers (t_timers (after_expiry en t)) TimeCurrent = en_now en - tm_time_started (t_timers t)"
    and "t_handshake (after_expiry en t) = t_handshake t"
proof -
  let ?now = "en_now en - tm_time_started (t_timers t)"
  have ok: "keeps t (at_tick en t)"
    by (rule at_tick_ok [OF assms])
  have slots: "expired_slots ?now (at_tick en t) = expired_slots ?now t"
    "refreshed_timers ?now (at_tick en t) = refreshed_timers ?now t"
    by (simp_all add: expired_slots_def refreshed_timers_def)
  have us: "update_session_timers ?now (at_tick en t) = Some (after_expiry en t)"
    using update_session_timers_eq [of "at_tick en t" ?now] ok by (simp add: keeps_def slots after_expiry_def Let_def)
  show hs: "t_handshake (after_expiry en t) = t_handshake t"
    by (simp add: after_expiry_def Let_def)
  show "keeps t (after_expiry en t)"
    using update_session_keeps [of "at_tick en t" ?now] ok by (simp add: keeps_def slots after_expiry_def Let_def)
  show "clock_ok en (after_expiry en t)" "tm_timers (t_timers (after_expiry en t)) TimeCurrent = ?now"
    by (simp_all add: clock_ok_def after_expiry_def at_tick_def Let_def)
  have "update_timers en n t r = Option.bind (update_session_timers ?now (at_tick en t)) (\<lambda>t.
           if is_expired (t_handshake t) then Some (ErrResult ConnectionExpired, t, r)
           else timer_actions en ?now n t r)"
    by (cases "tm_should_reset_rr (t_timers t)") (simp_all add: update_timers_def at_tick_def Let_def cong: if_cong)
  then show "update_timers en n t r =
      (if is_expired (t_handshake t) then Some (ErrResult ConnectionExpired, after_expiry en t, r)
       else timer_actions en ?now n (after_expiry en t) r)"
    by (simp add: us hs)
qed

lemma update_timers_keeps:
  assumes "update_timers en n t r = Some (res, t', r')" "tunn_ok t" "clock_ok en t"
  shows "keeps t t'"
  using assms(1) update_timers_eq(1) [OF assms(2,3), of n r] update_timers_eq(2-5) [OF assms(2,3)] timer_actions_keeps [of en _ n "after_expiry en t" r res t' r']
  by (auto simp: keeps_def split: if_splits)

section \<open>The tunnel as a transition system\<close>

text \<open>One call on a tunnel, in an environment whose clock has not run backwards.\<close>

inductive tunn_step :: "tunn \<Rightarrow> tunn \<Rightarrow> bool" where
  encapsulate: "clock_ok en t \<Longrightarrow> encapsulate en src n t r = Some (res, t', r') \<Longrightarrow> tunn_step t t'"
| decapsulate: "clock_ok en t \<Longrightarrow> decapsulate en addr datagram n t r = Some (res, t', r') \<Longrightarrow> tunn_step t t'"
| verified: "handle_verified_packet en packet n t r = Some (res, t', r') \<Longrightarrow> tunn_step t t'"
| tick: "clock_ok en t \<Longrightarrow> update_timers en n t r = Some (res, t', r') \<Longrightarrow> tunn_step t t'"
| initiate: "clock_ok en t \<Longrightarrow> Tunn_format_handshake_initiation en n force t r = Some (res, t', r') \<Longrightarrow> tunn_step t t'"
| poll: "poll_outgoing_packet t = (p, t') \<Longrightarrow> tunn_step t t'"
| mtu: "tunn_step t (set_mtu m t)"
| window: "tunn_step t (reset_udp_window t)"
| new_key: "Tunn_set_static_private en priv pub rl t r = Some (t', r') \<Longrightarrow> tunn_step t t'"

lemma set_static_private_keeps:
  "tunn_ok t \<Longrightarrow> Tunn_set_static_private en priv pub rl t r = Some (t', r') \<Longrightarrow> keeps t t'"
  by (auto simp: Tunn_set_static_private_def Handshake_set_static_private_def keeps_def tunn_ok_def tunn_config_def hs_inv_def
      timers_ok_def sessions_ok_none split_beta split: option.splits)

lemma tunn_step_keeps: "tunn_step t t' \<Longrightarrow> tunn_ok t \<Longrightarrow> keeps t t'"
proof (induction rule: tunn_step.cases)
  case (encapsulate en t src n r res t' r')
  then show ?case
    by (simp add: encapsulate_keeps)
next
  case (decapsulate en t addr datagram n r res t' r')
  then show ?case
    by (simp add: decapsulate_keeps)
next
  case (verified en packet n t r res t' r')
  then show ?case
    by (simp add: handle_verified_keeps)
next
  case (tick en t n r res t' r')
  then show ?case
    by (simp add: update_timers_keeps)
next
  case (initiate en t n force r res t' r')
  then show ?case
    by (simp add: Tunn_initiation_keeps)
next
  case (new_key en priv pub rl t r t' r')
  then show ?case
    by (simp add: set_static_private_keeps)
qed (auto simp: keeps_def poll_outgoing_packet_def set_mtu_def reset_udp_window_def split: list.splits)

lemma tunn_steps_keep: "tunn_step\<^sup>*\<^sup>* t t' \<Longrightarrow> tunn_ok t \<Longrightarrow> keeps t t'"
  by (induction rule: rtranclp_induct) (auto simp: keeps_def dest: tunn_step_keeps)

end
