(* ===== verification/Tunnel.thy ===== *)
theory Tunnel
  imports TunnTimers
begin

text \<open>
  What two tunnels do for each other. The datagrams of one end are framed as the receiver's
  classifier expects, calls return instead of panicking on sensible buffers, handshakes
  establish paired sessions, and an IP packet given to one end comes out of the other.
\<close>

section \<open>Datagrams are well framed\<close>

text \<open>
  A configuration whose datagrams can be told apart: ordered and disjoint header ranges, and
  prefixes that hold the nonce when headers are protected.
\<close>

definition framing_ok :: "packet_classifier \<Rightarrow> bool" where
  "framing_ok cl \<longleftrightarrow>
     hc_wf (cl_headers cl) \<and> hc_disjoint (cl_headers cl) \<and>
     (cl_header_protection cl \<noteq> None \<longrightarrow>
        list_all (\<lambda>k. HEADER_PROTECTION_NONCE_SIZE \<le> kind_padding cl k) [HK_Init, HK_Response, HK_Cookie, HK_Transport])"

definition config_ok :: "tunn \<Rightarrow> bool" where
  "config_ok t \<longleftrightarrow> framing_ok (Tunn_classifier t) \<and>
     list_all (list_all tag_generable) (active_chains (t_init_packet_config t))"

definition env_ok :: "env \<Rightarrow> bool" where
  "env_ok en \<longleftrightarrow> crypto_ok (en_crypto en) \<and> b64_len_law (en_b64 en)"

lemma classifier_fields [simp]:
  "cl_paddings (Tunn_classifier t) = t_padding_config t" "cl_headers (Tunn_classifier t) = t_header_config t"
  "cl_header_protection (Tunn_classifier t) = t_header_protection t" "cl_random_trailers (Tunn_classifier t) = t_random_trailers t"
  by (simp_all add: Tunn_classifier_def with_random_trailers_def PacketClassifier_new_def)

lemma classifier_updates [simp]:
  "Tunn_classifier (t\<lparr>t_handshake := hs\<rparr>) = Tunn_classifier t" "Tunn_classifier (t\<lparr>t_sessions := ss\<rparr>) = Tunn_classifier t"
  "Tunn_classifier (t\<lparr>t_timers := tm\<rparr>) = Tunn_classifier t" "Tunn_classifier (t\<lparr>t_network_outgoing := q\<rparr>) = Tunn_classifier t"
  "Tunn_classifier (t\<lparr>t_tx_bytes := k\<rparr>) = Tunn_classifier t" "Tunn_classifier (t\<lparr>t_rx_bytes := k\<rparr>) = Tunn_classifier t"
  "Tunn_classifier (t\<lparr>t_rate_limiter := rl\<rparr>) = Tunn_classifier t" "Tunn_classifier (t\<lparr>t_packet_queue := q\<rparr>) = Tunn_classifier t"
  "Tunn_classifier (t\<lparr>t_udp_window := w\<rparr>) = Tunn_classifier t" "Tunn_classifier (t\<lparr>t_current := c\<rparr>) = Tunn_classifier t"
  "Tunn_classifier (timer_tick n t) = Tunn_classifier t" "Tunn_classifier (observe_datagram m t) = Tunn_classifier t"
  "Tunn_classifier (timer_tick_session_established b i t) = Tunn_classifier t"
  "Tunn_classifier (set_current_session c t) = Tunn_classifier t" "Tunn_classifier (queue_packet p t) = Tunn_classifier t"
  by (simp_all add: Tunn_classifier_def timer_tick_def observe_datagram_def timer_tick_session_established_def
      set_current_session_def queue_packet_def Let_def)

lemma kind_padding_tunn:
  "kind_padding (Tunn_classifier t) HK_Init = s1 t" "kind_padding (Tunn_classifier t) HK_Response = s2 t"
  "kind_padding (Tunn_classifier t) HK_Cookie = s3 t" "kind_padding (Tunn_classifier t) HK_Transport = s4 t"
  by (simp_all add: kind_padding_def s1_def s2_def s3_def s4_def)

lemma kind_range_tunn:
  "kind_range (Tunn_classifier t) HK_Init = hc_init (t_header_config t)"
  "kind_range (Tunn_classifier t) HK_Response = hc_response (t_header_config t)"
  "kind_range (Tunn_classifier t) HK_Cookie = hc_cookie (t_header_config t)"
  "kind_range (Tunn_classifier t) HK_Transport = hc_transport (t_header_config t)"
  by (simp_all add: kind_range_def)

lemma length_random_prefix [simp]: "length (fst (random_prefix n r)) = n"
  by (simp add: random_prefix_def)

lemma kind_padding_nonce:
  "framing_ok cl \<Longrightarrow> cl_header_protection cl \<noteq> None \<Longrightarrow> HEADER_PROTECTION_NONCE_SIZE \<le> kind_padding cl k"
  by (cases k) (simp_all add: framing_ok_def)

lemma trailer_for_fits: "m \<le> n \<Longrightarrow> m + fst (trailer_for m n t r) \<le> n"
  by (auto simp: trailer_for_def split_beta Let_def)

lemma trailer_for_off: "\<not> t_random_trailers t \<Longrightarrow> fst (trailer_for m n t r) = 0"
  by (simp add: trailer_for_def)

text \<open>A framed handshake message is a datagram of its kind, and fits the buffer.\<close>

lemma frame_message_wire:
  assumes "framing_ok (Tunn_classifier t)" "k \<noteq> HK_Transport" "length msg = kind_size k"
    and "HeaderRange_contains (kind_range (Tunn_classifier t) k) (of_le_bytes (take 4 msg))"
    and "padding = kind_padding (Tunn_classifier t) k" "padding + length msg \<le> n"
  shows "\<exists>prefix trailer r'. frame_message en padding msg n t r =
       Some (wire (en_keystream en) (Tunn_classifier t) k prefix msg trailer, r') \<and>
     sent_as (Tunn_classifier t) k prefix msg trailer \<and> length prefix + length msg + length trailer \<le> n"
proof -
  obtain prefix r1 where p: "random_prefix padding r = (prefix, r1)"
    by fastforce
  have lp: "length prefix = padding"
    using length_random_prefix [of padding r] p by simp
  let ?m = "protect (en_keystream en) (t_header_protection t) prefix msg"
  obtain m r2 where tr: "trailer_for (padding + length msg) n t r1 = (m, r2)"
    by fastforce
  obtain trailer r3 where q: "random_prefix m r2 = (trailer, r3)"
    by fastforce
  have lt: "length trailer = m"
    using length_random_prefix [of m r2] q by simp
  have nonce: "t_header_protection t \<noteq> None \<Longrightarrow> HEADER_PROTECTION_NONCE_SIZE \<le> length prefix"
    using kind_padding_nonce [OF assms(1), of k] lp assms(5) by simp
  have "frame_message en padding msg n t r = Some (prefix @ ?m @ trailer, r3)"
    using nonce by (cases "t_header_protection t")
      (simp_all add: frame_message_def p tr q protect_def HeaderProtection_apply_def not_less Let_def)
  moreover have "wire (en_keystream en) (Tunn_classifier t) k prefix msg trailer = prefix @ ?m @ trailer"
    using assms(2,3) by (simp add: wire_def datagram_of_def kind_protected_def)
  moreover have "sent_as (Tunn_classifier t) k prefix msg trailer"
    using assms(2-5) lp lt nonce trailer_for_off [of t "padding + length msg" n r1] tr by (auto simp: sent_as_def)
  moreover have "length prefix + length msg + length trailer \<le> n"
    using trailer_for_fits [OF assms(6), of t r1] tr lt lp by simp
  ultimately show ?thesis
    by metis
qed

text \<open>A transport packet is a transport datagram, whatever number of prefixes is drawn.\<close>

lemma prefix_draws_wire:
  assumes "framing_ok (Tunn_classifier t)" "TRANSPORT_HEADER_SZ \<le> length packet" "0 < k"
  shows "\<exists>prefix r'. prefix_draws k en t packet d r = Some (wire (en_keystream en) (Tunn_classifier t) HK_Transport prefix packet [], r') \<and>
     length prefix = s4 t"
  using assms(3)
proof (induction k arbitrary: d r)
  case (Suc k)
  obtain prefix r1 where p: "random_prefix (s4 t) r = (prefix, r1)"
    by fastforce
  have lp: "length prefix = s4 t"
    using length_random_prefix [of "s4 t" r] p by simp
  show ?case
  proof (cases "t_header_protection t")
    case None
    then show ?thesis
      using p lp by (simp add: wire_def datagram_of_def protect_def)
  next
    case (Some key)
    have "HEADER_PROTECTION_NONCE_SIZE \<le> length prefix"
      using kind_padding_nonce [OF assms(1), of HK_Transport] Some lp by (simp add: kind_padding_tunn)
    from HeaderProtection_keystream_eq [OF this, of "en_keystream en" key TRANSPORT_HEADER_SZ] obtain st where
      st: "HeaderProtection_keystream (en_keystream en) key TRANSPORT_HEADER_SZ prefix = Some st"
      "st = map (en_keystream en key (take HEADER_PROTECTION_NONCE_SIZE prefix)) [0..<TRANSPORT_HEADER_SZ]"
      by blast
    have w: "prefix @ xor_prefix (take TRANSPORT_HEADER_SZ packet) st @ drop TRANSPORT_HEADER_SZ packet =
        wire (en_keystream en) (Tunn_classifier t) HK_Transport prefix packet []"
      unfolding st(2) by (subst hp_xor_mask) (simp_all add: wire_def datagram_of_def protect_def Some kind_protected_def)
    define w' where "w' = wire (en_keystream en) (Tunn_classifier t) HK_Transport prefix packet []"
    have step: "prefix_draws (Suc k) en t packet d r =
        (if \<not> peer_would_misclassify t w' (take 4 st) then Some (w', r1) else prefix_draws k en t packet w' r1)"
      by (simp add: p Some st(1) w w'_def [symmetric] Let_def)
    show ?thesis
    proof (cases "peer_would_misclassify t w' (take 4 st) \<and> 0 < k")
      case True
      then show ?thesis
        unfolding step using Suc.IH by simp
    next
      case False
      then have "prefix_draws (Suc k) en t packet d r = Some (w', r1)"
        unfolding step by (cases k) auto
      then show ?thesis
        using lp w'_def by auto
    qed
  qed
qed simp

section \<open>Data\<close>

lemma transport_of_header_eq: "transport_of_header (take 16 msg) (drop 16 msg) = packet_of msg"
  by (simp add: transport_of_header_def packet_of_def slice_def drop_take)

lemma decapsulate_transport:
  assumes "sent_as (Tunn_classifier t) HK_Transport prefix msg []" "framing_ok (Tunn_classifier t)"
    and "\<not> mistaken (en_keystream en) (Tunn_classifier t) HK_Transport (wire (en_keystream en) (Tunn_classifier t) HK_Transport prefix msg [])"
  shows "decapsulate en addr (wire (en_keystream en) (Tunn_classifier t) HK_Transport prefix msg []) n t r =
           handle_verified_packet en (PacketData (packet_of msg)) n t r"
proof -
  let ?w = "wire (en_keystream en) (Tunn_classifier t) HK_Transport prefix msg []"
  have len: "32 \<le> length msg" and ty: "HeaderRange_contains (hc_transport (t_header_config t)) (of_le_bytes (take 4 msg))"
    using assms(1) by (simp_all add: sent_as_def kind_size_def kind_range_tunn message_sizes)
  have "?w \<noteq> []"
    using length_wire [OF assms(1), of "en_keystream en"] len by auto
  moreover have "verify_packet (en_crypto en) (en_now en) addr msg COOKIE_REPLY_SZ (t_header_config t) (t_disable_cookies t)
      (t_rate_limiter t) r = (Ok (PacketData (packet_of msg)), t_rate_limiter t, r)"
    using parse_transport [OF ty _ len] assms(2)
    by (simp add: verify_packet_def handshake_sender_def framing_ok_def transport_of_header_eq TRANSPORT_HEADER_SZ_def)
  ultimately show ?thesis
    using deframe_transport [OF assms(1), of "en_keystream en"] classify_wire_iff [OF assms(1), of "en_keystream en"] assms(3)
    by (simp add: decapsulate_def transport_of_header_eq TRANSPORT_HEADER_SZ_def)
qed

text \<open>The bounds on padding: the padded datagram fits the buffer.\<close>

lemma content_padding_fits: "m \<le> n \<Longrightarrow> m + fst (content_padding_addition m n t r) \<le> n"
  by (auto simp: content_padding_addition_def split_beta Let_def split: option.splits)

lemma transport_padding_fits:
  "s4 t + 32 + k \<le> n \<Longrightarrow> s4 t + 32 + k + fst (transport_padding k n t r) \<le> n"
  using content_padding_fits [of "s4 t + 32 + k" n t r] trailer_for_fits [of "s4 t + 32 + k" n t r]
  by (auto simp: transport_padding_def DATA_OVERHEAD_SZ_def Let_def)

lemma format_transport_wire:
  assumes "crypto_ok (en_crypto en)" "framing_ok (Tunn_classifier t)" "s4 t + 32 + length src + pad \<le> n"
  shows "\<exists>ty msg s' prefix r'. format_packet_data (en_crypto en) src (n - s4 t) ty pad s = Some (msg, s') \<and>
     length msg = length src + pad + 32 \<and>
     format_transport_packet en s src pad n t r = Some (wire (en_keystream en) (Tunn_classifier t) HK_Transport prefix msg [], s', r') \<and>
     sent_as (Tunn_classifier t) HK_Transport prefix msg []"
proof -
  obtain ty r1 where ty: "HeaderRange_generate (hc_transport (t_header_config t)) r = (ty, r1)"
    by fastforce
  have "hr_wf (hc_transport (t_header_config t))"
    using assms(2) by (simp add: framing_ok_def hc_wf_def)
  then have range: "HeaderRange_contains (hc_transport (t_header_config t)) ty"
    using HeaderRange_generate_in [of _ r] ty by fastforce
  obtain msg s' where fmt: "format_packet_data (en_crypto en) src (n - s4 t) ty pad s = Some (msg, s')"
    and msg: "take 4 msg = le_bytes 4 ty"
    using assms(3) by (simp add: format_packet_data_eq)
  have len: "length msg = length src + pad + 32"
    using format_packet_data_length(1) [OF assms(1) fmt] .
  obtain prefix r' where draw: "prefix_draws MAX_PREFIX_DRAWS en t msg msg r1 =
      Some (wire (en_keystream en) (Tunn_classifier t) HK_Transport prefix msg [], r')" and lp: "length prefix = s4 t"
    using prefix_draws_wire [OF assms(2), of msg MAX_PREFIX_DRAWS en msg r1] len
    by (auto simp: MAX_PREFIX_DRAWS_def TRANSPORT_HEADER_SZ_def)
  have "sent_as (Tunn_classifier t) HK_Transport prefix msg []"
    using lp len range msg kind_padding_nonce [OF assms(2), of HK_Transport]
    by (simp add: sent_as_def kind_padding_tunn kind_range_tunn kind_size_def message_sizes)
  moreover have "format_transport_packet en s src pad n t r =
      Some (wire (en_keystream en) (Tunn_classifier t) HK_Transport prefix msg [], s', r')"
    using assms(3) fmt draw by (simp add: format_transport_packet_def ty)
  ultimately show ?thesis
    using fmt len by blast
qed

text \<open>
  The packets the receiver can hand to the interface: empty ones (keepalives), and IPv4 and
  IPv6 packets whose header has their length. What it hands over is the packet without the
  padding, with the source address.
\<close>

definition ip_packet :: "bytes \<Rightarrow> bool" where
  "ip_packet p \<longleftrightarrow> p = [] \<or>
     ip_version p = 4 \<and> IPV4_MIN_HEADER_SIZE \<le> length p \<and>
       unat (of_be_bytes (slice p IPV4_LEN_OFF (IPV4_LEN_OFF + IP_LEN_SZ)) :: u16) = length p \<or>
     ip_version p = 6 \<and> IPV6_MIN_HEADER_SIZE \<le> length p \<and>
       unat (of_be_bytes (slice p IPV6_LEN_OFF (IPV6_LEN_OFF + IP_LEN_SZ)) :: u16) + IPV6_MIN_HEADER_SIZE = length p"

definition delivered :: "bytes \<Rightarrow> TunnResult" where
  "delivered p =
     (if p = [] then Done
      else if ip_version p = 4 then WriteToTunnelV4 p (slice p IPV4_SRC_IP_OFF (IPV4_SRC_IP_OFF + IPV4_IP_SZ))
      else WriteToTunnelV6 p (slice p IPV6_SRC_IP_OFF (IPV6_SRC_IP_OFF + IPV6_IP_SZ)))"

lemma validate_padded:
  assumes "ip_packet p"
  shows "\<exists>t'. validate_decapsulated_packet (p @ replicate k 0) t = (delivered p, t') \<and>
     t_sessions t' = t_sessions t \<and> t_current t' = t_current t \<and> Tunn_classifier t' = Tunn_classifier t \<and>
     t_rx_bytes t' = t_rx_bytes t + length p"
proof (cases "p = []")
  case True
  have "ip_version (0 # xs) = 0" for xs
    by (simp add: ip_version_def)
  with True show ?thesis
    by (cases k) (simp_all add: validate_decapsulated_packet_def delivered_def)
next
  case False
  then have "ip_version (p @ replicate k 0) = ip_version p"
    by (simp add: ip_version_def)
  with False assms show ?thesis
    by (auto simp: ip_packet_def validate_decapsulated_packet_def delivered_def slice_append_left Let_def timer_tick_def
        IPV4_MIN_HEADER_SIZE_def IPV6_MIN_HEADER_SIZE_def IPV4_LEN_OFF_def IPV6_LEN_OFF_def IP_LEN_SZ_def
        IPV4_SRC_IP_OFF_def IPV4_IP_SZ_def IPV6_SRC_IP_OFF_def IPV6_IP_SZ_def)
qed

text \<open>
  One end can send to the other: its current session is paired with a session of the other
  end, which has seen none of the next \<open>k\<close> counters.
\<close>

definition linked :: "nat \<Rightarrow> tunn \<Rightarrow> tunn \<Rightarrow> bool" where
  "linked k tA tB \<longleftrightarrow> Tunn_classifier tB = Tunn_classifier tA \<and>
     (case t_sessions tA ! (t_current tA mod N_SESSIONS) of
        None \<Rightarrow> False
      | Some a \<Rightarrow>
          unat (sending_key_counter a) + k + 1024 \<le> 2 ^ 64 \<and>
          (case t_sessions tB ! (unat (sending_index a) mod N_SESSIONS) of
             None \<Rightarrow> False
           | Some b \<Rightarrow> sender a = receiver b \<and> sending_index a = receiving_index b \<and>
                rv_next (receiving_key_counter b) \<le> sending_key_counter a))"

lemma linkedE:
  assumes "linked k tA tB"
  obtains a b where "t_sessions tA ! (t_current tA mod N_SESSIONS) = Some a"
    "t_sessions tB ! (unat (sending_index a) mod N_SESSIONS) = Some b" "Tunn_classifier tB = Tunn_classifier tA"
    "unat (sending_key_counter a) + k + 1024 \<le> 2 ^ 64" "sender a = receiver b" "sending_index a = receiving_index b"
    "rv_next (receiving_key_counter b) \<le> sending_key_counter a"
  using assms by (auto simp: linked_def split: option.splits)

lemma not_refused_next:
  assumes "unat c + 1024 < 2 ^ 64" "rv_next v \<le> c"
  shows "\<not> refused c v"
  using assms unat_plus_N_BITS [of c] by (auto simp: refused_def word_less_nat_alt word_le_nat_alt)

lemma format_packet_data_fields:
  assumes "format_packet_data cr src n ty pad s = Some (msg, s')"
  shows "s' = s\<lparr>sending_key_counter := sending_key_counter s + 1\<rparr>"
    and "pd_receiver_idx (packet_of msg) = sending_index s"
    and "length (pd_encrypted_encapsulated_packet (packet_of msg)) = length msg - 16"
  using assms by (auto simp: format_packet_data_def Let_def packet_of_fields split: if_splits)

lemma encapsulate_wire:
  assumes "crypto_ok (en_crypto en)" "framing_ok (Tunn_classifier t)" "s4 t + 32 + length src \<le> n"
    and "t_sessions t ! (t_current t mod N_SESSIONS) = Some a"
  shows "\<exists>ty pad msg prefix t' r'. format_packet_data (en_crypto en) src (n - s4 t) ty pad a =
       Some (msg, a\<lparr>sending_key_counter := sending_key_counter a + 1\<rparr>) \<and>
     length msg = length src + pad + 32 \<and> s4 t + 32 + length src + pad \<le> n \<and>
     encapsulate en src n t r = Some (WriteToNetwork (wire (en_keystream en) (Tunn_classifier t) HK_Transport prefix msg []), t', r') \<and>
     sent_as (Tunn_classifier t) HK_Transport prefix msg [] \<and>
     t_sessions t' = (t_sessions t)[t_current t mod N_SESSIONS := Some (a\<lparr>sending_key_counter := sending_key_counter a + 1\<rparr>)] \<and>
     t_current t' = t_current t \<and> Tunn_classifier t' = Tunn_classifier t \<and> t_handshake t' = t_handshake t"
proof -
  define t1 where "t1 = observe_datagram (s4 t + 32 + length src) t"
  have same: "Tunn_classifier t1 = Tunn_classifier t" "s4 t1 = s4 t" "t_sessions t1 = t_sessions t" "t_current t1 = t_current t"
      "t_handshake t1 = t_handshake t"
    by (simp_all add: t1_def s4_def) (simp_all add: observe_datagram_def)
  obtain pad r1 where pad: "transport_padding (length src) n t1 r = (pad, r1)"
    by fastforce
  have fits: "s4 t + 32 + length src + pad \<le> n"
    using transport_padding_fits [of t1 "length src" n r] assms(3) pad same by simp
  from format_transport_wire [of en t1 src pad n a r1] obtain ty msg s' prefix r' where
    fmt: "format_packet_data (en_crypto en) src (n - s4 t) ty pad a = Some (msg, s')" "length msg = length src + pad + 32"
      "format_transport_packet en a src pad n t1 r1 = Some (wire (en_keystream en) (Tunn_classifier t) HK_Transport prefix msg [], s', r')"
      "sent_as (Tunn_classifier t) HK_Transport prefix msg []"
    using assms(1,2) fits by (auto simp: same)
  have s': "s' = a\<lparr>sending_key_counter := sending_key_counter a + 1\<rparr>"
    using format_packet_data_fields(1) [OF fmt(1)] .
  have "\<exists>t'. encapsulate en src n t r = Some (WriteToNetwork (wire (en_keystream en) (Tunn_classifier t) HK_Transport prefix msg []), t', r') \<and>
     t_sessions t' = (t_sessions t)[t_current t mod N_SESSIONS := Some s'] \<and>
     t_current t' = t_current t \<and> Tunn_classifier t' = Tunn_classifier t \<and> t_handshake t' = t_handshake t"
    using assms(3,4) pad fmt(3) same
    by (simp add: encapsulate_def Let_def DATA_OVERHEAD_SZ_def t1_def [symmetric] timer_tick_def)
  then show ?thesis
    using fmt fits s' by blast
qed

lemma encapsulate_unpadded:
  assumes "crypto_ok (en_crypto en)" "framing_ok (Tunn_classifier t)" "t_content_padding t = None" "\<not> t_random_trailers t"
    and "s4 t + 32 + length src \<le> n" "t_sessions t ! (t_current t mod N_SESSIONS) = Some a"
  shows "\<exists>d t' r'. encapsulate en src n t r = Some (WriteToNetwork d, t', r') \<and> length d = s4 t + 32 + length src \<and>
     t_sessions t' = (t_sessions t)[t_current t mod N_SESSIONS := Some (a\<lparr>sending_key_counter := sending_key_counter a + 1\<rparr>)] \<and>
     t_current t' = t_current t \<and> Tunn_classifier t' = Tunn_classifier t \<and> t_content_padding t' = t_content_padding t"
proof -
  define t1 where "t1 = observe_datagram (s4 t + 32 + length src) t"
  have same: "Tunn_classifier t1 = Tunn_classifier t" "s4 t1 = s4 t" "t_sessions t1 = t_sessions t" "t_current t1 = t_current t"
      "t_content_padding t1 = None" "\<not> t_random_trailers t1"
    using assms(3,4) by (simp_all add: t1_def s4_def) (simp_all add: observe_datagram_def)
  have pad: "transport_padding (length src) n t1 r = (0, r)"
    using same by (simp add: transport_padding_def trailer_for_def)
  from format_transport_wire [of en t1 src 0 n a r] obtain ty msg s' prefix r' where
    fmt: "format_packet_data (en_crypto en) src (n - s4 t) ty 0 a = Some (msg, s')" "length msg = length src + 32"
      "format_transport_packet en a src 0 n t1 r = Some (wire (en_keystream en) (Tunn_classifier t) HK_Transport prefix msg [], s', r')"
      "sent_as (Tunn_classifier t) HK_Transport prefix msg []"
    using assms(1,2,5) by (auto simp: same)
  have s': "s' = a\<lparr>sending_key_counter := sending_key_counter a + 1\<rparr>"
    using format_packet_data_fields(1) [OF fmt(1)] .
  have "length (wire (en_keystream en) (Tunn_classifier t) HK_Transport prefix msg []) = s4 t + 32 + length src"
    using length_wire [OF fmt(4)] fmt(2,4) by (simp add: sent_as_def kind_padding_tunn)
  moreover have "\<exists>t'. encapsulate en src n t r = Some (WriteToNetwork (wire (en_keystream en) (Tunn_classifier t) HK_Transport prefix msg []), t', r') \<and>
     t_sessions t' = (t_sessions t)[t_current t mod N_SESSIONS := Some s'] \<and>
     t_current t' = t_current t \<and> Tunn_classifier t' = Tunn_classifier t \<and> t_content_padding t' = t_content_padding t"
    using assms(3,5,6) pad fmt(3) same
    by (simp add: encapsulate_def Let_def DATA_OVERHEAD_SZ_def t1_def [symmetric] timer_tick_def)
  ultimately show ?thesis
    using s' by blast
qed

lemma set_current_update:
  assumes "t_sessions t ! i = Some b" "i < length (t_sessions t)"
  shows "t_current (set_current_session k (t\<lparr>t_sessions := (t_sessions t)[i := Some b']\<rparr>)) = t_current (set_current_session k t)"
  using assms by (auto simp: set_current_session_def Let_def nth_list_update)

lemma handle_data_delivers:
  assumes "crypto_ok (en_crypto en)" "sessions_ok (t_sessions t)"
    and "format_packet_data (en_crypto en) src k ty pad a = Some (msg, a')" "length msg \<le> n" "ip_packet src"
    and "t_sessions t ! (unat (sending_index a) mod N_SESSIONS) = Some b"
    and "sender a = receiver b" "sending_index a = receiving_index b"
    and "\<not> refused (sending_key_counter a) (receiving_key_counter b)"
  shows "\<exists>t' v. handle_data en (packet_of msg) n t = Some (Ok (delivered src), t') \<and>
     accept_counter (sending_key_counter a) (receiving_key_counter b) = Some v \<and>
     t_sessions t' = (t_sessions t)[unat (sending_index a) mod N_SESSIONS := Some (b\<lparr>receiving_key_counter := v\<rparr>)] \<and>
     t_current t' = t_current (set_current_session (unat (sending_index a)) t) \<and>
     Tunn_classifier t' = Tunn_classifier t \<and> t_rx_bytes t' = t_rx_bytes t + length src"
proof -
  let ?i = "unat (sending_index a) mod N_SESSIONS"
  have b: "session_ok b"
    using sessions_ok_nth [OF assms(2) N_SESSIONS_pos(2) assms(6)] by simp
  have len: "length src + pad + 16 \<le> n"
    using format_packet_data_length(1) [OF assms(1,3)] assms(4) by simp
  obtain v where v: "accept_counter (sending_key_counter a) (receiving_key_counter b) = Some v"
    and rcv: "receive_packet_data (en_crypto en) (packet_of msg) n b = Some (Ok (src @ replicate pad 0), b\<lparr>receiving_key_counter := v\<rparr>)"
    using receive_formatted [OF assms(1,7,8) b assms(9,3) len] by blast
  define t1 where "t1 = observe_datagram (s4 t + TRANSPORT_HEADER_SZ + length (pd_encrypted_encapsulated_packet (packet_of msg))) t"
  define t2 where "t2 = timer_tick TimeLastPacketReceived (set_current_session (unat (sending_index a))
      (t1\<lparr>t_sessions := (t_sessions t)[?i := Some (b\<lparr>receiving_key_counter := v\<rparr>)]\<rparr>))"
  have t1: "t_sessions t1 = t_sessions t" "t_rx_bytes t1 = t_rx_bytes t"
    by (simp_all add: t1_def observe_datagram_def)
  have t2: "t_sessions t2 = (t_sessions t)[?i := Some (b\<lparr>receiving_key_counter := v\<rparr>)]" "t_rx_bytes t2 = t_rx_bytes t"
      "Tunn_classifier t2 = Tunn_classifier t"
    using t1 by (simp_all add: t2_def timer_tick_def set_current_session_def Let_def t1_def)
  have "t_current (set_current_session k t1) = t_current (set_current_session k t)" for k
    by (simp add: t1_def observe_datagram_def set_current_session_def Let_def)
  then have cur: "t_current t2 = t_current (set_current_session (unat (sending_index a)) t)"
    using set_current_update [of t1 ?i b] assms(2,6) t1 by (simp add: t2_def timer_tick_def sessions_ok_def)
  obtain t' where val: "validate_decapsulated_packet (src @ replicate pad 0) t2 = (delivered src, t')"
    and t': "t_sessions t' = t_sessions t2" "t_current t' = t_current t2" "Tunn_classifier t' = Tunn_classifier t2" "t_rx_bytes t' = t_rx_bytes t2 + length src"
    using validate_padded [OF assms(5), of pad t2] by blast
  have "handle_data en (packet_of msg) n t = Some (Ok (delivered src), t')"
    using assms(6) rcv val t1 format_packet_data_fields(2) [OF assms(3)]
    by (simp add: handle_data_def t1_def [symmetric] t2_def [symmetric] Let_def)
  then show ?thesis
    using v t' t2 cur by auto
qed

lemma decapsulate_data:
  assumes "crypto_ok (en_crypto en)" "framing_ok (Tunn_classifier t)"
    and "\<not> mistaken (en_keystream en) (Tunn_classifier t) HK_Transport (wire (en_keystream en) (Tunn_classifier t) HK_Transport prefix msg [])"
    and "sent_as (Tunn_classifier t) HK_Transport prefix msg []" "sessions_ok (t_sessions t)"
    and "format_packet_data (en_crypto en) src k ty pad a = Some (msg, a')" "length msg \<le> n" "ip_packet src"
    and "t_sessions t ! (unat (sending_index a) mod N_SESSIONS) = Some b"
    and "sender a = receiver b" "sending_index a = receiving_index b"
    and "\<not> refused (sending_key_counter a) (receiving_key_counter b)"
  shows "\<exists>t' v. decapsulate en addr (wire (en_keystream en) (Tunn_classifier t) HK_Transport prefix msg []) n t r = Some (delivered src, t', r) \<and>
     accept_counter (sending_key_counter a) (receiving_key_counter b) = Some v \<and>
     t_sessions t' = (t_sessions t)[unat (sending_index a) mod N_SESSIONS := Some (b\<lparr>receiving_key_counter := v\<rparr>)] \<and>
     t_current t' = t_current (set_current_session (unat (sending_index a)) t) \<and>
     Tunn_classifier t' = Tunn_classifier t \<and> t_rx_bytes t' = t_rx_bytes t + length src"
proof -
  obtain t' v where "handle_data en (packet_of msg) n t = Some (Ok (delivered src), t')"
    and rest: "accept_counter (sending_key_counter a) (receiving_key_counter b) = Some v \<and>
     t_sessions t' = (t_sessions t)[unat (sending_index a) mod N_SESSIONS := Some (b\<lparr>receiving_key_counter := v\<rparr>)] \<and>
     t_current t' = t_current (set_current_session (unat (sending_index a)) t) \<and>
     Tunn_classifier t' = Tunn_classifier t \<and> t_rx_bytes t' = t_rx_bytes t + length src"
    using handle_data_delivers [OF assms(1,5-12)] by blast
  then have "decapsulate en addr (wire (en_keystream en) (Tunn_classifier t) HK_Transport prefix msg []) n t r = Some (delivered src, t', r)"
    using decapsulate_transport [OF assms(4,2,3), of addr n r] by (simp add: handle_verified_packet_def)
  with rest show ?thesis by blast
qed

lemma unat_counter_inc: "unat (c :: u64) + 1 < 2 ^ 64 \<Longrightarrow> unat (c + 1) = unat c + 1"
  by (rule unat_inc_small) simp

lemma deliver_step:
  assumes "crypto_ok (en_crypto enA)" "en_crypto enB = en_crypto enA" "en_keystream enB = en_keystream enA"
    and "framing_ok (Tunn_classifier tA)" "encapsulate enA p n tA rA = Some (WriteToNetwork d, tA', rA')"
    and "\<not> mistaken (en_keystream enA) (Tunn_classifier tA) HK_Transport d"
    and "linked (Suc k) tA tB" "sessions_ok (t_sessions tA)" "sessions_ok (t_sessions tB)"
    and "ip_packet p" "s4 tA + 32 + length p \<le> n"
  shows "\<exists>tB'. decapsulate enB addr d n tB rB = Some (delivered p, tB', rB) \<and> linked k tA' tB' \<and>
     sessions_ok (t_sessions tA') \<and> sessions_ok (t_sessions tB') \<and>
     t_rx_bytes tB' = t_rx_bytes tB + length p \<and> Tunn_classifier tA' = Tunn_classifier tA"
proof -
  from assms(7) obtain a b where
    a: "t_sessions tA ! (t_current tA mod N_SESSIONS) = Some a" "unat (sending_key_counter a) + Suc k + 1024 \<le> 2 ^ 64"
    and b: "t_sessions tB ! (unat (sending_index a) mod N_SESSIONS) = Some b" "sender a = receiver b" "sending_index a = receiving_index b"
      "rv_next (receiving_key_counter b) \<le> sending_key_counter a"
    and cl: "Tunn_classifier tB = Tunn_classifier tA"
    by (rule linkedE)
  let ?c = "sending_key_counter a" and ?a = "a\<lparr>sending_key_counter := sending_key_counter a + 1\<rparr>"
  from encapsulate_wire [OF assms(1,4,11) a(1), where r = rA] assms(5) obtain ty pad msg prefix where
    fmt: "format_packet_data (en_crypto enA) p (n - s4 tA) ty pad a = Some (msg, ?a)" "length msg = length p + pad + 32"
      "s4 tA + 32 + length p + pad \<le> n"
    and d: "d = wire (en_keystream enA) (Tunn_classifier tA) HK_Transport prefix msg []"
    and sent: "sent_as (Tunn_classifier tA) HK_Transport prefix msg []"
    and tA': "t_sessions tA' = (t_sessions tA)[t_current tA mod N_SESSIONS := Some ?a]" "t_current tA' = t_current tA"
      "Tunn_classifier tA' = Tunn_classifier tA"
    by auto
  have nr: "\<not> refused ?c (receiving_key_counter b)"
    using a(2) b(4) by (intro not_refused_next) simp_all
  have "\<exists>tB' v. decapsulate enB addr (wire (en_keystream enB) (Tunn_classifier tB) HK_Transport prefix msg []) n tB rB = Some (delivered p, tB', rB) \<and>
     accept_counter ?c (receiving_key_counter b) = Some v \<and>
     t_sessions tB' = (t_sessions tB)[unat (sending_index a) mod N_SESSIONS := Some (b\<lparr>receiving_key_counter := v\<rparr>)] \<and>
     t_current tB' = t_current (set_current_session (unat (sending_index a)) tB) \<and>
     Tunn_classifier tB' = Tunn_classifier tB \<and> t_rx_bytes tB' = t_rx_bytes tB + length p"
    using assms(1-4,6,9,10) fmt sent b nr d
    by (intro decapsulate_data [where k = "n - s4 tA" and ty = ty and pad = pad and a' = ?a]) (simp_all add: cl)
  then obtain tB' v where dec: "decapsulate enB addr d n tB rB = Some (delivered p, tB', rB)"
    and v: "accept_counter ?c (receiving_key_counter b) = Some v"
    and tB': "t_sessions tB' = (t_sessions tB)[unat (sending_index a) mod N_SESSIONS := Some (b\<lparr>receiving_key_counter := v\<rparr>)]"
      "Tunn_classifier tB' = Tunn_classifier tA" "t_rx_bytes tB' = t_rx_bytes tB + length p"
    using assms(3) cl d by auto
  have ok: "session_ok a" "session_local_index a mod N_SESSIONS = t_current tA mod N_SESSIONS"
      "session_ok b" "session_local_index b mod N_SESSIONS = unat (sending_index a) mod N_SESSIONS"
    using sessions_ok_nth [OF assms(8) N_SESSIONS_pos(2) a(1)] sessions_ok_nth [OF assms(9) N_SESSIONS_pos(2) b(1)] by simp_all
  have v': "rv_next v = ?c + 1" "rv_ok v"
    using accept_counter_spec(1,2) [OF _ v] leD [OF b(4)] ok(3) by (simp_all add: session_ok_def)
  have "unat (?c + 1) = unat ?c + 1"
    using a(2) by (intro unat_counter_inc) simp
  moreover have "length (t_sessions tA) = N_SESSIONS" "length (t_sessions tB) = N_SESSIONS"
    using assms(8,9) by (simp_all add: sessions_ok_def)
  ultimately have "linked k tA' tB'"
    using tA' tB' a(2) b(2,3) v' by (simp add: linked_def)
  moreover have "sessions_ok (t_sessions tA')" "sessions_ok (t_sessions tB')"
    unfolding tA'(1) tB'(1)
    using ok v' by (auto intro!: sessions_ok_update assms(8,9) simp: session_ok_def session_local_index_def)
  ultimately show ?thesis
    using dec tA' tB' by blast
qed

text \<open>A stream of packets, each carried to the other end before the next is sent.\<close>

fun relay :: "env \<Rightarrow> env \<Rightarrow> nat \<Rightarrow> bytes list \<Rightarrow> tunn \<times> rng \<Rightarrow> tunn \<times> rng \<Rightarrow> TunnResult list option" where
  "relay enA enB n [] A B = Some []"
| "relay enA enB n (p # ps) (tA, rA) (tB, rB) =
     (case encapsulate enA p n tA rA of
        Some (WriteToNetwork d, A) \<Rightarrow>
          (case decapsulate enB None d n tB rB of
             None \<Rightarrow> None
           | Some (res, B) \<Rightarrow> map_option ((#) res) (relay enA enB n ps A B))
      | _ \<Rightarrow> None)"

text \<open>The datagrams the sender puts on the wire for the stream.\<close>

fun stream_datagrams :: "env \<Rightarrow> nat \<Rightarrow> bytes list \<Rightarrow> tunn \<times> rng \<Rightarrow> bytes list" where
  "stream_datagrams en n [] A = []"
| "stream_datagrams en n (p # ps) (t, r) =
     (case encapsulate en p n t r of Some (WriteToNetwork d, A) \<Rightarrow> d # stream_datagrams en n ps A | _ \<Rightarrow> [])"

lemma relay_stream:
  assumes "crypto_ok (en_crypto enA)" "en_crypto enB = en_crypto enA" "en_keystream enB = en_keystream enA"
  shows "framing_ok (Tunn_classifier tA) \<Longrightarrow>
     list_all (\<lambda>d. \<not> mistaken (en_keystream enA) (Tunn_classifier tA) HK_Transport d) (stream_datagrams enA n ps (tA, rA)) \<Longrightarrow>
     linked (length ps) tA tB \<Longrightarrow> sessions_ok (t_sessions tA) \<Longrightarrow> sessions_ok (t_sessions tB) \<Longrightarrow>
     list_all (\<lambda>p. ip_packet p \<and> s4 tA + 32 + length p \<le> n) ps \<Longrightarrow>
     relay enA enB n ps (tA, rA) (tB, rB) = Some (map delivered ps)"
proof (induction ps arbitrary: tA tB rA rB)
  case (Cons p ps)
  obtain a where a: "t_sessions tA ! (t_current tA mod N_SESSIONS) = Some a"
    using Cons.prems(3) by (rule linkedE)
  have fits: "s4 tA + 32 + length p \<le> n"
    using Cons.prems(6) by simp
  obtain d tA' rA' where enc: "encapsulate enA p n tA rA = Some (WriteToNetwork d, tA', rA')"
    using encapsulate_wire [OF assms(1) Cons.prems(1) fits a, where r = rA] by blast
  from deliver_step [OF assms Cons.prems(1) enc _ _ Cons.prems(4,5), of "length ps" None rB] Cons.prems(2,3,6) enc
  obtain tB' where step: "decapsulate enB None d n tB rB = Some (delivered p, tB', rB)"
    and nx: "linked (length ps) tA' tB'" "sessions_ok (t_sessions tA')" "sessions_ok (t_sessions tB')"
      "Tunn_classifier tA' = Tunn_classifier tA"
    by auto
  then have "s4 tA' = s4 tA"
    using kind_padding_tunn(4) by metis
  with Cons.IH [OF _ _ nx(1-3), of rA' rB] Cons.prems nx(4) step enc show ?case
    by simp
qed simp

text \<open>
  Without content padding and trailers the length of a datagram is that of its packet and the
  overhead, so that lengths decide whether it can be mistaken.
\<close>

lemma stream_datagrams_lengths:
  assumes "crypto_ok (en_crypto en)"
  shows "framing_ok (Tunn_classifier t) \<Longrightarrow> t_content_padding t = None \<Longrightarrow> \<not> t_random_trailers t \<Longrightarrow>
     t_sessions t ! (t_current t mod N_SESSIONS) \<noteq> None \<Longrightarrow> t_current t mod N_SESSIONS < length (t_sessions t) \<Longrightarrow>
     list_all (\<lambda>p. s4 t + 32 + length p \<le> n) ps \<Longrightarrow>
     map length (stream_datagrams en n ps (t, r)) = map (\<lambda>p. s4 t + 32 + length p) ps"
proof (induction ps arbitrary: t r)
  case (Cons p ps)
  obtain a where a: "t_sessions t ! (t_current t mod N_SESSIONS) = Some a"
    using Cons.prems(4) by blast
  obtain d t' r' where enc: "encapsulate en p n t r = Some (WriteToNetwork d, t', r')" "length d = s4 t + 32 + length p"
    and t': "t_sessions t' = (t_sessions t)[t_current t mod N_SESSIONS := Some (a\<lparr>sending_key_counter := sending_key_counter a + 1\<rparr>)]"
      "t_current t' = t_current t" "Tunn_classifier t' = Tunn_classifier t" "t_content_padding t' = t_content_padding t"
    using encapsulate_unpadded [OF assms Cons.prems(1-3) _ a, of p n r] Cons.prems(6) by auto
  have "s4 t' = s4 t" "t_random_trailers t' = t_random_trailers t"
    using t'(3) kind_padding_tunn(4) classifier_fields(4) by metis+
  with Cons.IH [of t' r'] Cons.prems enc t' show ?case
    by simp
qed simp

end
