(* ===== verification/Connection.thy ===== *)
theory Connection
  imports Tunnel
begin

text \<open>
  How two tunnels connect: an initiation, the response and the first keepalive, each through
  the whole path of framing, classification, the rate limiter and the handlers. At the end both
  have sessions paired with each other, and packets flow both ways.
\<close>

section \<open>Initiations go out\<close>

lemma queue_chains_total:
  assumes "b64_len_law (en_b64 en)"
  shows "list_all (list_all tag_generable) chs \<Longrightarrow> \<exists>ps r'. queue_chains en chs r = Some (ps, r')"
proof (induction chs arbitrary: r)
  case (Cons c chs)
  then obtain p r1 where "generate_for_init (en_b64 en) (en_unix en div 10 ^ 9) c r = Some (p, r1)"
    using chain_bytes_None_iff [OF assms, of _ _ c r]
    by (fastforce simp: generate_for_init_def CpsChain_generate_chain [OF assms])
  with Cons.IH [of r1] Cons.prems show ?case
    by auto
qed simp

lemma queue_pre_handshake_total:
  assumes "env_ok en" "config_ok t"
  shows "\<exists>q r'. queue_pre_handshake_packets en t r = Some (t\<lparr>t_network_outgoing := q\<rparr>, r')"
  using queue_chains_total [of en "active_chains (t_init_packet_config t)" r] assms
  by (auto simp: queue_pre_handshake_packets_def env_ok_def config_ok_def split: prod.splits)

lemma config_ok_updates [simp]:
  "config_ok (t\<lparr>t_timers := tm\<rparr>) = config_ok t" "config_ok (t\<lparr>t_handshake := hs\<rparr>) = config_ok t"
  "config_ok (t\<lparr>t_network_outgoing := q\<rparr>) = config_ok t" "config_ok (t\<lparr>t_packet_queue := q\<rparr>) = config_ok t"
  "config_ok (queue_packet p t) = config_ok t"
  by (simp_all add: config_ok_def queue_packet_def)

lemma format_initiation_total:
  assumes "crypto_ok cr" "length (np_static_public (hs_params hs)) = 32" "HANDSHAKE_INIT_SZ \<le> k"
  shows "\<exists>msg hs' r'. format_handshake_initiation cr now k ty hs r = Some (Ok msg, hs', r') \<and>
     length msg = HANDSHAKE_INIT_SZ \<and> take 4 msg = le_bytes 4 ty"
  using assms by (auto simp: format_handshake_initiation_def inc_index_def aead_chacha20_seal_def append_mac1_and_mac2_def
      length_seal length_pub b2s_keyed_mac_16_def length_mac16 HANDSHAKE_INIT_SZ_def Let_def split_beta split: option.splits)

lemma Tunn_initiation_sent:
  assumes "env_ok en" "config_ok t" "s1 t + HANDSHAKE_INIT_SZ \<le> n" "\<not> is_in_progress (t_handshake t) \<or> force"
    and "length (np_static_public (hs_params (t_handshake t))) = 32"
  shows "\<exists>k ty r1 msg hs' r2 prefix trailer t' r'. HANDSHAKE_INIT_SZ \<le> k \<and>
     HeaderRange_contains (hc_init (t_header_config t)) ty \<and>
     format_handshake_initiation (en_crypto en) (en_now en) k ty (t_handshake t) r1 = Some (Ok msg, hs', r2) \<and>
     Tunn_format_handshake_initiation en n force t r =
       Some (WriteToNetwork (wire (en_keystream en) (Tunn_classifier t) HK_Init prefix msg trailer), t', r') \<and>
     sent_as (Tunn_classifier t) HK_Init prefix msg trailer \<and> length prefix + length msg + length trailer \<le> n \<and>
     t_handshake t' = hs' \<and> t_sessions t' = t_sessions t \<and> t_current t' = t_current t \<and> t_packet_queue t' = t_packet_queue t \<and>
     t_rate_limiter t' = t_rate_limiter t \<and> t_udp_window t' = t_udp_window t \<and> tunn_config t' = tunn_config t \<and> t_mtu t' = t_mtu t"
proof -
  define t1 where "t1 = (if is_expired (t_handshake t) then t\<lparr>t_timers := Timers_clear (en_now en) (t_timers t)\<rparr> else t)"
  define b where "b = (\<not> is_in_progress (t_handshake t1))"
  obtain tm r1 where roll: "roll_handshake_timings b (t_timers t1) r = (tm, r1)"
    by fastforce
  have t1: "t1\<lparr>t_timers := tm\<rparr> = t\<lparr>t_timers := tm\<rparr>" "s1 t1 = s1 t"
    by (simp_all add: t1_def s1_def)
  obtain q r2 where pre: "queue_pre_handshake_packets en (t\<lparr>t_timers := tm\<rparr>) r1 = Some (t\<lparr>t_timers := tm, t_network_outgoing := q\<rparr>, r2)"
    using queue_pre_handshake_total [OF assms(1), of "t\<lparr>t_timers := tm\<rparr>" r1] assms(2) by auto
  obtain ty r3 where ty: "HeaderRange_generate (hc_init (t_header_config t)) r2 = (ty, r3)"
    by fastforce
  have "hr_wf (hc_init (t_header_config t))"
    using assms(2) by (simp add: config_ok_def framing_ok_def hc_wf_def)
  then have rg: "HeaderRange_contains (hc_init (t_header_config t)) ty"
    using HeaderRange_generate_in [of _ r2] ty by fastforce
  have k: "HANDSHAKE_INIT_SZ \<le> n - s1 t"
    using assms(3) by simp
  have cr: "crypto_ok (en_crypto en)"
    using assms(1) by (simp add: env_ok_def)
  from format_initiation_total [OF cr assms(5) k] obtain msg hs' r4 where
    fmt: "format_handshake_initiation (en_crypto en) (en_now en) (n - s1 t) ty (t_handshake t) r3 = Some (Ok msg, hs', r4)"
      "length msg = HANDSHAKE_INIT_SZ" "take 4 msg = le_bytes 4 ty"
    by blast
  define t2 where "t2 = t\<lparr>t_timers := tm, t_network_outgoing := q, t_handshake := hs'\<rparr>"
  have cl: "Tunn_classifier t2 = Tunn_classifier t"
    by (simp add: t2_def)
  have "\<exists>prefix trailer r'. frame_message en (s1 t) msg n t2 r4 =
       Some (wire (en_keystream en) (Tunn_classifier t2) HK_Init prefix msg trailer, r') \<and>
     sent_as (Tunn_classifier t2) HK_Init prefix msg trailer \<and> length prefix + length msg + length trailer \<le> n"
    using assms(2,3) fmt rg by (intro frame_message_wire)
      (simp_all add: cl config_ok_def kind_size_def kind_range_tunn kind_padding_tunn)
  then obtain prefix trailer r' where fr: "frame_message en (s1 t) msg n t2 r4 =
       Some (wire (en_keystream en) (Tunn_classifier t) HK_Init prefix msg trailer, r')"
     "sent_as (Tunn_classifier t) HK_Init prefix msg trailer" "length prefix + length msg + length trailer \<le> n"
    unfolding cl by blast
  have s1: "s1 t2 = s1 t" "s1 (t\<lparr>t_timers := tm, t_network_outgoing := q\<rparr>) = s1 t"
    by (simp_all add: t2_def s1_def)
  define t3 where "t3 = timer_tick TimeLastPacketSent (if b then timer_tick TimeLastHandshakeStarted t2 else t2)"
  have "Tunn_format_handshake_initiation en n force t r =
      Some (WriteToNetwork (wire (en_keystream en) (Tunn_classifier t) HK_Init prefix msg trailer), t3, r')"
    using assms(3,4) roll pre ty fmt(1) fr(1)
    by (simp add: Tunn_format_handshake_initiation_def t1_def [symmetric] b_def [symmetric] t1 s1 t2_def [symmetric] Let_def t3_def)
  moreover have "t_handshake t3 = hs'" "t_sessions t3 = t_sessions t" "t_current t3 = t_current t" "t_packet_queue t3 = t_packet_queue t"
      "t_rate_limiter t3 = t_rate_limiter t" "t_udp_window t3 = t_udp_window t" "t_mtu t3 = t_mtu t"
    by (simp_all add: t3_def t2_def timer_tick_def)
  moreover have "tm_timing_ranges tm = tm_timing_ranges (t_timers t)" "tm_time_started tm = tm_time_started (t_timers t)"
    using roll by (auto simp: t1_def roll_handshake_timings_def Timers_clear_def split_beta Let_def split: if_splits)
  then have "tunn_config t3 = tunn_config t"
    by (simp add: t3_def) (simp add: t2_def tunn_config_def)
  ultimately show ?thesis
    using k rg fmt(1) fr(2,3) by blast
qed

section \<open>Handshake messages pass the rate limiter\<close>

lemma format_initiation_macs:
  "format_handshake_initiation cr now k ty hs r = Some (Ok msg, hs', r') \<Longrightarrow>
   \<exists>i body hs1. append_mac1_and_mac2 cr i body hs1 = (msg, hs') \<and> hs_params hs1 = hs_params hs"
  by (fastforce simp: format_handshake_initiation_def inc_index_def Let_def split: if_splits option.splits prod.splits)

lemma receive_initiation_macs:
  assumes "receive_handshake_initialization cr pk k ty hs r = Some (Ok (msg, s), hs', r')"
  shows "\<exists>i body hs1. append_mac1_and_mac2 cr i body hs1 = (msg, hs') \<and> hs_params hs1 = hs_params hs"
  using assms
proof (cases rule: receive_initiation_cases)
  case (read hash ck t hs1)
  then show ?thesis
    by (fastforce simp: format_handshake_response_def inc_index_def Let_def
        split: if_splits option.splits prod.splits HandshakeState.splits)
qed simp

definition admits :: "tunn \<Rightarrow> bool" where
  "admits t \<longleftrightarrow> t_disable_cookies t \<or> rl_count (t_rate_limiter t) < rl_limit (t_rate_limiter t)"

lemma verify_honest:
  assumes "crypto_ok cr" "params_ok cr p" "serves cr rl (np_peer_static_public p)"
    and "append_mac1_and_mac2 cr i body hs = (msg, hs')" "hs_params hs = p" "parse_incoming_packet_config msg hc = Ok pk"
    and "dis \<or> rl_count rl < rl_limit rl"
  shows "\<exists>rl'. verify_packet cr now addr msg n hc dis rl r = (Ok pk, rl', r) \<and> same_keys rl rl'"
  using assms(2,3,5-7) append_macs_split(1,2) [OF assms(1,4)]
  by (auto simp: verify_packet_def params_ok_def serves_def Let_def is_under_load_def same_keys_def split: option.splits)

lemma decapsulate_handshake:
  assumes "sent_as (Tunn_classifier t) k prefix msg trailer" "k \<noteq> HK_Transport"
    and "\<not> mistaken (en_keystream en) (Tunn_classifier t) k (wire (en_keystream en) (Tunn_classifier t) k prefix msg trailer)"
    and "verify_packet (en_crypto en) (en_now en) addr msg COOKIE_REPLY_SZ (t_header_config t) (t_disable_cookies t)
           (t_rate_limiter t) r = (Ok pk, rl', r')"
  shows "decapsulate en addr (wire (en_keystream en) (Tunn_classifier t) k prefix msg trailer) n t r =
           handle_verified_packet en pk n (t\<lparr>t_rate_limiter := rl'\<rparr>) r'"
proof -
  let ?w = "wire (en_keystream en) (Tunn_classifier t) k prefix msg trailer"
  have "?w \<noteq> []"
    using length_wire [OF assms(1), of "en_keystream en"] sent_as_length [OF assms(1)] kind_size_bounds(4) [of k] by auto
  moreover have "classify (en_keystream en) (Tunn_classifier t) ?w = Some (classified_as (en_keystream en) (Tunn_classifier t) k prefix)"
    using classify_wire_iff [OF assms(1), of "en_keystream en"] assms(3) by blast
  ultimately show ?thesis
    using deframe_handshake [OF assms(1,2)] assms(4) by (simp add: decapsulate_def)
qed

section \<open>The handlers answer\<close>

lemma handle_init_answers:
  assumes "framing_ok (Tunn_classifier t)" "s2 t + HANDSHAKE_RESP_SZ \<le> n" "sessions_ok (t_sessions t)" "timers_ok (t_timers t)"
    and "HeaderRange_generate (hc_response (t_header_config t)) r = (ty, r1)"
    and "receive_handshake_initialization (en_crypto en) p (n - s2 t) ty (t_handshake t) r1 = Some (Ok (msg, s), hs', r2)"
    and "length msg = HANDSHAKE_RESP_SZ" "take 4 msg = le_bytes 4 ty"
  shows "\<exists>prefix trailer t' r'. handle_handshake_init en p n t r =
       Some (Ok (WriteToNetwork (wire (en_keystream en) (Tunn_classifier t) HK_Response prefix msg trailer)), t', r') \<and>
     sent_as (Tunn_classifier t) HK_Response prefix msg trailer \<and> length prefix + length msg + length trailer \<le> n \<and>
     t_sessions t' = (t_sessions t)[session_local_index s mod N_SESSIONS := Some s] \<and> t_current t' = t_current t \<and>
     Tunn_classifier t' = Tunn_classifier t \<and>
     t_current (set_current_session (session_local_index s) t') = session_local_index s"
proof -
  define t1 where "t1 = t\<lparr>t_handshake := hs', t_sessions := (t_sessions t)[session_local_index s mod N_SESSIONS := Some s]\<rparr>"
  have cl: "Tunn_classifier t1 = Tunn_classifier t" "s2 t1 = s2 t"
    by (simp_all add: t1_def s2_def)
  have "hr_wf (hc_response (t_header_config t))"
    using assms(1) by (simp add: framing_ok_def hc_wf_def)
  then have "HeaderRange_contains (hc_response (t_header_config t)) ty"
    using HeaderRange_generate_in [of _ r] assms(5) by fastforce
  then have "\<exists>prefix trailer r'. frame_message en (s2 t) msg n t1 r2 =
       Some (wire (en_keystream en) (Tunn_classifier t1) HK_Response prefix msg trailer, r') \<and>
     sent_as (Tunn_classifier t1) HK_Response prefix msg trailer \<and> length prefix + length msg + length trailer \<le> n"
    using assms(1,2,7,8) by (intro frame_message_wire)
      (simp_all add: cl kind_size_def kind_range_tunn kind_padding_tunn)
  then obtain prefix trailer r' where fr: "frame_message en (s2 t) msg n t1 r2 =
       Some (wire (en_keystream en) (Tunn_classifier t) HK_Response prefix msg trailer, r')"
     "sent_as (Tunn_classifier t) HK_Response prefix msg trailer" "length prefix + length msg + length trailer \<le> n"
    unfolding cl by blast
  let ?tm = "tick TimeLastPacketSent (tick TimeLastPacketReceived (t_timers t))"
  define t2 where "t2 = timer_tick_session_established False (session_local_index s)
      (timer_tick TimeLastPacketSent (timer_tick TimeLastPacketReceived t1))"
  have tm: "timers_ok ?tm" "timers_ok (tick TimeSessionEstablished ?tm)"
    using assms(4) by simp_all
  have "timers_ok (t_timers t2)"
    using assms(4) by (simp add: t2_def t1_def timer_tick_def timer_tick_session_established_def)
  moreover have "tm_session_timers (t_timers t2) ! (session_local_index s mod N_SESSIONS) = tm_timers (t_timers t2) TimeCurrent"
    using tm(2) by (simp add: t2_def t1_def timer_tick_def timer_tick_session_established_def tick_session_established_def
        timers_ok_def Let_def)
  ultimately have "tm_session_timers (t_timers t2) ! i \<le> tm_session_timers (t_timers t2) ! (session_local_index s mod N_SESSIONS)"
    if "i < N_SESSIONS" for i
    using that by (simp add: timers_ok_def)
  then have "t_current (set_current_session (session_local_index s) t2) = session_local_index s"
    by (auto simp: set_current_session_def Let_def)
  moreover have "handle_handshake_init en p n t r =
      Some (Ok (WriteToNetwork (wire (en_keystream en) (Tunn_classifier t) HK_Response prefix msg trailer)), t2, r')"
    using assms(2,5,6) fr(1) cl by (simp add: handle_handshake_init_def t1_def [symmetric] t2_def Let_def)
  moreover have "t_sessions t2 = (t_sessions t)[session_local_index s mod N_SESSIONS := Some s]" "t_current t2 = t_current t"
      "Tunn_classifier t2 = Tunn_classifier t"
    by (simp_all add: t2_def cl) (simp_all add: timer_tick_session_established_def timer_tick_def t1_def)
  ultimately show ?thesis
    using fr(2,3) by blast
qed

lemma content_padding_window: "fst (content_padding_addition 0 n t r) \<le> unat (t_udp_window t)"
  by (auto simp: content_padding_addition_def split_beta Let_def split: option.splits)

definition keepalive_fits :: "nat \<Rightarrow> tunn \<Rightarrow> bool" where
  "keepalive_fits n t \<longleftrightarrow> s4 t + 32 + (if t_content_padding t = None then 0 else unat (t_udp_window t)) \<le> n"

lemma handle_response_answers:
  assumes "crypto_ok (en_crypto en)" "framing_ok (Tunn_classifier t)" "keepalive_fits n t" "sessions_ok (t_sessions t)"
    and "t_sessions t ! (t_current t mod N_SESSIONS) = None"
    and "receive_handshake_response (en_crypto en) (en_now en) p (t_handshake t) = Some (Ok s, hs')"
  shows "\<exists>pad ty msg prefix t' r'. format_packet_data (en_crypto en) [] (n - s4 t) ty pad s =
       Some (msg, s\<lparr>sending_key_counter := sending_key_counter s + 1\<rparr>) \<and> length msg \<le> n \<and>
     (t_content_padding t = None \<longrightarrow> length msg = 32) \<and>
     handle_handshake_response en p n t r =
       Some (Ok (WriteToNetwork (wire (en_keystream en) (Tunn_classifier t) HK_Transport prefix msg [])), t', r') \<and>
     sent_as (Tunn_classifier t) HK_Transport prefix msg [] \<and>
     t_sessions t' = (t_sessions t)[session_local_index s mod N_SESSIONS := Some (s\<lparr>sending_key_counter := sending_key_counter s + 1\<rparr>)] \<and>
     t_current t' = session_local_index s \<and> Tunn_classifier t' = Tunn_classifier t"
proof -
  define t1 where "t1 = t\<lparr>t_handshake := hs'\<rparr>"
  have t1: "Tunn_classifier t1 = Tunn_classifier t" "s4 t1 = s4 t" "t_udp_window t1 = t_udp_window t" "t_content_padding t1 = t_content_padding t"
    by (simp_all add: t1_def s4_def)
  obtain pad r1 where pad: "content_padding_addition 0 n t1 r = (pad, r1)"
    by fastforce
  have pad_le: "pad \<le> (if t_content_padding t = None then 0 else unat (t_udp_window t))"
    using content_padding_window [of n t1 r] pad t1 by (auto simp: content_padding_addition_def)
  then have fits: "s4 t1 + 32 + length ([] :: bytes) + pad \<le> n"
    using assms(3) t1 by (simp add: keepalive_fits_def)
  let ?s = "s\<lparr>sending_key_counter := sending_key_counter s + 1\<rparr>"
  from format_transport_wire [OF assms(1) _ fits, of s r1] assms(2) obtain ty msg s' prefix r' where
    fmt: "format_packet_data (en_crypto en) [] (n - s4 t) ty pad s = Some (msg, s')"
      "format_transport_packet en s [] pad n t1 r1 = Some (wire (en_keystream en) (Tunn_classifier t) HK_Transport prefix msg [], s', r')"
      "sent_as (Tunn_classifier t) HK_Transport prefix msg []" "length msg = pad + 32"
    by (auto simp: t1)
  have s': "s' = ?s" "session_local_index s' = session_local_index s"
    using format_packet_data_fields(1) [OF fmt(1)] by (simp_all add: session_local_index_def)
  let ?i = "session_local_index s mod N_SESSIONS"
  define t2 where "t2 = timer_tick_session_established True ?i
      (timer_tick TimeLastPacketReceived (t1\<lparr>t_sessions := (t_sessions t)[?i := Some ?s]\<rparr>))"
  have t2: "t_sessions t2 = (t_sessions t)[?i := Some ?s]" "t_current t2 = t_current t" "Tunn_classifier t2 = Tunn_classifier t"
    by (simp_all add: t2_def t1) (simp_all add: timer_tick_session_established_def timer_tick_def t1_def)
  have "t_current (set_current_session (session_local_index s) t2) = session_local_index s"
    using assms(4,5) t2(1,2) by (cases "t_current t mod N_SESSIONS = ?i")
      (simp_all add: set_current_session_def Let_def sessions_ok_def)
  moreover have "handle_handshake_response en p n t r =
      Some (Ok (WriteToNetwork (wire (en_keystream en) (Tunn_classifier t) HK_Transport prefix msg [])),
        set_current_session (session_local_index s) t2, r')"
    using assms(3,6) pad fmt(2) s' by (simp add: handle_handshake_response_def keepalive_fits_def DATA_OVERHEAD_SZ_def
        t1_def [symmetric] t2_def Let_def) (simp add: t1_def)
  moreover have "t_sessions (set_current_session k t2) = t_sessions t2" for k
    by (simp add: set_current_session_def Let_def)
  moreover have "length msg \<le> n" "t_content_padding t = None \<longrightarrow> length msg = 32"
    using fmt(4) fits pad_le by auto
  ultimately show ?thesis
    using fmt(1,3) s' t2 by (metis classifier_updates(14))
qed

section \<open>Connecting\<close>

text \<open>
  A tunnel that can take part in a handshake with buffers of \<open>n\<close> bytes: its own keys are
  consistent, its rate limiter serves its public key and is not under load, and the messages fit.
\<close>

definition ready :: "crypto \<Rightarrow> nat \<Rightarrow> tunn \<Rightarrow> bool" where
  "ready cr n t \<longleftrightarrow>
     config_ok t \<and> sessions_ok (t_sessions t) \<and> timers_ok (t_timers t) \<and>
     params_ok cr (hs_params (t_handshake t)) \<and>
     serves cr (t_rate_limiter t) (np_static_public (hs_params (t_handshake t))) \<and> admits t \<and>
     s1 t + HANDSHAKE_INIT_SZ \<le> n \<and> s2 t + HANDSHAKE_RESP_SZ \<le> n \<and> keepalive_fits n t"

definition peers :: "tunn \<Rightarrow> tunn \<Rightarrow> bool" where
  "peers tA tB \<longleftrightarrow> Tunn_classifier tB = Tunn_classifier tA \<and>
     mirrored (hs_params (t_handshake tA)) (hs_params (t_handshake tB))"

definition same_primitives :: "env \<Rightarrow> env \<Rightarrow> bool" where
  "same_primitives en en' \<longleftrightarrow> en_crypto en' = en_crypto en \<and> en_keystream en' = en_keystream en"

lemma classifier_of_config: "tunn_config t' = tunn_config t \<Longrightarrow> Tunn_classifier t' = Tunn_classifier t"
  by (simp add: tunn_config_def Tunn_classifier_def)

lemma queue_packet_fields [simp]:
  "t_handshake (queue_packet p t) = t_handshake t" "t_sessions (queue_packet p t) = t_sessions t"
  "t_current (queue_packet p t) = t_current t" "t_rate_limiter (queue_packet p t) = t_rate_limiter t"
  "t_udp_window (queue_packet p t) = t_udp_window t" "t_header_config (queue_packet p t) = t_header_config t" "s1 (queue_packet p t) = s1 t"
  by (simp_all add: queue_packet_def s1_def)

lemma encapsulate_initiates:
  assumes "env_ok en" "ready (en_crypto en) n t" "t_sessions t ! (t_current t mod N_SESSIONS) = None"
    and "\<not> is_in_progress (t_handshake t)"
    and "params_ok (en_crypto en) q" "mirrored (hs_params (t_handshake t)) q"
  shows "\<exists>pk msg st prefix trailer t' r'. encapsulate en p n t r =
       Some (WriteToNetwork (wire (en_keystream en) (Tunn_classifier t) HK_Init prefix msg trailer), t', r') \<and>
     sent_as (Tunn_classifier t) HK_Init prefix msg trailer \<and>
     parse_incoming_packet_config msg (t_header_config t) = Ok (HandshakeInit pk) \<and>
     (\<exists>i body hs. append_mac1_and_mac2 (en_crypto en) i body hs = (msg, t_handshake t') \<and> hs_params hs = hs_params (t_handshake t)) \<and>
     (\<exists>e. initiation_fits (en_crypto en) q e (stamp_time (en_now en) (hs_stamper (t_handshake t))) pk st) \<and>
     hs_state (t_handshake t') = InitSent st \<and> hs_params (t_handshake t') = hs_params (t_handshake t) \<and>
     t_sessions t' = t_sessions t \<and> t_current t' = t_current t \<and> t_rate_limiter t' = t_rate_limiter t \<and>
     t_udp_window t' = t_udp_window t \<and> tunn_config t' = tunn_config t"
proof -
  note rd = assms(2) [unfolded ready_def]
  have cr: "crypto_ok (en_crypto en)"
    using assms(1) by (simp add: env_ok_def)
  have "length (np_static_public (hs_params (t_handshake t))) = 32"
    using rd cr by (simp add: params_ok_def length_pub)
  with Tunn_initiation_sent [OF assms(1), of "queue_packet p t" n False r] assms(4) rd
  obtain k ty r1 msg hs' r2 prefix trailer t' r' where
    k: "HANDSHAKE_INIT_SZ \<le> k" and rg: "HeaderRange_contains (hc_init (t_header_config t)) ty"
    and fmt: "format_handshake_initiation (en_crypto en) (en_now en) k ty (t_handshake t) r1 = Some (Ok msg, hs', r2)"
    and run: "Tunn_format_handshake_initiation en n False (queue_packet p t) r =
        Some (WriteToNetwork (wire (en_keystream en) (Tunn_classifier t) HK_Init prefix msg trailer), t', r')"
    and sent: "sent_as (Tunn_classifier t) HK_Init prefix msg trailer"
    and t': "t_handshake t' = hs'" "t_sessions t' = t_sessions t" "t_current t' = t_current t" "t_rate_limiter t' = t_rate_limiter t"
      "t_udp_window t' = t_udp_window t" "tunn_config t' = tunn_config t"
    by auto
  have "params_ok (en_crypto en) (hs_params (t_handshake t))"
    using rd by simp
  from initiation_agreement [OF cr this assms(5,6) k, of "en_now en" ty r1] fmt obtain pk st macs where
    m: "msg = le_bytes 4 ty @ le_bytes 4 (hi_sender_idx pk) @ hi_unencrypted_ephemeral pk @ hi_encrypted_static pk @
           hi_encrypted_timestamp pk @ macs" "length macs = 32"
    and hs': "hs_state hs' = InitSent st" "hs_params hs' = hs_params (t_handshake t)"
    and fits: "initiation_fits (en_crypto en) q (fst (fill_bytes 32 r1)) (stamp_time (en_now en) (hs_stamper (t_handshake t))) pk st"
    by auto
  have "parse_incoming_packet_config msg (t_header_config t) = Ok (HandshakeInit pk)"
    using fits m(2) cr by (simp add: m(1) parse_initiation [OF rg] initiation_fits_def length_pub)
  moreover have "encapsulate en p n t r = Tunn_format_handshake_initiation en n False (queue_packet p t) r"
    using assms(3) by (simp add: encapsulate_def)
  ultimately show ?thesis
    using run sent format_initiation_macs [OF fmt] fits hs' t'
    by (intro exI [of _ pk] exI [of _ msg] exI [of _ st] exI [of _ prefix] exI [of _ trailer] exI [of _ t'] exI [of _ r']) auto
qed

lemma fresh_sessions:
  "receive_handshake_response cr now p hs = Some (Ok a, hs') \<Longrightarrow>
     sending_key_counter a = 0 \<and> receiving_key_counter a = validator_default"
  "receive_handshake_initialization cr pk k ty hs r = Some (Ok (msg, b), hs', r') \<Longrightarrow>
     sending_key_counter b = 0 \<and> receiving_key_counter b = validator_default"
proof -
  show "sending_key_counter a = 0 \<and> receiving_key_counter a = validator_default"
    if "receive_handshake_response cr now p hs = Some (Ok a, hs')"
    using that by (auto simp: receive_handshake_response_def Session_new_def Let_def bind_res_def
        split: option.splits sum.splits prod.splits if_splits)
  assume "receive_handshake_initialization cr pk k ty hs r = Some (Ok (msg, b), hs', r')"
  then show "sending_key_counter b = 0 \<and> receiving_key_counter b = validator_default"
    by (cases rule: receive_initiation_cases)
      (auto simp: format_handshake_response_def Session_new_def Let_def
        split: if_splits option.splits prod.splits HandshakeState.splits)
qed

lemma not_refused_default [simp]: "\<not> refused 0 validator_default"
  by (simp add: refused_def validator_default_def)

lemma initiation_answered:
  assumes "crypto_ok (en_crypto enB)" "ready (en_crypto enB) n tB" "en_keystream enB = ks" "Tunn_classifier tB = cl"
    and "params_ok (en_crypto enB) (hs_params hsA)" "mirrored (hs_params hsA) (hs_params (t_handshake tB))"
    and "sent_as cl HK_Init prefix msg trailer" "parse_incoming_packet_config msg (t_header_config tB) = Ok (HandshakeInit pk)"
    and "append_mac1_and_mac2 (en_crypto enB) i body hs = (msg, hsA)" "hs_params hs = hs_params hsA"
    and "initiation_fits (en_crypto enB) (hs_params (t_handshake tB)) e st_time pk st" "hs_last_timestamp (t_handshake tB) < st_time"
    and "hs_state hsA = InitSent st" "\<not> mistaken ks cl HK_Init (wire ks cl HK_Init prefix msg trailer)"
  shows "\<exists>prefix' msg' trailer' rp a b hsA' tB' rB'. decapsulate enB addr (wire ks cl HK_Init prefix msg trailer) n tB rB =
       Some (WriteToNetwork (wire ks cl HK_Response prefix' msg' trailer'), tB', rB') \<and>
     sent_as cl HK_Response prefix' msg' trailer' \<and>
     parse_incoming_packet_config msg' (t_header_config tB) = Ok (HandshakeResponse rp) \<and>
     (\<exists>i body hs hs'. append_mac1_and_mac2 (en_crypto enB) i body hs = (msg', hs') \<and> hs_params hs = hs_params (t_handshake tB)) \<and>
     receive_handshake_response (en_crypto enB) now rp hsA = Some (Ok a, hsA') \<and> paired a b \<and>
     sending_key_counter b = 0 \<and> receiving_key_counter b = validator_default \<and>
     t_sessions tB' = (t_sessions tB)[session_local_index b mod N_SESSIONS := Some b] \<and> Tunn_classifier tB' = cl \<and>
     t_current (set_current_session (session_local_index b) tB') = session_local_index b"
proof -
  note rd = assms(2) [unfolded ready_def]
  note cr = assms(1)
  have "serves (en_crypto enB) (t_rate_limiter tB) (np_peer_static_public (hs_params hsA))"
      "t_disable_cookies tB \<or> rl_count (t_rate_limiter tB) < rl_limit (t_rate_limiter tB)"
    using rd assms(6) by (simp_all add: mirrored_def admits_def)
  from verify_honest [OF cr assms(5) this(1) assms(9,10,8) this(2)] obtain rl where
    v: "verify_packet (en_crypto enB) (en_now enB) addr msg COOKIE_REPLY_SZ (t_header_config tB) (t_disable_cookies tB)
      (t_rate_limiter tB) rB = (Ok (HandshakeInit pk), rl, rB)"
    by blast
  define t where "t = tB\<lparr>t_rate_limiter := rl\<rparr>"
  have t: "Tunn_classifier t = cl" "s2 t = s2 tB" "t_header_config t = t_header_config tB" "t_handshake t = t_handshake tB"
      "t_sessions t = t_sessions tB" "t_timers t = t_timers tB"
    using assms(4) by (simp_all add: t_def s2_def)
  have dec: "decapsulate enB addr (wire ks cl HK_Init prefix msg trailer) n tB rB = handle_verified_packet enB (HandshakeInit pk) n t rB"
    using decapsulate_handshake [OF _ _ _ v, of HK_Init prefix trailer n] assms(3,4,7,14)
    by (simp add: t_def)
  obtain ty r1 where ty: "HeaderRange_generate (hc_response (t_header_config t)) rB = (ty, r1)"
    by fastforce
  have fr: "framing_ok cl" "s2 t + HANDSHAKE_RESP_SZ \<le> n"
    using rd assms(4) t by (simp_all add: config_ok_def)
  have rg: "HeaderRange_contains (hc_response (t_header_config t)) ty"
    using HeaderRange_generate_in [of "hc_response (t_header_config t)" rB] ty fr(1) t(1) assms(4)
    by (auto simp: framing_ok_def hc_wf_def)
  have pend: "pending_initiation hsA (is_local_index st) = Some (st, False)"
    using assms(13) by (simp add: pending_initiation_def awaited_def)
  have len: "HANDSHAKE_RESP_SZ \<le> n - s2 t" and pB: "params_ok (en_crypto enB) (hs_params (t_handshake tB))"
    using fr(2) rd by simp_all
  from response_agreement [OF cr assms(5) pB assms(6,11,12) pend len, of ty r1 now, folded t(4)]
  obtain msg' rp macs a b hsA' hsB' r2 where
    rcv: "receive_handshake_initialization (en_crypto enB) pk (n - s2 t) ty (t_handshake t) r1 = Some (Ok (msg', b), hsB', r2)"
    and m: "msg' = le_bytes 4 ty @ le_bytes 4 (hp_sender_idx rp) @ le_bytes 4 (hp_receiver_idx rp) @ hp_unencrypted_ephemeral rp @
           hp_encrypted_nothing rp @ macs" "length (hp_unencrypted_ephemeral rp) = 32" "length (hp_encrypted_nothing rp) = 16" "length macs = 32"
    and resp: "receive_handshake_response (en_crypto enB) now rp hsA = Some (Ok a, hsA')" "paired a b"
    by blast
  have parse: "parse_incoming_packet_config msg' (t_header_config tB) = Ok (HandshakeResponse rp)"
    using rg t(3) by (simp add: m parse_response)
  have "length msg' = HANDSHAKE_RESP_SZ" "take 4 msg' = le_bytes 4 ty"
    using m by (simp_all add: HANDSHAKE_RESP_SZ_def)
  from handle_init_answers [OF _ fr(2) _ _ ty rcv this] fr(1) rd t obtain prefix' trailer' tB' rB' where
    ans: "handle_handshake_init enB pk n t rB = Some (Ok (WriteToNetwork (wire (en_keystream enB) cl HK_Response prefix' msg' trailer')), tB', rB')"
      "sent_as cl HK_Response prefix' msg' trailer'"
    and tB': "t_sessions tB' = (t_sessions tB)[session_local_index b mod N_SESSIONS := Some b]" "Tunn_classifier tB' = cl"
      "t_current (set_current_session (session_local_index b) tB') = session_local_index b"
    by auto
  have "decapsulate enB addr (wire ks cl HK_Init prefix msg trailer) n tB rB =
      Some (WriteToNetwork (wire ks cl HK_Response prefix' msg' trailer'), tB', rB')"
    using dec ans(1) assms(3) by (simp add: handle_verified_packet_def)
  moreover have "\<exists>i body hs hs'. append_mac1_and_mac2 (en_crypto enB) i body hs = (msg', hs') \<and> hs_params hs = hs_params (t_handshake tB)"
    using receive_initiation_macs [OF rcv] t(4) by auto
  ultimately show ?thesis
    using ans(2) parse resp fresh_sessions(2) [OF rcv] tB' by blast
qed

lemma response_completes:
  assumes "crypto_ok (en_crypto enA)" "framing_ok cl" "\<not> mistaken ks cl HK_Response (wire ks cl HK_Response prefix msg trailer)"
    and "Tunn_classifier tA = cl" "en_keystream enA = ks" "sessions_ok (t_sessions tA)" "t_sessions tA ! (t_current tA mod N_SESSIONS) = None" "keepalive_fits n tA" "admits tA"
    and "serves (en_crypto enA) (t_rate_limiter tA) (np_peer_static_public q)" "params_ok (en_crypto enA) q"
    and "sent_as cl HK_Response prefix msg trailer" "parse_incoming_packet_config msg (t_header_config tA) = Ok (HandshakeResponse rp)"
    and "append_mac1_and_mac2 (en_crypto enA) i body hs = (msg, hs')" "hs_params hs = q"
    and "receive_handshake_response (en_crypto enA) (en_now enA) rp (t_handshake tA) = Some (Ok a, hsA')"
  shows "\<exists>k ty pad msg' prefix' tA' rA'. decapsulate enA addr (wire ks cl HK_Response prefix msg trailer) n tA rA =
       Some (WriteToNetwork (wire ks cl HK_Transport prefix' msg' []), tA', rA') \<and>
     format_packet_data (en_crypto enA) [] k ty pad a = Some (msg', a\<lparr>sending_key_counter := sending_key_counter a + 1\<rparr>) \<and>
     length msg' \<le> n \<and> (t_content_padding tA = None \<longrightarrow> length msg' = 32) \<and> sent_as cl HK_Transport prefix' msg' [] \<and>
     t_sessions tA' = (t_sessions tA)[session_local_index a mod N_SESSIONS := Some (a\<lparr>sending_key_counter := sending_key_counter a + 1\<rparr>)] \<and>
     t_current tA' = session_local_index a \<and> Tunn_classifier tA' = cl"
proof -
  have load: "t_disable_cookies tA \<or> rl_count (t_rate_limiter tA) < rl_limit (t_rate_limiter tA)"
    using assms(9) by (simp add: admits_def)
  from verify_honest [OF assms(1,11,10,14,15,13) load] obtain rl where
    v: "verify_packet (en_crypto enA) (en_now enA) addr msg COOKIE_REPLY_SZ (t_header_config tA) (t_disable_cookies tA)
      (t_rate_limiter tA) rA = (Ok (HandshakeResponse rp), rl, rA)"
    by blast
  define t where "t = tA\<lparr>t_rate_limiter := rl\<rparr>"
  have t: "Tunn_classifier t = cl" "t_handshake t = t_handshake tA" "t_sessions t = t_sessions tA" "t_current t = t_current tA"
      "keepalive_fits n t = keepalive_fits n tA" "t_content_padding t = t_content_padding tA"
    using assms(4) by (simp_all add: t_def keepalive_fits_def s4_def)
  have dec: "decapsulate enA addr (wire ks cl HK_Response prefix msg trailer) n tA rA = handle_verified_packet enA (HandshakeResponse rp) n t rA"
    using decapsulate_handshake [OF _ _ _ v, of HK_Response prefix trailer n] assms(3-5,12) by (simp add: t_def)
  have pre: "framing_ok (Tunn_classifier t)" "keepalive_fits n t" "sessions_ok (t_sessions t)" "t_sessions t ! (t_current t mod N_SESSIONS) = None"
      "receive_handshake_response (en_crypto enA) (en_now enA) rp (t_handshake t) = Some (Ok a, hsA')"
    using assms(2,6-8,16) t by simp_all
  from handle_response_answers [OF assms(1) pre, of rA] obtain pad ty msg' prefix' tA' rA' where
    "format_packet_data (en_crypto enA) [] (n - s4 t) ty pad a = Some (msg', a\<lparr>sending_key_counter := sending_key_counter a + 1\<rparr>)"
    "length msg' \<le> n" "t_content_padding tA = None \<longrightarrow> length msg' = 32" "handle_handshake_response enA rp n t rA = Some (Ok (WriteToNetwork (wire ks cl HK_Transport prefix' msg' [])), tA', rA')"
    "sent_as cl HK_Transport prefix' msg' []"
    "t_sessions tA' = (t_sessions tA)[session_local_index a mod N_SESSIONS := Some (a\<lparr>sending_key_counter := sending_key_counter a + 1\<rparr>)]"
    "t_current tA' = session_local_index a" "Tunn_classifier tA' = cl"
    unfolding t(1,3,6) assms(5) by (elim exE conjE) (rule that)
  then show ?thesis
    using dec by (intro exI [of _ "n - s4 t"] exI [of _ ty] exI [of _ pad] exI [of _ msg'] exI [of _ prefix'] exI [of _ tA'] exI [of _ rA'])
      (simp add: handle_verified_packet_def)
qed

lemma session_ok_default: "receiving_key_counter s = validator_default \<Longrightarrow> session_ok s"
  by (simp add: session_ok_def validator_default_def rv_ok_def)

lemma keepalive_links:
  assumes "crypto_ok (en_crypto en)" "framing_ok cl" "\<not> mistaken ks cl HK_Transport (wire ks cl HK_Transport prefix msg [])"
    and "Tunn_classifier tA = cl" "Tunn_classifier tB = cl"
    and "en_keystream en = ks" "sessions_ok ssA" "sessions_ok ssB" "paired a b"
    and "sending_key_counter a = 0 \<and> receiving_key_counter a = validator_default"
    and "sending_key_counter b = 0 \<and> receiving_key_counter b = validator_default"
    and "t_sessions tA = ssA[session_local_index a mod N_SESSIONS := Some (a\<lparr>sending_key_counter := sending_key_counter a + 1\<rparr>)]"
    and "t_current tA = session_local_index a"
    and "t_sessions tB = ssB[session_local_index b mod N_SESSIONS := Some b]"
    and "t_current (set_current_session (session_local_index b) tB) = session_local_index b"
    and "format_packet_data (en_crypto en) [] k ty pad a = Some (msg, a')" "length msg \<le> n" "sent_as cl HK_Transport prefix msg []"
  shows "\<exists>tB'. decapsulate en addr (wire ks cl HK_Transport prefix msg []) n tB r = Some (Done, tB', r) \<and>
     linked (2 ^ 63) tA tB' \<and> linked (2 ^ 63) tB' tA \<and> sessions_ok (t_sessions tA) \<and> sessions_ok (t_sessions tB')"
proof -
  let ?a = "a\<lparr>sending_key_counter := sending_key_counter a + 1\<rparr>"
  have ix: "unat (sending_index a) = session_local_index b" "unat (sending_index b) = session_local_index a"
    using assms(9) by (simp_all add: paired_def session_local_index_def)
  have len: "length ssA = N_SESSIONS" "length ssB = N_SESSIONS"
    using assms(7,8) by (simp_all add: sessions_ok_def)
  have ok: "session_ok ?a" "session_ok b" "session_local_index ?a = session_local_index a"
    using assms(10,11) session_ok_default [of ?a] session_ok_default [of b] by (simp_all add: session_local_index_def)
  have okA: "sessions_ok (t_sessions tA)" and okB: "sessions_ok (t_sessions tB)"
    unfolding assms(12,14) using ok by (auto intro!: sessions_ok_update assms(7,8))
  have slot: "t_sessions tB ! (unat (sending_index a) mod N_SESSIONS) = Some b"
    using assms(14) ix len by simp
  have "\<exists>t' v. decapsulate en addr (wire (en_keystream en) (Tunn_classifier tB) HK_Transport prefix msg []) n tB r = Some (delivered [], t', r) \<and>
     accept_counter (sending_key_counter a) (receiving_key_counter b) = Some v \<and>
     t_sessions t' = (t_sessions tB)[unat (sending_index a) mod N_SESSIONS := Some (b\<lparr>receiving_key_counter := v\<rparr>)] \<and>
     t_current t' = t_current (set_current_session (unat (sending_index a)) tB) \<and>
     Tunn_classifier t' = Tunn_classifier tB \<and> t_rx_bytes t' = t_rx_bytes tB + length ([] :: bytes)"
    using assms(1-3,5,6,9-11,16-18) slot okB
    by (intro decapsulate_data [where k = k and ty = ty and pad = pad and a' = a']) (auto simp: ip_packet_def paired_def)
  then obtain tB' v where dec: "decapsulate en addr (wire ks cl HK_Transport prefix msg []) n tB r = Some (Done, tB', r)"
    and v: "accept_counter 0 validator_default = Some v"
    and tB': "t_sessions tB' = ssB[session_local_index b mod N_SESSIONS := Some (b\<lparr>receiving_key_counter := v\<rparr>)]"
      "t_current tB' = session_local_index b" "Tunn_classifier tB' = cl"
    using assms(5,6,10,11,14,15) ix by (auto simp: delivered_def)
  have d: "rv_ok validator_default" "rv_next validator_default = 0"
    by (simp_all add: validator_default_def rv_ok_def)
  have v': "rv_ok v" "rv_next v = 1"
    using accept_counter_spec(1,2) [OF d(1) v] d(2) by simp_all
  have "linked (2 ^ 63) tA tB'" "linked (2 ^ 63) tB' tA"
    using assms(4,9-13) tB' ix len v' d by (simp_all add: linked_def paired_def)
  moreover have "sessions_ok (t_sessions tB')"
    unfolding tB'(1) using v' by (auto intro!: sessions_ok_update assms(8) simp: session_ok_def session_local_index_def)
  ultimately show ?thesis
    using dec okA by blast
qed

text \<open>From the response on: the keepalive goes back and both ends are linked.\<close>

lemma connect_finish:
  assumes "crypto_ok cr" "framing_ok cl" "en_crypto enA = cr" "en_keystream enA = ks" "en_crypto enB = cr" "en_keystream enB = ks"
    and A: "Tunn_classifier tA = cl" "sessions_ok (t_sessions tA)" "t_sessions tA ! (t_current tA mod N_SESSIONS) = None"
      "keepalive_fits n tA" "admits tA" "serves cr (t_rate_limiter tA) (np_peer_static_public q)" "params_ok cr q"
    and B: "Tunn_classifier tB = cl" "sessions_ok ssB" "t_sessions tB = ssB[session_local_index b mod N_SESSIONS := Some b]"
      "t_current (set_current_session (session_local_index b) tB) = session_local_index b"
    and msg: "sent_as cl HK_Response prefix msg trailer" "\<not> mistaken ks cl HK_Response (wire ks cl HK_Response prefix msg trailer)"
      "parse_incoming_packet_config msg (t_header_config tA) = Ok (HandshakeResponse rp)"
      "append_mac1_and_mac2 cr i body hs = (msg, hs')" "hs_params hs = q"
    and s: "receive_handshake_response cr (en_now enA) rp (t_handshake tA) = Some (Ok a, hsA')" "paired a b"
      "sending_key_counter b = 0 \<and> receiving_key_counter b = validator_default"
  shows "\<exists>d3 tA2 rA2. decapsulate enA addrB (wire ks cl HK_Response prefix msg trailer) n tA rA = Some (WriteToNetwork d3, tA2, rA2) \<and>
     (t_content_padding tA = None \<longrightarrow> length d3 = s4 tA + 32) \<and> (unmistakable cl HK_Transport \<longrightarrow> \<not> mistaken ks cl HK_Transport d3) \<and>
     (\<not> mistaken ks cl HK_Transport d3 \<longrightarrow>
        (\<exists>tB2. decapsulate enB addrA d3 n tB rB = Some (Done, tB2, rB) \<and> linked (2 ^ 63) tA2 tB2 \<and> linked (2 ^ 63) tB2 tA2 \<and>
           sessions_ok (t_sessions tA2) \<and> sessions_ok (t_sessions tB2)))"
proof -
  let ?a = "a\<lparr>sending_key_counter := sending_key_counter a + 1\<rparr>"
  have "\<exists>k ty pad msg' prefix' tA' rA'. decapsulate enA addrB (wire ks cl HK_Response prefix msg trailer) n tA rA =
       Some (WriteToNetwork (wire ks cl HK_Transport prefix' msg' []), tA', rA') \<and>
     format_packet_data (en_crypto enA) [] k ty pad a = Some (msg', ?a) \<and>
     length msg' \<le> n \<and> (t_content_padding tA = None \<longrightarrow> length msg' = 32) \<and> sent_as cl HK_Transport prefix' msg' [] \<and>
     t_sessions tA' = (t_sessions tA)[session_local_index a mod N_SESSIONS := Some ?a] \<and>
     t_current tA' = session_local_index a \<and> Tunn_classifier tA' = cl"
    by (rule response_completes [where q = q and rp = rp and i = i and body = body and hs = hs and hs' = hs' and hsA' = hsA'])
      (use assms in simp_all)
  then obtain k ty pad msg' prefix' tA2 rA2 where
    3: "decapsulate enA addrB (wire ks cl HK_Response prefix msg trailer) n tA rA =
       Some (WriteToNetwork (wire ks cl HK_Transport prefix' msg' []), tA2, rA2)"
      "format_packet_data cr [] k ty pad a = Some (msg', ?a)" "length msg' \<le> n" "t_content_padding tA = None \<longrightarrow> length msg' = 32"
      "sent_as cl HK_Transport prefix' msg' []"
    and tA2: "t_sessions tA2 = (t_sessions tA)[session_local_index a mod N_SESSIONS := Some ?a]"
      "t_current tA2 = session_local_index a" "Tunn_classifier tA2 = cl"
    unfolding assms(3) by (elim exE conjE) (rule that)
  let ?d = "wire ks cl HK_Transport prefix' msg' []"
  have "s4 tA = length prefix'"
    using 3(5) A(1) kind_padding_tunn(4) by (metis sent_as_def)
  then have "t_content_padding tA = None \<longrightarrow> length ?d = s4 tA + 32"
    using 3(4) length_wire [OF 3(5)] by simp
  moreover have "unmistakable cl HK_Transport \<longrightarrow> \<not> mistaken ks cl HK_Transport ?d"
    using unmistakable_not_mistaken [OF 3(5)] assms(2) by (simp add: framing_ok_def)
  moreover have "\<exists>tB2. decapsulate enB addrA ?d n tB rB = Some (Done, tB2, rB) \<and> linked (2 ^ 63) tA2 tB2 \<and> linked (2 ^ 63) tB2 tA2 \<and>
      sessions_ok (t_sessions tA2) \<and> sessions_ok (t_sessions tB2)" if "\<not> mistaken ks cl HK_Transport ?d"
    by (rule keepalive_links [where a = a and b = b and ssA = "t_sessions tA" and ssB = ssB and k = k and ty = ty and pad = pad])
      (use assms(1-6) A B tA2 s fresh_sessions(1) [OF s(1)] 3 that in simp_all)
  ultimately show ?thesis
    using 3(1) by (intro exI [of _ ?d] exI [of _ tA2] exI [of _ rA2]) simp
qed

text \<open>From the initiation on: the response goes back, and then the keepalive.\<close>

lemma connect_answer:
  assumes cr: "crypto_ok cr" "framing_ok cl"
    and en: "en_crypto enB = cr" "en_keystream enB = ks" "en_crypto enA = cr" "en_keystream enA = ks" "en_crypto enB' = cr" "en_keystream enB' = ks"
    and B: "ready cr n tB" "Tunn_classifier tB = cl"
    and A: "Tunn_classifier tA = cl" "sessions_ok (t_sessions tA)" "t_sessions tA ! (t_current tA mod N_SESSIONS) = None"
      "keepalive_fits n tA" "admits tA" "serves cr (t_rate_limiter tA) (np_peer_static_public (hs_params (t_handshake tB)))"
      "params_ok cr (hs_params (t_handshake tA))" "mirrored (hs_params (t_handshake tA)) (hs_params (t_handshake tB))"
    and msg: "sent_as cl HK_Init prefix msg trailer" "\<not> mistaken ks cl HK_Init (wire ks cl HK_Init prefix msg trailer)"
      "parse_incoming_packet_config msg (cl_headers cl) = Ok (HandshakeInit pk)"
      "append_mac1_and_mac2 cr i body hs = (msg, t_handshake tA)" "hs_params hs = hs_params (t_handshake tA)"
    and st: "initiation_fits cr (hs_params (t_handshake tB)) e st_time pk st" "hs_last_timestamp (t_handshake tB) < st_time"
      "hs_state (t_handshake tA) = InitSent st"
  shows "\<exists>d2 tB1 rB1. decapsulate enB addrA (wire ks cl HK_Init prefix msg trailer) n tB rB = Some (WriteToNetwork d2, tB1, rB1) \<and>
     (unmistakable cl HK_Response \<longrightarrow> \<not> mistaken ks cl HK_Response d2) \<and>
     (\<not> mistaken ks cl HK_Response d2 \<longrightarrow>
       (\<exists>d3 tA2 rA2. decapsulate enA addrB d2 n tA rA = Some (WriteToNetwork d3, tA2, rA2) \<and>
         (t_content_padding tA = None \<longrightarrow> length d3 = s4 tA + 32) \<and> (unmistakable cl HK_Transport \<longrightarrow> \<not> mistaken ks cl HK_Transport d3) \<and>
         (\<not> mistaken ks cl HK_Transport d3 \<longrightarrow>
           (\<exists>tB2. decapsulate enB' addrA d3 n tB1 rB1 = Some (Done, tB2, rB1) \<and> linked (2 ^ 63) tA2 tB2 \<and> linked (2 ^ 63) tB2 tA2 \<and>
              sessions_ok (t_sessions tA2) \<and> sessions_ok (t_sessions tB2)))))"
proof -
  note rB = B(1) [unfolded ready_def]
  have hc: "t_header_config tA = cl_headers cl" "t_header_config tB = cl_headers cl"
    using A(1) B(2) classifier_fields(2) by metis+
  have "\<exists>prefix' msg' trailer' rp a b hsA' tB' rB'. decapsulate enB addrA (wire ks cl HK_Init prefix msg trailer) n tB rB =
       Some (WriteToNetwork (wire ks cl HK_Response prefix' msg' trailer'), tB', rB') \<and>
     sent_as cl HK_Response prefix' msg' trailer' \<and>
     parse_incoming_packet_config msg' (t_header_config tB) = Ok (HandshakeResponse rp) \<and>
     (\<exists>i body hs hs'. append_mac1_and_mac2 (en_crypto enB) i body hs = (msg', hs') \<and> hs_params hs = hs_params (t_handshake tB)) \<and>
     receive_handshake_response (en_crypto enB) (en_now enA) rp (t_handshake tA) = Some (Ok a, hsA') \<and> paired a b \<and>
     sending_key_counter b = 0 \<and> receiving_key_counter b = validator_default \<and>
     t_sessions tB' = (t_sessions tB)[session_local_index b mod N_SESSIONS := Some b] \<and> Tunn_classifier tB' = cl \<and>
     t_current (set_current_session (session_local_index b) tB') = session_local_index b"
    by (rule initiation_answered [where hsA = "t_handshake tA" and pk = pk and st = st and i = i and body = body and hs = hs and e = e
          and st_time = st_time]) (use assms hc in \<open>simp_all\<close>)
  then obtain prefix' msg' trailer' rp a b hsA' tB1 rB1 j body' hs1 hs2 where
    2: "decapsulate enB addrA (wire ks cl HK_Init prefix msg trailer) n tB rB =
        Some (WriteToNetwork (wire ks cl HK_Response prefix' msg' trailer'), tB1, rB1)"
      "sent_as cl HK_Response prefix' msg' trailer'" "parse_incoming_packet_config msg' (cl_headers cl) = Ok (HandshakeResponse rp)"
      "append_mac1_and_mac2 cr j body' hs1 = (msg', hs2)" "hs_params hs1 = hs_params (t_handshake tB)"
      "receive_handshake_response cr (en_now enA) rp (t_handshake tA) = Some (Ok a, hsA')" "paired a b"
    and b: "sending_key_counter b = 0 \<and> receiving_key_counter b = validator_default"
    and tB1: "t_sessions tB1 = (t_sessions tB)[session_local_index b mod N_SESSIONS := Some b]" "Tunn_classifier tB1 = cl"
      "t_current (set_current_session (session_local_index b) tB1) = session_local_index b"
    unfolding en hc by blast
  note finish = connect_finish [OF cr en(3-6) A(1-6) _ tB1(2) _ tB1(1,3) 2(2) _ _ 2(4-7) b, of addrB rA addrA rB1]
  have "unmistakable cl HK_Response \<longrightarrow> \<not> mistaken ks cl HK_Response (wire ks cl HK_Response prefix' msg' trailer')"
    using unmistakable_not_mistaken [OF 2(2)] cr(2) by (simp add: framing_ok_def)
  then show ?thesis
    using 2(1,3) finish rB hc
    by (intro exI [of _ "wire ks cl HK_Response prefix' msg' trailer'"] exI [of _ tB1] exI [of _ rB1]) simp
qed

section \<open>New tunnels\<close>

text \<open>
  The checks of the constructor are what the datagrams rely on; a new tunnel with its own rate
  limiter is ready to connect.
\<close>

lemma new_fields:
  assumes "new_with_amnezia3 en priv peer psk ka idx rl am r = (Ok t, r')"
  shows "a3_valid am" "t_header_config t = a3_headers am" "t_padding_config t = a3_paddings am"
    "t_header_protection t = a3_header_protection_key am" "t_init_packet_config t = a3_init_packets am"
    "t_random_trailers t = a3_random_trailers am" "t_content_padding t = a3_content_padding_addition am"
    "t_handshake t = Handshake_new (en_crypto en) \<lparr>duration_at_start = en_unix en, instant_at_start = en_now en\<rparr> priv
       (cr_pub (en_crypto en) priv) peer (push_bit 8 idx) psk"
    "t_udp_window t = AWG31_DEFAULT_UDP_WINDOW" "t_sessions t = replicate N_SESSIONS None" "t_current t = 0"
    "rl = None \<Longrightarrow> \<exists>r. t_rate_limiter t = fst (RateLimiter_new (en_crypto en) (en_now en) (cr_pub (en_crypto en) priv) PEER_HANDSHAKE_RATE_LIMIT r)"
  using assms Amnezia3Config_validate_iff [of am]
  by (auto simp: new_with_amnezia3_def limiter_or_new_def split_beta Let_def split: sum.splits)

lemma new_config_ok:
  assumes "new_with_amnezia3 en priv peer psk ka idx rl am r = (Ok t, r')" "hc_wf (a3_headers am)"
    and "list_all (list_all tag_generable) (active_chains (a3_init_packets am))"
  shows "config_ok t"
proof -
  note n = new_fields [OF assms(1)]
  have "hc_disjoint (a3_headers am)"
    using n(1) HeaderConfig_validate_iff HeaderConfig_validate_Ok_iff [OF assms(2)] by (simp add: a3_valid_def)
  then show ?thesis
    using n assms(2,3) by (auto simp: config_ok_def framing_ok_def a3_valid_def kind_padding_def HEADER_PROTECTION_NONCE_SIZE_def)
qed

lemma new_ready:
  assumes "new_with_amnezia3 en priv peer psk ka idx None am r = (Ok t, r')" "hc_wf (a3_headers am)"
    and "list_all (list_all tag_generable) (active_chains (a3_init_packets am))"
    and "s1 t + 148 \<le> n" "s2 t + 92 \<le> n" "s4 t + 32 \<le> n" "a3_content_padding_addition am = None \<or> s4 t + 32 + unat AWG31_DEFAULT_UDP_WINDOW \<le> n"
  shows "ready (en_crypto en) n t"
proof -
  note n = new_fields [OF assms(1)]
  obtain r1 where rl: "t_rate_limiter t = fst (RateLimiter_new (en_crypto en) (en_now en) (cr_pub (en_crypto en) priv) PEER_HANDSHAKE_RATE_LIMIT r1)"
    using n(12) by blast
  have "admits t" "serves (en_crypto en) (t_rate_limiter t) (np_static_public (hs_params (t_handshake t)))"
    by (simp_all add: rl n(8) admits_def serves_def RateLimiter_new_def PEER_HANDSHAKE_RATE_LIMIT_def Handshake_new_def
        NoiseParams_new_def split_beta)
  moreover have "params_ok (en_crypto en) (hs_params (t_handshake t))"
    by (simp add: n(8) Handshake_new_def params_ok_new)
  ultimately show ?thesis
    using new_ok [OF assms(1)] new_config_ok [OF assms(1-3)] assms(4-7) n
    by (auto simp: ready_def keepalive_fits_def tunn_ok_def HANDSHAKE_INIT_SZ_def HANDSHAKE_RESP_SZ_def)
qed

section \<open>Properties\<close>

text \<open>
  C1. Two tunnels connect, with any four paddings: when one end has no session and a packet to
  send, its initiation, the other end's response and the first keepalive go through framing,
  header protection, classification, the rate limiter and the handlers of both ends, whatever
  the random choices, and afterwards each end can send to the other on a session paired with
  the other's. Each datagram is answered unless it is mistaken, that is, unless it also reads as
  a kind the classifier tries earlier; the configuration rules this out for kinds that are
  unmistakable, and without content padding the keepalive has the length of its overhead. The
  buffers need only the message sizes, and room for the window when content padding is on.
\<close>

theorem tunnels_connect:
  assumes "env_ok enA" "same_primitives enA enB" "same_primitives enA enA'" "same_primitives enA enB'"
    and "ready (en_crypto enA) n tA" "ready (en_crypto enA) n tB" "peers tA tB"
    and "t_sessions tA ! (t_current tA mod N_SESSIONS) = None" "\<not> is_in_progress (t_handshake tA)"
    and "hs_last_timestamp (t_handshake tB) < stamp_time (en_now enA) (hs_stamper (t_handshake tA))"
    and "cl = Tunn_classifier tA" "ks = en_keystream enA"
  shows "\<exists>d1 tA1 rA1. encapsulate enA p n tA rA = Some (WriteToNetwork d1, tA1, rA1) \<and>
     (unmistakable cl HK_Init \<longrightarrow> \<not> mistaken ks cl HK_Init d1) \<and>
     (\<not> mistaken ks cl HK_Init d1 \<longrightarrow>
       (\<exists>d2 tB1 rB1. decapsulate enB addrA d1 n tB rB = Some (WriteToNetwork d2, tB1, rB1) \<and>
         (unmistakable cl HK_Response \<longrightarrow> \<not> mistaken ks cl HK_Response d2) \<and>
         (\<not> mistaken ks cl HK_Response d2 \<longrightarrow>
           (\<exists>d3 tA2 rA2. decapsulate enA' addrB d2 n tA1 rA1 = Some (WriteToNetwork d3, tA2, rA2) \<and>
             (t_content_padding tA = None \<longrightarrow> length d3 = s4 tA + 32) \<and>
             (unmistakable cl HK_Transport \<longrightarrow> \<not> mistaken ks cl HK_Transport d3) \<and>
             (\<not> mistaken ks cl HK_Transport d3 \<longrightarrow>
               (\<exists>tB2. decapsulate enB' addrA d3 n tB1 rB1 = Some (Done, tB2, rB1) \<and>
                 linked (2 ^ 63) tA2 tB2 \<and> linked (2 ^ 63) tB2 tA2 \<and>
                 sessions_ok (t_sessions tA2) \<and> sessions_ok (t_sessions tB2)))))))"
proof -
  let ?cr = "en_crypto enA" and ?hs = "t_handshake tA"
  have en: "en_crypto enB = ?cr" "en_keystream enB = ks" "en_crypto enA' = ?cr" "en_keystream enA' = ks" "en_crypto enB' = ?cr"
      "en_keystream enB' = ks"
    using assms(2-4,12) by (simp_all add: same_primitives_def)
  have cr: "crypto_ok ?cr"
    using assms(1) by (simp add: env_ok_def)
  note rA = assms(5) [unfolded ready_def]
  have cl: "Tunn_classifier tB = cl" and mir: "mirrored (hs_params ?hs) (hs_params (t_handshake tB))"
    using assms(7,11) by (simp_all add: peers_def)
  have fr: "framing_ok cl" "hc_disjoint (cl_headers cl)" "t_header_config tA = cl_headers cl"
    using rA assms(11) by (simp_all add: config_ok_def framing_ok_def)
  have pB: "params_ok ?cr (hs_params (t_handshake tB))"
    using assms(6) by (simp add: ready_def)
  from encapsulate_initiates [OF assms(1,5,8,9) pB mir, of p rA, folded assms(11,12)] obtain pk msg st prefix trailer tA1 rA1 i body hs e where
    1: "encapsulate enA p n tA rA = Some (WriteToNetwork (wire ks cl HK_Init prefix msg trailer), tA1, rA1)"
      "sent_as cl HK_Init prefix msg trailer" "parse_incoming_packet_config msg (t_header_config tA) = Ok (HandshakeInit pk)"
      "append_mac1_and_mac2 ?cr i body hs = (msg, t_handshake tA1)" "hs_params hs = hs_params ?hs"
      "initiation_fits ?cr (hs_params (t_handshake tB)) e (stamp_time (en_now enA) (hs_stamper ?hs)) pk st"
      "hs_state (t_handshake tA1) = InitSent st" "hs_params (t_handshake tA1) = hs_params ?hs"
    and tA1: "t_sessions tA1 = t_sessions tA" "t_current tA1 = t_current tA" "t_rate_limiter tA1 = t_rate_limiter tA"
      "t_udp_window tA1 = t_udp_window tA" "tunn_config tA1 = tunn_config tA"
    by blast
  have A1: "Tunn_classifier tA1 = cl" "sessions_ok (t_sessions tA1)" "t_sessions tA1 ! (t_current tA1 mod N_SESSIONS) = None"
      "keepalive_fits n tA1" "admits tA1" "serves ?cr (t_rate_limiter tA1) (np_peer_static_public (hs_params (t_handshake tB)))"
      "params_ok ?cr (hs_params (t_handshake tA1))" "mirrored (hs_params (t_handshake tA1)) (hs_params (t_handshake tB))"
    and same: "t_content_padding tA1 = t_content_padding tA" "s4 tA1 = s4 tA"
    using rA tA1 mir assms(8,11) 1(8) classifier_of_config [OF tA1(5)]
    by (auto simp: keepalive_fits_def admits_def tunn_config_def s4_def mirrored_def split: if_splits)
  note answer = connect_answer [OF cr fr(1) en assms(6) cl A1 1(2) _ 1(3) [unfolded fr(3)] 1(4) _ 1(6) assms(10) 1(7), of addrA rB addrB rA1]
  have "unmistakable cl HK_Init \<longrightarrow> \<not> mistaken ks cl HK_Init (wire ks cl HK_Init prefix msg trailer)"
    using unmistakable_not_mistaken [OF 1(2) fr(2)] by blast
  then show ?thesis
    using 1(1,5,8) answer same
    by (intro exI [of _ "wire ks cl HK_Init prefix msg trailer"] exI [of _ tA1] exI [of _ rA1]) simp
qed

text \<open>New tunnels for the witnesses, with the default configuration and with unequal paddings.\<close>

definition sample_env :: env where
  "sample_env = \<lparr>en_crypto = sample_crypto, en_keystream = (\<lambda>key nonce i. 0), en_b64 = (\<lambda>xs. replicate ((length xs + 2) div 3 * 4) 65),
     en_now = 7, en_unix = 5000000000\<rparr>"

definition configured_tunn :: "amnezia3_config \<Rightarrow> bytes \<Rightarrow> bytes \<Rightarrow> u32 \<Rightarrow> tunn" where
  "configured_tunn c mine theirs idx =
     projr (fst (new_with_amnezia3 sample_env mine (cr_pub sample_crypto theirs) (Some [1, 2]) None idx None c (\<lambda>i. 4)))"

definition sample_tunn :: "bytes \<Rightarrow> bytes \<Rightarrow> u32 \<Rightarrow> tunn" where
  "sample_tunn = configured_tunn Amnezia3Config_default"

definition padded_config :: amnezia3_config where
  "padded_config = Amnezia3Config_default
     \<lparr>a3_paddings := \<lparr>pc_s1 = 41, pc_s2 = 83, pc_s3 = 29, pc_s4 = 23\<rparr>, a3_header_protection_key := Some (replicate 32 9)\<rparr>"

lemma sample_env_ok: "env_ok sample_env" "same_primitives sample_env sample_env" "en_crypto sample_env = sample_crypto"
  by (simp_all add: sample_env_def env_ok_def sample_crypto_ok b64_len_law_def same_primitives_def)

lemma configured_tunn_new:
  assumes "Amnezia3Config_validate c = Ok ()"
  shows "\<exists>r'. new_with_amnezia3 sample_env mine (cr_pub sample_crypto theirs) (Some [1, 2]) None idx None c (\<lambda>i. 4) =
     (Ok (configured_tunn c mine theirs idx), r')"
  using assms by (simp add: configured_tunn_def new_with_amnezia3_def split_beta Let_def)

lemma sample_tunn_new:
  "\<exists>r'. new_with_amnezia3 sample_env mine (cr_pub sample_crypto theirs) (Some [1, 2]) None idx None Amnezia3Config_default (\<lambda>i. 4) =
     (Ok (sample_tunn mine theirs idx), r')"
  unfolding sample_tunn_def by (rule configured_tunn_new) code_simp

lemma default_config_facts:
  "hc_wf (a3_headers Amnezia3Config_default)" "list_all (list_all tag_generable) (active_chains (a3_init_packets Amnezia3Config_default))"
  "pc_s2 (a3_paddings Amnezia3Config_default) = 0" "a3_content_padding_addition Amnezia3Config_default = None"
  "pc_s1 (a3_paddings Amnezia3Config_default) = 0" "pc_s4 (a3_paddings Amnezia3Config_default) = 0"
  by code_simp+

lemma padded_config_facts:
  "hc_wf (a3_headers padded_config)" "list_all (list_all tag_generable) (active_chains (a3_init_packets padded_config))"
  "a3_paddings padded_config = \<lparr>pc_s1 = 41, pc_s2 = 83, pc_s3 = 29, pc_s4 = 23\<rparr>" "a3_content_padding_addition padded_config = None"
  "\<not> a3_random_trailers padded_config" "Amnezia3Config_validate padded_config = Ok ()"
  by code_simp+

lemma sample_tunn_ready: "ready sample_crypto 148 (sample_tunn mine theirs idx)"
proof -
  obtain r' where "new_with_amnezia3 sample_env mine (cr_pub sample_crypto theirs) (Some [1, 2]) None idx None Amnezia3Config_default (\<lambda>i. 4) =
     (Ok (sample_tunn mine theirs idx), r')"
    using sample_tunn_new by blast
  note new = this
  show ?thesis
    using new_ready [OF new default_config_facts(1,2), of 148] new_fields(3) [OF new] default_config_facts(3-6)
    by (simp add: sample_env_ok s1_def s2_def s4_def)
qed

lemma padded_tunn_facts:
  shows "ready sample_crypto 189 (configured_tunn padded_config mine theirs idx)"
    and "unmistakable (Tunn_classifier (configured_tunn padded_config mine theirs idx)) HK_Init"
    and "unmistakable (Tunn_classifier (configured_tunn padded_config mine theirs idx)) HK_Response"
    and "length d \<notin> {189, 175, 93} \<Longrightarrow> \<not> mistaken ks (Tunn_classifier (configured_tunn padded_config mine theirs idx)) HK_Transport d"
    and "s4 (configured_tunn padded_config mine theirs idx) = 23" "t_content_padding (configured_tunn padded_config mine theirs idx) = None"
    and "\<not> t_random_trailers (configured_tunn padded_config mine theirs idx)"
proof -
  let ?t = "configured_tunn padded_config mine theirs idx"
  obtain r' where new: "new_with_amnezia3 sample_env mine (cr_pub sample_crypto theirs) (Some [1, 2]) None idx None padded_config (\<lambda>i. 4) = (Ok ?t, r')"
    using configured_tunn_new [OF padded_config_facts(6)] by blast
  note f = new_fields [OF new] padded_config_facts
  have s: "s1 ?t = 41" "s2 ?t = 83" "s3 ?t = 29" "s4 ?t = 23"
    by (simp_all add: s1_def s2_def s3_def s4_def f)
  show "s4 ?t = 23" "t_content_padding ?t = None" "\<not> t_random_trailers ?t"
    by (simp_all add: s f)
  show "ready sample_crypto 189 ?t"
    using new_ready [OF new padded_config_facts(1,2), of 189] s f by (simp add: sample_env_ok)
  show "unmistakable (Tunn_classifier ?t) HK_Init" "unmistakable (Tunn_classifier ?t) HK_Response"
    by (simp_all add: unmistakable_def kinds_before_def kind_order_def kind_padding_tunn s f kind_size_def message_sizes)
  show "\<not> mistaken ks (Tunn_classifier ?t) HK_Transport d" if "length d \<notin> {189, 175, 93}"
    using that mistaken_length [of ks "Tunn_classifier ?t" d] by (auto simp: kind_padding_tunn s f)
qed

theorem tunnels_connect_witness:
  "\<exists>d1 tA1 rA1 d2 tB1 rB1 d3 tA2 rA2 tB2.
     encapsulate sample_env [0x45] 189 (configured_tunn padded_config [3] [4] 1) (\<lambda>i. 6) = Some (WriteToNetwork d1, tA1, rA1) \<and>
     decapsulate sample_env None d1 189 (configured_tunn padded_config [4] [3] 2) (\<lambda>i. 8) = Some (WriteToNetwork d2, tB1, rB1) \<and>
     decapsulate sample_env None d2 189 tA1 rA1 = Some (WriteToNetwork d3, tA2, rA2) \<and>
     decapsulate sample_env None d3 189 tB1 rB1 = Some (Done, tB2, rB1) \<and>
     linked (2 ^ 63) tA2 tB2 \<and> linked (2 ^ 63) tB2 tA2 \<and> sessions_ok (t_sessions tA2) \<and> sessions_ok (t_sessions tB2)"
proof -
  let ?A = "configured_tunn padded_config [3] [4] 1" and ?B = "configured_tunn padded_config [4] [3] 2"
  obtain rA rB where new: "new_with_amnezia3 sample_env [3] (cr_pub sample_crypto [4]) (Some [1, 2]) None 1 None padded_config (\<lambda>i. 4) = (Ok ?A, rA)"
    "new_with_amnezia3 sample_env [4] (cr_pub sample_crypto [3]) (Some [1, 2]) None 2 None padded_config (\<lambda>i. 4) = (Ok ?B, rB)"
    using configured_tunn_new [OF padded_config_facts(6)] by blast
  note a = new_fields [OF new(1)] and b = new_fields [OF new(2)]
  have "peers ?A ?B"
    by (simp add: peers_def Tunn_classifier_def a b Handshake_new_def mirrored_def NoiseParams_new_def sample_env_ok)
  moreover have "t_sessions ?A ! (t_current ?A mod N_SESSIONS) = None"
    by (simp add: a)
  moreover have "\<not> is_in_progress (t_handshake ?A)"
    by (simp add: a Handshake_new_def is_in_progress_def)
  moreover have "hs_last_timestamp (t_handshake ?B) < stamp_time (en_now sample_env) (hs_stamper (t_handshake ?A))"
    by (simp add: a b Handshake_new_def stamp_time_def Tai64N_zero_def less_Tai64N_def Tai64N_after_def
        TAI64_BASE_def Let_def sample_env_def)
  moreover have "ready (en_crypto sample_env) 189 ?A" "ready (en_crypto sample_env) 189 ?B"
    by (simp_all add: padded_tunn_facts sample_env_ok)
  ultimately have run: "\<exists>d1 tA1 rA1. encapsulate sample_env [0x45] 189 ?A (\<lambda>i. 6) = Some (WriteToNetwork d1, tA1, rA1) \<and>
     (\<exists>d2 tB1 rB1. decapsulate sample_env None d1 189 ?B (\<lambda>i. 8) = Some (WriteToNetwork d2, tB1, rB1) \<and>
       (\<exists>d3 tA2 rA2. decapsulate sample_env None d2 189 tA1 rA1 = Some (WriteToNetwork d3, tA2, rA2) \<and> length d3 = 55 \<and>
         (\<not> mistaken (en_keystream sample_env) (Tunn_classifier ?A) HK_Transport d3 \<longrightarrow>
           (\<exists>tB2. decapsulate sample_env None d3 189 tB1 rB1 = Some (Done, tB2, rB1) \<and>
              linked (2 ^ 63) tA2 tB2 \<and> linked (2 ^ 63) tB2 tA2 \<and> sessions_ok (t_sessions tA2) \<and> sessions_ok (t_sessions tB2)))))"
    using tunnels_connect [OF sample_env_ok(1,2,2,2), of 189 ?A ?B, OF _ _ _ _ _ _ refl refl, of "[0x45]" "\<lambda>i. 6" None "\<lambda>i. 8" None]
      padded_tunn_facts(2,3,5,6) [where mine = "[3]" and theirs = "[4]" and idx = 1]
    by (simp cong: conj_cong) blast
  moreover have "\<not> mistaken (en_keystream sample_env) (Tunn_classifier ?A) HK_Transport d3" if "length d3 = 55" for d3
    by (rule padded_tunn_facts(4)) (simp add: that)
  ultimately show ?thesis
    by blast
qed

text \<open>
  C2. Packets arrive, with any four paddings: over two linked tunnels a stream of IP packets and
  keepalives given to one end is handed to the interface of the other end in order, each as it
  was sent, whatever padding, prefix and header protection the sender chose, for up to
  2^64 - 1024 packets, provided that none of the datagrams is mistaken, that is, also reads as
  a handshake message where the classifier tries those first. Equal paddings or random trailers
  rule this out for all datagrams, and without trailers only datagrams of the length of a
  handshake message can be mistaken.
\<close>

theorem tunnel_delivers_stream:
  assumes "crypto_ok (en_crypto enA)" "same_primitives enA enB" "framing_ok (Tunn_classifier tA)"
    and "list_all (\<lambda>d. \<not> mistaken (en_keystream enA) (Tunn_classifier tA) HK_Transport d) (stream_datagrams enA n ps (tA, rA))"
    and "linked (length ps) tA tB" "sessions_ok (t_sessions tA)" "sessions_ok (t_sessions tB)"
    and "list_all (\<lambda>p. ip_packet p \<and> s4 tA + 32 + length p \<le> n) ps"
  shows "relay enA enB n ps (tA, rA) (tB, rB) = Some (map delivered ps)"
  using relay_stream assms by (simp add: same_primitives_def)

definition sample_packet :: bytes where
  "sample_packet = [0x45, 0, 0, 20] @ replicate 8 1 @ [10, 0, 0, 1] @ [10, 0, 0, 2]"

definition sample_link :: "u32 \<Rightarrow> u32 \<Rightarrow> bytes \<Rightarrow> bytes \<Rightarrow> tunn" where
  "sample_link i j rk sk = (sample_tunn [3] [4] 1)\<lparr>t_sessions := (replicate N_SESSIONS None)[0 := Some (Session_new i j rk sk)]\<rparr>"

definition padded_link :: "u32 \<Rightarrow> u32 \<Rightarrow> bytes \<Rightarrow> bytes \<Rightarrow> tunn" where
  "padded_link i j rk sk = (configured_tunn padded_config [3] [4] 1)\<lparr>t_sessions := (replicate N_SESSIONS None)[0 := Some (Session_new i j rk sk)]\<rparr>"

lemma sample_slots: "8 mod N_SESSIONS = 0" "16 mod N_SESSIONS = 0"
  by (simp_all add: N_SESSIONS_def)

theorem tunnel_delivers_stream_witness:
  "relay sample_env sample_env 75 [sample_packet, [], sample_packet] (padded_link 8 16 [7] [9], \<lambda>i. 1) (padded_link 16 8 [9] [7], \<lambda>i. 2) =
     Some [WriteToTunnelV4 sample_packet [10, 0, 0, 1], Done, WriteToTunnelV4 sample_packet [10, 0, 0, 1]]"
proof -
  let ?t = "configured_tunn padded_config [3] [4] 1"
  obtain r where new: "new_with_amnezia3 sample_env [3] (cr_pub sample_crypto [4]) (Some [1, 2]) None 1 None padded_config (\<lambda>i. 4) = (Ok ?t, r)"
    using configured_tunn_new [OF padded_config_facts(6)] by blast
  note a = new_fields [OF new] and f = padded_tunn_facts [where mine = "[3]" and theirs = "[4]" and idx = 1]
  have l: "s4 (padded_link i j rk sk) = 23" "Tunn_classifier (padded_link i j rk sk) = Tunn_classifier ?t" "t_current (padded_link i j rk sk) = 0"
      "t_content_padding (padded_link i j rk sk) = None" "\<not> t_random_trailers (padded_link i j rk sk)"
      "t_sessions (padded_link i j rk sk) = (replicate N_SESSIONS None)[0 := Some (Session_new i j rk sk)]" for i j rk sk
    using f(5-7) by (simp_all add: padded_link_def s4_def a(11))
  have fr: "framing_ok (Tunn_classifier ?t)"
    using f(1) by (simp add: ready_def config_ok_def)
  have p: "ip_packet sample_packet \<and> length sample_packet = 20" "delivered sample_packet = WriteToTunnelV4 sample_packet [10, 0, 0, 1]"
    by code_simp+
  define ds where "ds = stream_datagrams sample_env 75 [sample_packet, [], sample_packet] (padded_link 8 16 [7] [9], \<lambda>i. 1)"
  have "map length ds = [75, 55, 75]"
    using stream_datagrams_lengths [of sample_env "padded_link 8 16 [7] [9]" 75 "[sample_packet, [], sample_packet]" "\<lambda>i. 1"] fr p(1)
    by (simp add: ds_def l sample_env_ok sample_crypto_ok del: stream_datagrams.simps)
  then have "list_all (\<lambda>d. \<not> mistaken (en_keystream sample_env) (Tunn_classifier ?t) HK_Transport d) ds"
    by (auto simp: map_eq_Cons_conv intro!: f(4))
  moreover have "linked (Suc (Suc (Suc 0))) (padded_link 8 16 [7] [9]) (padded_link 16 8 [9] [7])"
    by (simp add: linked_def l Session_new_def validator_default_def sample_slots)
  moreover have "sessions_ok (t_sessions (padded_link 8 16 [7] [9]))" "sessions_ok (t_sessions (padded_link 16 8 [9] [7]))"
    unfolding l by (auto intro!: sessions_ok_update simp: sample_slots)
  ultimately have "relay sample_env sample_env 75 [sample_packet, [], sample_packet] (padded_link 8 16 [7] [9], \<lambda>i. 1) (padded_link 16 8 [9] [7], \<lambda>i. 2) =
      Some (map delivered [sample_packet, [], sample_packet])"
    using p(1) fr sample_env_ok by (intro tunnel_delivers_stream) (simp_all add: l sample_crypto_ok ip_packet_def [of "[]"] ds_def del: stream_datagrams.simps)
  then show ?thesis
    by (simp add: p(2) delivered_def [of "[]"])
qed

end
