(* ===== verification/Robust.thy ===== *)
theory Robust
  imports Connection
begin

text \<open>
  What a tunnel promises whatever arrives: no datagram and no timer makes a call panic, keys
  are dropped when they are too old, and the state invariant holds in every reachable state.
  The two places where the code falls short of this are stated at the end.
\<close>

section \<open>Deframing returns\<close>

lemma classify_SomeD:
  assumes "classify ks cl d = Some c"
  shows "\<exists>k. c = classified_of (classify_mask ks cl d) (candidate_for cl k) \<and> kind_padding cl k + kind_size k \<le> length d"
proof -
  obtain x where x: "find (candidate_matches (cl_random_trailers cl) (classify_mask ks cl d) d) (classify_checks cl) = Some x"
      "c = classified_of (classify_mask ks cl d) x"
    using assms by (auto simp: classify_def Let_def)
  then have "x \<in> set (classify_checks cl)" "candidate_matches (cl_random_trailers cl) (classify_mask ks cl d) d x"
    by (auto simp: find_Some_iff)
  then obtain k where "x = candidate_for cl k"
    by (auto simp: classify_checks_kinds)
  moreover have "kind_padding cl k + kind_size k \<le> length d" if "candidate_matches b m d (candidate_for cl k)" for b m
    using that by (auto simp: candidate_matches_def candidate_for_eq split: if_splits)
  ultimately show ?thesis
    using x(2) \<open>candidate_matches _ _ _ x\<close> by blast
qed

definition deframed_size :: "deframed \<Rightarrow> nat" where
  "deframed_size x = (case x of Transport p \<Rightarrow> length (pd_encrypted_encapsulated_packet p) | Stripped m \<Rightarrow> length m)"

lemma trim_trailer_le: "length (trim_trailer c p) \<le> length p"
  by (simp add: trim_trailer_def split: option.splits)

lemma deframe_total:
  assumes "framing_ok cl"
  shows "\<exists>x. deframe ks cl d = Some x \<and> deframed_size x \<le> length d"
proof (cases "classify ks cl d")
  case None
  then show ?thesis
    by (auto simp: deframe_def deframed_size_def trim_trailer_def TRANSPORT_HEADER_SZ_def split: option.splits)
next
  case (Some c)
  then obtain k where k: "c = classified_of (classify_mask ks cl d) (candidate_for cl k)" "kind_padding cl k + kind_size k \<le> length d"
    using classify_SomeD by blast
  have size: "16 \<le> kind_size k" "k \<noteq> HK_Transport \<Longrightarrow> kind_size k \<noteq> 16" "0 < kind_size k"
    using kind_size_bounds(4) [of k] by simp_all
  show ?thesis
  proof (cases "cl_header_protection cl")
    case None
    then have "classify_mask ks cl d = None"
      by (simp add: classify_mask_def)
    then have "cd_header_mask c = None" "cd_padding c = kind_padding cl k"
      by (simp_all add: k(1) classified_of_def candidate_for_eq)
    then have "deframe ks cl d = Some (Stripped (trim_trailer (Some c) (drop (kind_padding cl k) d)))"
      using Some None k(2) by (simp add: deframe_def Let_def)
    then show ?thesis
      using trim_trailer_le [of "Some c" "drop (kind_padding cl k) d"] by (simp add: deframed_size_def)
  next
    case (Some key)
    have pad: "HEADER_PROTECTION_NONCE_SIZE \<le> kind_padding cl k"
      using kind_padding_nonce [OF assms] Some by simp
    then have mask: "classify_mask ks cl d \<noteq> None"
      using Some k(2) by (simp add: classify_mask_def HeaderProtection_keystream_eq)
    show ?thesis
    proof (cases "k = HK_Transport")
      case True
      then show ?thesis
        using \<open>classify ks cl d = Some c\<close> mask k size
        by (auto simp: deframe_def deframed_size_def classified_of_def candidate_for_eq trim_trailer_def transport_of_header_def
            TRANSPORT_HEADER_SZ_def Let_def)
    next
      case False
      have "length (trim_trailer (Some c) (drop (kind_padding cl k) d)) \<le> length d"
        using trim_trailer_le [of "Some c" "drop (kind_padding cl k) d"] by simp
      then show ?thesis
        using \<open>classify ks cl d = Some c\<close> Some False k size pad kind_size_bounds(3) [of k]
        by (auto simp: deframe_def deframed_size_def classified_of_def candidate_for_eq HeaderProtection_apply_def
            TRANSPORT_HEADER_SZ_def HANDSHAKE_INIT_SZ_def Let_def)
    qed
  qed
qed

section \<open>Handlers return\<close>

text \<open>A tunnel in good order: its configuration passed the checks and its keys are consistent.\<close>

definition viable :: "env \<Rightarrow> tunn \<Rightarrow> bool" where
  "viable en t \<longleftrightarrow> env_ok en \<and> config_ok t \<and> tunn_ok t \<and> params_ok (en_crypto en) (hs_params (t_handshake t))"

lemma viableD:
  assumes "viable en t"
  shows "crypto_ok (en_crypto en)" "framing_ok (Tunn_classifier t)" "length (np_static_public (hs_params (t_handshake t))) = 32"
    "sessions_ok (t_sessions t)" "timers_ok (t_timers t)" "env_ok en" "config_ok t" "tunn_ok t"
  using assms by (simp_all add: viable_def env_ok_def config_ok_def params_ok_def length_pub tunn_ok_def)

lemma none_false: "x \<noteq> None \<Longrightarrow> (x = None) = False"
  by simp

lemma frame_message_total:
  assumes "framing_ok (Tunn_classifier t)" "padding = kind_padding (Tunn_classifier t) k"
  shows "frame_message en padding msg n t r \<noteq> None"
  using kind_padding_nonce [OF assms(1), of k] length_random_prefix [of padding r] assms(2)
  by (cases "t_header_protection t") (auto simp: frame_message_def HeaderProtection_apply_def split_beta Let_def)

lemma initiation_total:
  assumes "viable en t"
  shows "Tunn_format_handshake_initiation en n force t r \<noteq> None"
proof (cases "is_in_progress (t_handshake t) \<and> \<not> force \<or> s1 t + HANDSHAKE_INIT_SZ > n")
  case True
  then show ?thesis
    by (auto simp: Tunn_format_handshake_initiation_def)
next
  case False
  then show ?thesis
    using Tunn_initiation_sent [of en t n force r] viableD [OF assms] by auto
qed

lemma encapsulate_total:
  assumes "viable en t"
  shows "encapsulate en src n t r \<noteq> None"
proof (cases "t_sessions t ! (t_current t mod N_SESSIONS)")
  case None
  have "viable en (queue_packet src t)"
    using assms by (simp add: viable_def)
  then show ?thesis
    using initiation_total None by (simp add: encapsulate_def)
next
  case (Some a)
  show ?thesis
  proof (cases "s4 t + 32 + length src \<le> n")
    case True
    then show ?thesis
      using encapsulate_wire [OF viableD(1,2) [OF assms] _ Some, of src n r] by auto
  qed (use Some in \<open>simp add: encapsulate_def DATA_OVERHEAD_SZ_def\<close>)
qed

lemma receive_initiation_total:
  assumes "crypto_ok cr" "length (hi_encrypted_static pk) = 48" "length (hi_encrypted_timestamp pk) = 28"
  shows "receive_handshake_initialization cr pk n ty hs r \<noteq> None"
  using read_initiation_total [OF assms, of "hs_params hs"]
  by (auto simp: receive_handshake_initialization_def format_handshake_response_def aead_chacha20_seal_def Let_def split_beta
      split: option.splits sum.splits)

lemma receive_response_total:
  assumes "crypto_ok cr" "length (hp_encrypted_nothing pk) = 16"
  shows "receive_handshake_response cr now pk hs \<noteq> None"
proof -
  have no: "aead_chacha20_open cr 0 k c (hp_encrypted_nothing pk) a = None \<longleftrightarrow> False" for k c a
    using aead_open_total [OF assms(1)] assms(2) by simp
  show ?thesis
    by (auto simp: receive_handshake_response_def no Let_def split_beta split: option.splits sum.splits)
qed

lemma handle_init_total:
  assumes "viable en t" "length (hi_encrypted_static pk) = 48" "length (hi_encrypted_timestamp pk) = 28"
  shows "handle_handshake_init en pk n t r \<noteq> None"
proof -
  note v = viableD [OF assms(1)]
  have "frame_message en (s2 t) msg n (t\<lparr>t_handshake := hs, t_sessions := ss\<rparr>) r1 \<noteq> None" for msg hs ss r1
    using v(2) by (intro frame_message_total [where k = HK_Response]) (simp_all add: kind_padding_tunn)
  note fr = none_false [OF this]
  have "s2 (t\<lparr>t_handshake := hs, t_sessions := ss\<rparr>) = s2 t" for hs ss
    by (simp add: s2_def)
  then show ?thesis
    by (auto simp: handle_handshake_init_def fr none_false [OF receive_initiation_total [OF v(1) assms(2,3)]] split_beta Let_def
        split: option.splits sum.splits)
qed

lemma handle_response_total:
  assumes "viable en t" "length (hp_encrypted_nothing pk) = 16" "keepalive_fits n t"
  shows "handle_handshake_response en pk n t r \<noteq> None"
proof -
  note v = viableD [OF assms(1)]
  have "format_transport_packet en s [] (fst (content_padding_addition 0 n (t\<lparr>t_handshake := hs\<rparr>) r)) n (t\<lparr>t_handshake := hs\<rparr>) r1 \<noteq> None" for s hs r1
  proof -
    let ?t = "t\<lparr>t_handshake := hs\<rparr>"
    have "fst (content_padding_addition 0 n ?t r) \<le> (if t_content_padding t = None then 0 else unat (t_udp_window t))"
      using content_padding_window [of n ?t r] by (auto simp: content_padding_addition_def)
    then have "s4 ?t + 32 + length ([] :: bytes) + fst (content_padding_addition 0 n ?t r) \<le> n"
      using assms(3) by (simp add: keepalive_fits_def s4_def)
    then show ?thesis
      using format_transport_wire [OF v(1), of ?t "[]" "fst (content_padding_addition 0 n ?t r)" n s r1] v(2) by auto
  qed
  note fmt = none_false [OF this]
  show ?thesis
    by (auto simp: handle_handshake_response_def fmt none_false [OF receive_response_total [OF v(1) assms(2)]] split_beta Let_def
        split: option.splits sum.splits)
qed

lemma handle_data_total:
  assumes "tunn_ok t" "length (pd_encrypted_encapsulated_packet p) \<le> n"
  shows "handle_data en p n t \<noteq> None"
proof -
  have rcv: "receive_packet_data cr p n s \<noteq> None" if "session_ok s" for cr s
    using that assms(2) by (auto simp: receive_packet_data_def mark_cases session_ok_def Let_def split: option.splits sum.splits)
  have same: "t_sessions (observe_datagram m t) = t_sessions t" for m
    by (simp add: observe_datagram_def)
  have ok: "session_ok s" if "t_sessions t ! (i mod N_SESSIONS) = Some s" for i s
    using assms(1) sessions_ok_nth [OF _ N_SESSIONS_pos(2) that] by (simp add: tunn_ok_def)
  show ?thesis
  proof (cases "t_sessions t ! (unat (pd_receiver_idx p) mod N_SESSIONS)")
    case (Some s)
    obtain res s' where "receive_packet_data (en_crypto en) p n s = Some (res, s')"
      using rcv [OF ok [OF Some]] by fast
    then show ?thesis
      using Some by (simp add: handle_data_def same Let_def)
  qed (simp add: handle_data_def same Let_def)
qed

text \<open>The packets the parser can build from a message of a given length.\<close>

definition packet_shape :: "nat \<Rightarrow> Packet \<Rightarrow> bool" where
  "packet_shape n p \<longleftrightarrow>
     (case p of
        HandshakeInit i \<Rightarrow> length (hi_encrypted_static i) = 48 \<and> length (hi_encrypted_timestamp i) = 28
      | HandshakeResponse i \<Rightarrow> length (hp_encrypted_nothing i) = 16
      | PacketCookieReply _ \<Rightarrow> True
      | PacketData d \<Rightarrow> length (pd_encrypted_encapsulated_packet d) \<le> n)"

lemma parse_shape: "parse_incoming_packet_config m hc = Ok p \<Longrightarrow> packet_shape (length m) p"
  by (auto simp: parse_incoming_packet_config_def packet_shape_def message_sizes slice_def Let_def split: if_splits)

lemma verify_results:
  assumes "verify_packet cr now addr src n hc dis rl r = (res, rl', r')"
  shows "(\<exists>p. res = Ok p \<and> parse_incoming_packet_config src hc = Ok p) \<or> (\<exists>c. res = Err (WriteToNetwork c)) \<or>
     (\<exists>e. res = Err (ErrResult e))"
  using assms by (auto simp: verify_packet_def split_beta Let_def split: option.splits sum.splits if_splits)

lemma handle_verified_total:
  assumes "viable en t" "keepalive_fits n t" "packet_shape n p"
  shows "handle_verified_packet en p n t r \<noteq> None"
proof (cases p)
  case (PacketCookieReply x)
  then show ?thesis
    by (simp add: handle_verified_packet_def split_beta)
qed (use assms handle_init_total handle_response_total handle_data_total viableD(8) in
      \<open>simp_all add: handle_verified_packet_def packet_shape_def\<close>)

lemma viable_updates [simp]:
  "viable en (t\<lparr>t_rate_limiter := rl\<rparr>) = viable en t"
  by (simp add: viable_def config_ok_def)

lemma dequeue_viable: "viable en t \<Longrightarrow> dequeue_packet t = (p, t') \<Longrightarrow> viable en t'"
  using dequeue_ok [of t p t'] by (auto simp: viable_def config_ok_def dequeue_packet_def split: list.splits)

lemma send_queued_total:
  assumes "viable en t"
  shows "send_queued_packet en n t r \<noteq> None"
proof -
  obtain p t1 where d: "dequeue_packet t = (p, t1)"
    by fastforce
  show ?thesis
  proof (cases p)
    case (Some packet)
    obtain res t2 r2 where "encapsulate en packet n t1 r = Some (res, t2, r2)"
      using encapsulate_total [OF dequeue_viable [OF assms d], of packet n r] by fast
    then show ?thesis
      using d Some by (cases res) (simp_all add: send_queued_packet_def)
  qed (simp add: send_queued_packet_def d)
qed

lemma decapsulate_total:
  assumes "viable en t" "keepalive_fits n t" "length d \<le> n"
  shows "decapsulate en addr d n t r \<noteq> None"
proof (cases "d = []")
  case True
  then show ?thesis
    using send_queued_total [OF assms(1)] by (simp add: decapsulate_def)
next
  case False
  obtain x where x: "deframe (en_keystream en) (Tunn_classifier t) d = Some x" "deframed_size x \<le> length d"
    using deframe_total [OF viableD(2) [OF assms(1)]] by blast
  show ?thesis
  proof (cases x)
    case (Transport p)
    then have "packet_shape n (PacketData p)"
      using x(2) assms(3) by (simp add: packet_shape_def deframed_size_def)
    then show ?thesis
      using handle_verified_total [OF assms(1,2)] False x(1) Transport by (simp add: decapsulate_def)
  next
    case (Stripped m)
    obtain res rl r1 where v: "verify_packet (en_crypto en) (en_now en) addr m COOKIE_REPLY_SZ (t_header_config t)
        (t_disable_cookies t) (t_rate_limiter t) r = (res, rl, r1)"
      by (meson prod_cases3)
    have len: "length m \<le> n"
      using x(2) assms(3) Stripped by (simp add: deframed_size_def)
    have keep: "keepalive_fits n (t\<lparr>t_rate_limiter := rl\<rparr>)"
      using assms(2) by (cases "t_content_padding t") (simp_all add: keepalive_fits_def s4_def)
    have cookie: "frame_message en (s3 (t\<lparr>t_rate_limiter := rl\<rparr>)) c n (t\<lparr>t_rate_limiter := rl\<rparr>) r1 \<noteq> None" for c
      using viableD(2) [OF assms(1)] by (intro frame_message_total [where k = HK_Cookie]) (simp_all add: kind_padding_tunn s3_def kind_padding_def)
    from verify_results [OF v] show ?thesis
    proof (elim disjE exE conjE)
      fix p
      assume p: "res = Ok p" "parse_incoming_packet_config m (t_header_config t) = Ok p"
      then have "packet_shape n p"
        using parse_shape [OF p(2)] len by (auto simp: packet_shape_def split: Packet.splits)
      then show ?thesis
        using handle_verified_total [of en "t\<lparr>t_rate_limiter := rl\<rparr>" n p r1] assms(1) keep False x(1) Stripped v p(1)
        by (simp add: decapsulate_def)
    next
      fix c
      assume "res = Err (WriteToNetwork c)"
      then show ?thesis
        using cookie [of c] False x(1) Stripped v by (auto simp: decapsulate_def Let_def)
    next
      fix e
      assume "res = Err (ErrResult e)"
      then show ?thesis
        using False x(1) Stripped v by (simp add: decapsulate_def)
    qed
  qed
qed

section \<open>Ticks return\<close>

lemma config_ok_of_config: "tunn_config t' = tunn_config t \<Longrightarrow> config_ok t' = config_ok t"
  by (simp add: config_ok_def tunn_config_def Tunn_classifier_def)

lemma viable_timers: "viable en t \<Longrightarrow> timers_ok tm \<Longrightarrow> viable en (t\<lparr>t_timers := tm\<rparr>)"
  by (simp add: viable_def config_ok_def tunn_ok_def)

lemma rekey_checks_total:
  assumes "viable en t" "now = tm_timers (t_timers t) TimeCurrent"
  shows "rekey_checks en now n t r \<noteq> None"
proof -
  note tm = viableD(5) [OF assms(1)]
  obtain a r1 where a: "(if tm_is_initiator (t_timers t) then initiator_rekey now (t_timers t) r else Some (False, r)) = Some (a, r1)"
    using initiator_rekey_total [OF tm assms(2), of r] by (cases "tm_is_initiator (t_timers t)") auto
  obtain b f r2 where b: "silence_rekey now (t_timers t) r1 = Some (b, (t_timers t)\<lparr>tm_want_handshake := f\<rparr>, r2)"
    using silence_rekey_total [OF tm assms(2), of r1] by auto
  let ?tm2 = "(t_timers t)\<lparr>tm_want_handshake := f\<rparr>"
  have tm2: "timers_ok ?tm2" "now = tm_timers ?tm2 TimeCurrent"
    using tm assms(2) by (simp_all add: timers_ok_def)
  obtain c g r3 where c: "passive_keepalive now ?tm2 r2 = Some (c, ?tm2\<lparr>tm_want_keepalive := g\<rparr>, r3)"
    using passive_keepalive_total [OF tm2, of r2] by auto
  let ?tm3 = "?tm2\<lparr>tm_want_keepalive := g\<rparr>"
  have tm3: "timers_ok ?tm3" "now = tm_timers ?tm3 TimeCurrent"
    using tm2 by (simp_all add: timers_ok_def)
  obtain d tm4 r4 where d: "persistent_keepalive_due now ?tm3 r3 = Some (d, tm4, r4)" "timers_ok tm4"
    using persistent_keepalive_total [OF tm3, of r3] by auto
  have "Tunn_format_handshake_initiation en n True (t\<lparr>t_timers := ?tm2\<rparr>) r2 \<noteq> None" "encapsulate en [] n (t\<lparr>t_timers := tm4\<rparr>) r4 \<noteq> None"
    using initiation_total encapsulate_total viable_timers [OF assms(1)] tm2(1) d(2) by blast+
  then show ?thesis
    using a b c d(1) by (simp add: rekey_checks_def keepalive_checks_def)
qed

lemma timer_actions_total:
  assumes "viable en t" "now = tm_timers (t_timers t) TimeCurrent"
  shows "timer_actions en now n t r \<noteq> None"
proof -
  have le: "tm_timers (t_timers t) m \<le> now" for m
    using viableD(5) [OF assms(1)] assms(2) by (simp add: timers_ok_def)
  define c where "c \<longleftrightarrow> has_cookie (t_handshake t) \<and> COOKIE_EXPIRATION_TIME \<le> now - tm_timers (t_timers t) TimeCookieReceived"
  define t1 where "t1 = (if c then t\<lparr>t_handshake := clear_cookie (t_handshake t)\<rparr> else t)"
  have "viable en (t\<lparr>t_handshake := clear_cookie (t_handshake t)\<rparr>)"
    using assms(1) put_handshake_ok [OF viableD(8) [OF assms(1)] hs_step.forget] by (simp add: viable_def clear_cookie_def)
  then have v: "viable en t1" "t_timers t1 = t_timers t"
    using assms(1) by (simp_all add: t1_def)
  have "Tunn_format_handshake_initiation en n True t1 r \<noteq> None" "rekey_checks en now n t1 r \<noteq> None"
    using initiation_total [OF v(1)] rekey_checks_total [OF v(1)] assms(2) v(2) by simp_all
  then show ?thesis
    by (cases c) (auto simp: timer_actions_def due_total le c_def [symmetric] t1_def connection_expired_def Let_def
        split: option.splits)
qed

lemma update_timers_total:
  assumes "viable en t" "clock_ok en t"
  shows "update_timers en n t r \<noteq> None"
proof -
  note v = viableD [OF assms(1)]
  note u = update_timers_eq [OF v(8) assms(2)]
  let ?t = "after_expiry en t" and ?now = "en_now en - tm_time_started (t_timers t)"
  have "tunn_config ?t = tunn_config t" "tunn_ok ?t"
    using u(2) by (simp_all add: keeps_def)
  then have vt: "viable en ?t"
    using assms(1) u(5) config_ok_of_config [of ?t t] by (simp add: viable_def)
  show ?thesis
    using u(1) timer_actions_total [OF vt u(4) [symmetric]] by simp
qed

section \<open>Old keys are dropped\<close>

lemma initiation_sessions:
  "Tunn_format_handshake_initiation en n force t r = Some (res, t', r') \<Longrightarrow> t_sessions t' = t_sessions t"
  by (erule Tunn_initiation_cases) (auto simp: timer_tick_def)

lemma encapsulate_empty_slot:
  assumes "encapsulate en src n t r = Some (res, t', r')" "t_sessions t ! i = None" "i < length (t_sessions t)"
  shows "t_sessions t' ! i = None"
  using assms(1)
proof (cases rule: encapsulate_cases)
  case (sent s t1 pad r1 packet s' t2)
  then have "t_sessions t' = (t_sessions t)[t_current t mod N_SESSIONS := Some s']"
    by (simp add: timer_tick_def)
  then show ?thesis
    using sent(1) assms(2,3) by (cases "i = t_current t mod N_SESSIONS") simp_all
next
  case queued
  then show ?thesis
    using initiation_sessions [OF queued(2)] assms(2) by simp
qed (use assms in simp)

lemma clear_all_sessions: "t_sessions (clear_all en t) = map (\<lambda>_. None) (t_sessions t)" "t_packet_queue (clear_all en t) = []"
  by (simp_all add: clear_all_def)

lemma timer_actions_empty_slot:
  assumes "timer_actions en now n t r = Some (res, t', r')" "tunn_ok t" "clock_ok en t" "now = tm_timers (t_timers t) TimeCurrent"
    and "t_sessions t ! i = None" "i < N_SESSIONS"
  shows "t_sessions t' ! i = None"
  using assms(1-4)
proof (cases rule: timer_actions_cases)
  case (expired t1)
  then have "length (t_sessions t1) = N_SESSIONS" "t_sessions t' = map (\<lambda>_. None) (t_sessions t1)"
    by (auto simp: keeps_def tunn_ok_def sessions_ok_def connection_expired_def clear_all_sessions)
  then show ?thesis
    using assms(6) by simp
next
  case (initiate t1 r1)
  then show ?thesis
    using initiation_sessions [OF initiate(3)] assms(5) by simp
next
  case (keepalive t1 r1)
  then have "length (t_sessions t1) = N_SESSIONS"
    by (simp add: keeps_def tunn_ok_def sessions_ok_def)
  then show ?thesis
    using encapsulate_empty_slot [OF keepalive(3), of i] keepalive(4) assms(5,6) by simp
qed (use assms(5) in simp)

lemma expired_slot_empty:
  assumes "tunn_ok t" "i < N_SESSIONS" "reject_after_time (t_timers t) < now - tm_session_timers (t_timers t) ! i"
  shows "expired_slots now t ! i = None"
  using assms by (simp add: expired_slots_def tunn_ok_def sessions_ok_def timers_ok_def)

section \<open>Properties\<close>

text \<open>
  C7. No datagram makes a tunnel panic: for any bytes from the network, from any address, a
  tunnel in good order returns a result, when its buffer is no shorter than the datagram and
  holds a keepalive with the largest content padding.
\<close>

theorem decapsulate_never_panics:
  assumes "viable en t" "keepalive_fits n t" "length datagram \<le> n"
  shows "\<exists>res t' r'. decapsulate en addr datagram n t r = Some (res, t', r')"
  using decapsulate_total [OF assms, of addr r] by auto

lemma new_clock: "new_with_amnezia3 en priv peer psk ka idx rl am r = (Ok t, r') \<Longrightarrow> clock_ok en' t"
  by (auto simp: new_with_amnezia3_def clock_ok_def Timers_new_def split_beta Let_def split: sum.splits)

lemma new_timers:
  assumes "new_with_amnezia3 en priv peer psk ka idx rl am r = (Ok t, r')"
  shows "tm_time_started (t_timers t) = en_now en" "tm_session_timers (t_timers t) = replicate N_SESSIONS 0"
    "tm_timing_ranges (t_timers t) = a3_timing_ranges am" "tm_timers (t_timers t) m = 0"
  using assms by (auto simp: new_with_amnezia3_def Timers_new_def split_beta Let_def split: sum.splits)

lemma new_mtu: "new_with_amnezia3 en priv peer psk ka idx rl am r = (Ok t, r') \<Longrightarrow> t_mtu t = a3_mtu am"
  by (auto simp: new_with_amnezia3_def split_beta Let_def split: sum.splits)

lemma sample_tunn_viable: "viable sample_env (sample_tunn mine theirs idx)" "keepalive_fits 148 (sample_tunn mine theirs idx)"
proof -
  obtain r' where new: "new_with_amnezia3 sample_env mine (cr_pub sample_crypto theirs) (Some [1, 2]) None idx None Amnezia3Config_default (\<lambda>i. 4) =
      (Ok (sample_tunn mine theirs idx), r')"
    using sample_tunn_new by blast
  show "viable sample_env (sample_tunn mine theirs idx)" "keepalive_fits 148 (sample_tunn mine theirs idx)"
    using sample_tunn_ready [of mine theirs idx] new_ok [OF new] sample_env_ok by (simp_all add: ready_def viable_def)
qed

theorem decapsulate_never_panics_witness:
  "\<exists>res t' r'. decapsulate sample_env None (replicate 100 7) 148 (sample_tunn [3] [4] 1) (\<lambda>i. 9) = Some (res, t', r')"
  using decapsulate_never_panics [OF sample_tunn_viable, of "replicate 100 7"] by simp

text \<open>
  C22. The other calls return too, also where their documentation announces a panic: sending, an
  explicit initiation and a timer tick give a result on every tunnel in good order, for every
  packet, buffer size and random choice, when the clock has not run backwards. A buffer that is
  too small gives the error \<open>DestinationBufferTooSmall\<close>: for a data packet nothing else changes, and
  for an initiation the packet is queued.
\<close>

theorem tunnel_calls_return:
  assumes "viable en t" "clock_ok en t"
  shows "(\<exists>res t' r'. encapsulate en src n t r = Some (res, t', r')) \<and>
    (\<exists>res t' r'. Tunn_format_handshake_initiation en n force t r = Some (res, t', r')) \<and>
    (\<exists>res t' r'. update_timers en n t r = Some (res, t', r')) \<and>
    (t_sessions t ! (t_current t mod N_SESSIONS) \<noteq> None \<and> n < s4 t + DATA_OVERHEAD_SZ + length src \<longrightarrow>
       encapsulate en src n t r = Some (ErrResult DestinationBufferTooSmall, t, r)) \<and>
    (t_sessions t ! (t_current t mod N_SESSIONS) = None \<and> \<not> is_in_progress (t_handshake t) \<and> n < s1 t + HANDSHAKE_INIT_SZ \<longrightarrow>
       encapsulate en src n t r = Some (ErrResult DestinationBufferTooSmall, queue_packet src t, r))"
proof -
  have "encapsulate en src n t r = Some (ErrResult DestinationBufferTooSmall, t, r)"
    if "t_sessions t ! (t_current t mod N_SESSIONS) \<noteq> None" "n < s4 t + DATA_OVERHEAD_SZ + length src"
    using that by (auto simp: encapsulate_def)
  moreover have "encapsulate en src n t r = Some (ErrResult DestinationBufferTooSmall, queue_packet src t, r)"
    if "t_sessions t ! (t_current t mod N_SESSIONS) = None" "\<not> is_in_progress (t_handshake t)" "n < s1 t + HANDSHAKE_INIT_SZ"
    using that by (simp add: encapsulate_def Tunn_format_handshake_initiation_def)
  ultimately show ?thesis
    using encapsulate_total [OF assms(1), of src n r] initiation_total [OF assms(1), of n force r]
      update_timers_total [OF assms, of n r] by auto
qed

theorem tunnel_calls_return_witness:
  "(\<exists>res t' r'. update_timers sample_env 100 (sample_tunn [3] [4] 1) (\<lambda>i. 9) = Some (res, t', r')) \<and>
   encapsulate sample_env [0x45] 147 (sample_tunn [3] [4] 1) (\<lambda>i. 9) =
     Some (ErrResult DestinationBufferTooSmall, queue_packet [0x45] (sample_tunn [3] [4] 1), \<lambda>i. 9)"
proof -
  obtain r' where new: "new_with_amnezia3 sample_env [3] (cr_pub sample_crypto [4]) (Some [1, 2]) None 1 None Amnezia3Config_default (\<lambda>i. 4) =
      (Ok (sample_tunn [3] [4] 1), r')"
    using sample_tunn_new by blast
  have "clock_ok sample_env (sample_tunn [3] [4] 1)"
    by (rule new_clock [OF new])
  moreover have "t_sessions (sample_tunn [3] [4] 1) ! (t_current (sample_tunn [3] [4] 1) mod N_SESSIONS) = None"
      "\<not> is_in_progress (t_handshake (sample_tunn [3] [4] 1))" "147 < s1 (sample_tunn [3] [4] 1) + HANDSHAKE_INIT_SZ"
    using new_fields [OF new] by (simp_all add: Handshake_new_def is_in_progress_def HANDSHAKE_INIT_SZ_def)
  ultimately show ?thesis
    using tunnel_calls_return [OF sample_tunn_viable(1), of "[3]" "[4]" 1 "[0x45]" 147 "\<lambda>i. 9"]
      tunnel_calls_return [OF sample_tunn_viable(1), of "[3]" "[4]" 1 "[0x45]" 100 "\<lambda>i. 9"] by blast
qed

text \<open>
  C11. In every state a tunnel can reach from its construction by any calls, each session is in
  the slot of its index and has a well-formed replay window, at most 256 packets are queued, no
  timer is ahead of the current time, the pending initiations have different indices, and the
  configuration, apart from the MTU, which has a setter, is the one it was created with.
\<close>

theorem tunnel_invariant:
  assumes "new_with_amnezia3 en priv peer psk ka idx rl am r = (Ok t, r')" "tunn_step\<^sup>*\<^sup>* t t'"
  shows "tunn_ok t' \<and> tunn_config t' = tunn_config t"
  using tunn_steps_keep [OF assms(2) new_ok [OF assms(1)]] by (simp add: keeps_def)

theorem tunnel_invariant_witness:
  "tunn_ok (set_mtu 1280 (sample_tunn [3] [4] 1)) \<and> tunn_config (set_mtu 1280 (sample_tunn [3] [4] 1)) = tunn_config (sample_tunn [3] [4] 1)"
proof -
  obtain r' where new: "new_with_amnezia3 sample_env [3] (cr_pub sample_crypto [4]) (Some [1, 2]) None 1 None Amnezia3Config_default (\<lambda>i. 4) =
      (Ok (sample_tunn [3] [4] 1), r')"
    using sample_tunn_new by blast
  have "tunn_step\<^sup>*\<^sup>* (sample_tunn [3] [4] 1) (set_mtu 1280 (sample_tunn [3] [4] 1))"
    using tunn_step.mtu by (rule r_into_rtranclp [where r = tunn_step])
  then show ?thesis
    by (rule tunnel_invariant [OF new])
qed

text \<open>
  C24. Session keys do not outlive the rejection time: after a timer tick, whatever it did, no
  slot holds a session that was older than the configured rejection time.
\<close>

theorem stale_sessions_dropped:
  assumes "tunn_ok t" "clock_ok en t" "update_timers en n t r = Some (res, t', r')" "i < N_SESSIONS"
    and "reject_after_time (t_timers t) < en_now en - tm_time_started (t_timers t) - tm_session_timers (t_timers t) ! i"
  shows "t_sessions t' ! i = None"
proof -
  note u = update_timers_eq [OF assms(1,2)]
  let ?now = "en_now en - tm_time_started (t_timers t)"
  have slot: "t_sessions (after_expiry en t) ! i = None"
    using expired_slot_empty [OF assms(1,4,5)] by (simp add: after_expiry_def Let_def)
  show ?thesis
  proof (cases "is_expired (t_handshake t)")
    case True
    then show ?thesis
      using assms(3) u(1) slot by simp
  next
    case False
    then have "timer_actions en ?now n (after_expiry en t) r = Some (res, t', r')"
      using assms(3) u(1) by simp
    then show ?thesis
      using timer_actions_empty_slot [OF _ _ u(3) u(4) [symmetric] slot assms(4)] u(2) by (simp add: keeps_def)
  qed
qed

text \<open>The sample tunnel with a session, ticked after 200 seconds.\<close>

definition sample_later :: env where
  "sample_later = sample_env\<lparr>en_now := 200 * 10 ^ 9\<rparr>"

theorem stale_sessions_dropped_witness:
  "\<exists>res t' r'. update_timers sample_later 148 (sample_link 8 16 [7] [9]) (\<lambda>i. 9) = Some (res, t', r') \<and>
     t_sessions (sample_link 8 16 [7] [9]) ! 0 \<noteq> None \<and> t_sessions t' ! 0 = None"
proof -
  obtain r' where new: "new_with_amnezia3 sample_env [3] (cr_pub sample_crypto [4]) (Some [1, 2]) None 1 None Amnezia3Config_default (\<lambda>i. 4) =
      (Ok (sample_tunn [3] [4] 1), r')"
    using sample_tunn_new by blast
  let ?t = "sample_link 8 16 [7] [9]"
  have "sessions_ok (t_sessions ?t)"
    by (auto intro!: sessions_ok_update simp: sample_link_def sample_slots)
  then have ok: "tunn_ok ?t" "clock_ok sample_later ?t"
    using new_ok [OF new] new_clock [OF new, of sample_later] by (simp_all add: tunn_ok_def sample_link_def clock_ok_def)
  have "viable sample_later ?t"
    using sample_tunn_viable(1) [of "[3]" "[4]" 1] ok(1)
    by (simp add: viable_def sample_link_def config_ok_def sample_later_def env_ok_def)
  from update_timers_total [OF this ok(2), of 148 "\<lambda>i. 9"] obtain res t' r1 where
    run: "update_timers sample_later 148 ?t (\<lambda>i. 9) = Some (res, t', r1)"
    by auto
  have "tm_time_started (t_timers ?t) = 7" "tm_session_timers (t_timers ?t) = replicate N_SESSIONS 0"
      "tm_timing_ranges (t_timers ?t) = TimingRanges_default"
    using new_timers [OF new] by (simp_all add: sample_link_def sample_env_def default_config_facts Amnezia3Config_default_def)
  moreover have "unat (U32Range_hi_or U32Range_zero REJECT_AFTER_TIME_SECS) = 180"
    by code_simp
  ultimately have "reject_after_time (t_timers ?t) < en_now sample_later - tm_time_started (t_timers ?t) - tm_session_timers (t_timers ?t) ! 0"
    by (simp add: reject_after_time_def sample_later_def TimingRanges_default_def from_secs_def)
  with stale_sessions_dropped [OF ok run, of 0] run show ?thesis
    by (auto simp: sample_link_def)
qed

text \<open>
  C23. A tunnel that hears nothing expires: when three times the rejection time has passed since
  the last session was established, a tick reports the expiry, erases every session and drops
  the queued packets.
\<close>

theorem silent_tunnel_expires:
  assumes "tunn_ok t" "clock_ok en t" "\<not> is_expired (t_handshake t)"
    and "reject_after_time (t_timers t) * 3 \<le> en_now en - tm_time_started (t_timers t) - tm_timers (t_timers t) TimeSessionEstablished"
  shows "\<exists>t' r'. update_timers en n t r = Some (ErrResult ConnectionExpired, t', r') \<and> is_expired (t_handshake t') \<and>
     t_sessions t' = replicate N_SESSIONS None \<and> t_packet_queue t' = []"
proof -
  note u = update_timers_eq [OF assms(1,2)]
  let ?t = "after_expiry en t" and ?now = "en_now en - tm_time_started (t_timers t)"
  have ok: "tunn_ok ?t"
    using u(2) by (simp add: keeps_def)
  have le: "tm_timers (t_timers ?t) m \<le> ?now" for m
    using ok u(4) by (simp add: tunn_ok_def timers_ok_def)
  have "tm_timers (t_timers ?t) TimeSessionEstablished = tm_timers (t_timers t) TimeSessionEstablished"
      "reject_after_time (t_timers ?t) = reject_after_time (t_timers t)"
    by (simp_all add: after_expiry_def Let_def at_tick_def reject_after_time_def)
  moreover define t1 where "t1 = (if has_cookie (t_handshake ?t) \<and>
      COOKIE_EXPIRATION_TIME \<le> ?now - tm_timers (t_timers ?t) TimeCookieReceived
    then ?t\<lparr>t_handshake := clear_cookie (t_handshake ?t)\<rparr> else ?t)"
  ultimately have "timer_actions en ?now n ?t r = connection_expired en t1 r"
    using assms(4) le [of TimeSessionEstablished] by (simp add: timer_actions_def due_total le Let_def)
  moreover have "t_sessions t1 = t_sessions ?t"
    by (simp add: t1_def)
  moreover have "length (t_sessions ?t) = N_SESSIONS"
    using ok by (simp add: tunn_ok_def sessions_ok_def)
  ultimately show ?thesis
    using u(1) assms(3) by (simp add: connection_expired_def clear_all_sessions map_replicate_const) (simp add: clear_all_def set_expired_def is_expired_def)
qed

theorem silent_tunnel_expires_witness:
  "\<exists>t' r'. update_timers (sample_env\<lparr>en_now := 600 * 10 ^ 9\<rparr>) 148 (sample_tunn [3] [4] 1) (\<lambda>i. 9) =
      Some (ErrResult ConnectionExpired, t', r') \<and> t_sessions t' = replicate N_SESSIONS None"
proof -
  obtain r' where new: "new_with_amnezia3 sample_env [3] (cr_pub sample_crypto [4]) (Some [1, 2]) None 1 None Amnezia3Config_default (\<lambda>i. 4) =
      (Ok (sample_tunn [3] [4] 1), r')"
    using sample_tunn_new by blast
  have hs: "\<not> is_expired (t_handshake (sample_tunn [3] [4] 1))"
    by (simp add: new_fields(8) [OF new] Handshake_new_def is_expired_def)
  have "unat (U32Range_hi_or U32Range_zero REJECT_AFTER_TIME_SECS) = 180"
    by code_simp
  then have "reject_after_time (t_timers (sample_tunn [3] [4] 1)) = 180 * 10 ^ 9"
    by (simp add: reject_after_time_def new_timers [OF new] Amnezia3Config_default_def TimingRanges_default_def from_secs_def)
  then show ?thesis
    using silent_tunnel_expires [OF new_ok [OF new] new_clock [OF new] hs, of "sample_env\<lparr>en_now := 600 * 10 ^ 9\<rparr>" 148 "\<lambda>i. 9"]
    by (auto simp: new_timers [OF new] sample_env_def)
qed

text \<open>
  C31. Retrying a queued packet can duplicate it: without a session the retry queues the packet
  behind the others, and when the initiation does not fit the buffer the packet is put back in
  front as well, so that one packet is queued twice.
\<close>

theorem send_queued_duplicates:
  assumes "t_packet_queue t = packet # rest" "Suc (length rest) < MAX_QUEUE_DEPTH"
    and "t_sessions t ! (t_current t mod N_SESSIONS) = None" "\<not> is_in_progress (t_handshake t)" "n < s1 t + HANDSHAKE_INIT_SZ"
  shows "\<exists>t'. send_queued_packet en n t r = Some (Done, t', r) \<and> t_packet_queue t' = packet # rest @ [packet]"
  using assms by (simp add: send_queued_packet_def dequeue_packet_def encapsulate_def Tunn_format_handshake_initiation_def
      queue_packet_def requeue_packet_def s1_def)

theorem send_queued_duplicates_witness:
  "\<exists>t'. decapsulate sample_env None [] 100 ((sample_tunn [3] [4] 1)\<lparr>t_packet_queue := [[0x45]]\<rparr>) (\<lambda>i. 9) = Some (Done, t', \<lambda>i. 9) \<and>
     t_packet_queue t' = [[0x45], [0x45]]"
proof -
  obtain r' where new: "new_with_amnezia3 sample_env [3] (cr_pub sample_crypto [4]) (Some [1, 2]) None 1 None Amnezia3Config_default (\<lambda>i. 4) =
      (Ok (sample_tunn [3] [4] 1), r')"
    using sample_tunn_new by blast
  note f = new_fields [OF new]
  let ?t = "(sample_tunn [3] [4] 1)\<lparr>t_packet_queue := [[0x45]]\<rparr>"
  have "t_packet_queue ?t = [0x45] # []" "Suc (length ([] :: bytes list)) < MAX_QUEUE_DEPTH"
      "t_sessions ?t ! (t_current ?t mod N_SESSIONS) = None" "\<not> is_in_progress (t_handshake ?t)" "100 < s1 ?t + HANDSHAKE_INIT_SZ"
    by (simp_all add: f Handshake_new_def is_in_progress_def MAX_QUEUE_DEPTH_def s1_def HANDSHAKE_INIT_SZ_def)
  from send_queued_duplicates [OF this, of sample_env "\<lambda>i. 9"] show ?thesis
    by (simp add: decapsulate_def)
qed

text \<open>
  C32. The first keepalive can panic: the padding drawn for it is bounded by the buffer and not by
  what the prefix and the overhead leave of it, so that a valid response makes the call panic
  although the buffer holds an unpadded keepalive.
\<close>

theorem keepalive_padding_panics:
  assumes "receive_handshake_response (en_crypto en) (en_now en) p (t_handshake t) = Some (Ok s, hs)"
    and "s4 t + DATA_OVERHEAD_SZ \<le> n" "content_padding_addition 0 n (t\<lparr>t_handshake := hs\<rparr>) r = (pad, r')"
    and "n < s4 t + DATA_OVERHEAD_SZ + pad"
  shows "handle_verified_packet en (HandshakeResponse p) n t r = None"
proof -
  have "n - s4 t < pad + DATA_OVERHEAD_SZ" "s4 (t\<lparr>t_handshake := hs\<rparr>) = s4 t"
    using assms(2,4) by (auto simp: s4_def)
  with assms show ?thesis
    by (simp add: handle_verified_packet_def handle_handshake_response_def format_transport_packet_def format_packet_data_def
        split_beta Let_def)
qed

text \<open>A tunnel with a content padding of 100 bytes and a pending initiation, and the response to it.\<close>

theorem keepalive_padding_panics_witness:
  "\<exists>rp hs. handle_verified_packet sample_env (HandshakeResponse rp) 100
       ((sample_tunn [3] [4] 1)\<lparr>t_handshake := hs, t_content_padding := Some \<lparr>ur_lo = 100, ur_hi = 100\<rparr>\<rparr>) (\<lambda>i. 0) = None"
proof -
  obtain r' where new: "new_with_amnezia3 sample_env [3] (cr_pub sample_crypto [4]) (Some [1, 2]) None 1 None Amnezia3Config_default (\<lambda>i. 4) =
      (Ok (sample_tunn [3] [4] 1), r')"
    using sample_tunn_new by blast
  obtain msg pk st hsA r1 where i: "format_handshake_initiation sample_crypto 7 148 1 (sample_peer [3] [4] 256) (\<lambda>i. 5) = Some (Ok msg, hsA, r1)"
      "hs_state hsA = InitSent st" "hs_params hsA = hs_params (sample_peer [3] [4] 256)"
      "initiation_fits sample_crypto (hs_params (sample_peer [4] [3] 512)) (fst (fill_bytes 32 (\<lambda>i. 5)))
         (stamp_time 7 (hs_stamper (sample_peer [3] [4] 256))) pk st"
    using sample_initiation [of 256] by blast
  have "pending_initiation hsA (is_local_index st) = Some (st, False)"
    using i(2) by (simp add: pending_initiation_def awaited_def)
  from response_agreement [OF sample_crypto_ok _ sample_peers(1) [of "[4]" "[3]" 512] _ i(4) _ this, where dst_len = 92 and now = 7 and ty = 2 and r = "\<lambda>i. 9"]
  obtain rp a hsA' where resp: "receive_handshake_response sample_crypto 7 rp hsA = Some (Ok a, hsA')"
    using i(3) sample_peers sample_peer_clock by (auto simp: HANDSHAKE_RESP_SZ_def)
  let ?t = "(sample_tunn [3] [4] 1)\<lparr>t_handshake := hsA, t_content_padding := Some \<lparr>ur_lo = 100, ur_hi = 100\<rparr>\<rparr>"
  have s4: "s4 ?t = 0"
    by (simp add: s4_def new_fields(3) [OF new] default_config_facts)
  have "fst (U32Range_generate \<lparr>ur_lo = 100, ur_hi = 100\<rparr> (\<lambda>i. 0)) = 100"
    by code_simp
  then have "fst (content_padding_addition 0 100 (?t\<lparr>t_handshake := hsA'\<rparr>) (\<lambda>i. 0)) = 100"
    using new_mtu [OF new] new_fields(9) [OF new]
    by (simp add: content_padding_addition_def split_beta Let_def AWG31_DEFAULT_UDP_WINDOW_def Amnezia3Config_default_def AWG3_DEFAULT_MTU_def)
  then obtain r2 where pad: "content_padding_addition 0 100 (?t\<lparr>t_handshake := hsA'\<rparr>) (\<lambda>i. 0) = (100, r2)"
    by (metis prod.collapse)
  have "receive_handshake_response (en_crypto sample_env) (en_now sample_env) rp (t_handshake ?t) = Some (Ok a, hsA')"
    using resp by (simp add: sample_env_def)
  from keepalive_padding_panics [OF this _ pad] show ?thesis
    unfolding s4 DATA_OVERHEAD_SZ_def by auto
qed

end
