(* ===== verification/PeerIndex.thy ===== *)
theory PeerIndex
  imports Prelude
begin

text \<open>
  The generator of peer indices of \<open>device/mod.rs\<close>: a 24-bit shift register whose values are
  spread by a mask. \<^const>\<open>None\<close> is the failed assertion that too many peers were created.
\<close>

definition LFSR_MAX :: u32 where "LFSR_MAX = 0xFFFFFF"
definition LFSR_POLY :: u32 where "LFSR_POLY = 0xD80000"

record index_lfsr =
  lf_initial :: u32
  lf_lfsr :: u32
  lf_mask :: u32

text \<open>The loop draws until a value is not zero; on a tape without one it does not return.\<close>

partial_function (option) random_index :: "rng \<Rightarrow> (u32 \<times> rng) option" where
  "random_index r =
     (let (bs, r) = fill_bytes 4 r; i = of_le_bytes bs AND LFSR_MAX in
      if i > 0 then Some (i, r) else random_index r)"

definition lfsr_shift :: "u32 \<Rightarrow> u32" where
  "lfsr_shift l = drop_bit 1 l XOR ((0 - (l AND 1)) AND LFSR_POLY)"

definition IndexLfsr_next :: "index_lfsr \<Rightarrow> (u32 \<times> index_lfsr) option" where
  "IndexLfsr_next s =
     (let v = lf_lfsr s - 1; s = s\<lparr>lf_lfsr := lfsr_shift (lf_lfsr s)\<rparr> in
      if lf_lfsr s = lf_initial s then None else Some (v XOR lf_mask s, s))"

definition IndexLfsr_default :: "rng \<Rightarrow> (index_lfsr \<times> rng) option" where
  "IndexLfsr_default r =
     Option.bind (random_index r) (\<lambda>(seed, r).
     Option.bind (random_index r) (\<lambda>(mk, r).
     Some (\<lparr>lf_initial = seed, lf_lfsr = seed, lf_mask = mk\<rparr>, r)))"

text \<open>The indices of a run of calls.\<close>

fun take_lfsr :: "nat \<Rightarrow> index_lfsr \<Rightarrow> (u32 list \<times> index_lfsr) option" where
  "take_lfsr 0 s = Some ([], s)"
| "take_lfsr (Suc n) s =
     Option.bind (IndexLfsr_next s) (\<lambda>(i, s). map_option (\<lambda>(is, s). (i # is, s)) (take_lfsr n s))"

section \<open>The shift\<close>

definition lfsr_ok :: "u32 \<Rightarrow> bool" where
  "lfsr_ok l \<longleftrightarrow> l \<noteq> 0 \<and> take_bit 24 l = l"

lemma lfsr_shift_alt: "lfsr_shift l = drop_bit 1 l XOR (if bit l 0 then LFSR_POLY else 0)"
proof (cases "bit l 0")
  case True
  then have "l AND 1 = 1" by (simp add: and_one_eq bit_0 odd_iff_mod_2_eq_one)
  with True show ?thesis by (simp add: lfsr_shift_def)
next
  case False
  then have "l AND 1 = 0" by (simp add: and_one_eq bit_0 even_iff_mod_2_eq_zero)
  with False show ?thesis by (simp add: lfsr_shift_def)
qed

lemma xor_right_cancel: "a XOR m = b XOR m \<Longrightarrow> a = b" for a b m :: "'a::len word"
  by (metis xor.assoc xor.right_neutral xor_self_eq)

lemma LFSR_POLY_bits: "bit LFSR_POLY 23" "take_bit 24 LFSR_POLY = LFSR_POLY"
  by (code_simp, code_simp)

lemma lfsr_high_bit: "take_bit 24 l = l \<Longrightarrow> \<not> bit l 24" for l :: u32
  by (metis bit_take_bit_iff less_irrefl)

text \<open>The top bit of the shifted register tells the bit that was shifted out.\<close>

lemma lfsr_shift_top: "lfsr_ok l \<Longrightarrow> bit (lfsr_shift l) 23 = bit l 0"
  using lfsr_high_bit [of l] LFSR_POLY_bits(1) by (simp add: lfsr_shift_alt lfsr_ok_def bit_xor_iff bit_drop_bit_eq)

lemma lfsr_shift_ok:
  assumes "lfsr_ok l"
  shows "lfsr_ok (lfsr_shift l)"
proof -
  have "take_bit 25 (take_bit 24 l) = take_bit 24 l"
    unfolding take_bit_take_bit by simp
  moreover have "take_bit 24 l = l"
    using assms by (simp add: lfsr_ok_def)
  ultimately have "take_bit 25 l = l" by simp
  then have "take_bit 24 (drop_bit 1 l) = drop_bit 1 l"
    by (simp add: take_bit_drop_bit)
  then have "take_bit 24 (lfsr_shift l) = lfsr_shift l"
    using LFSR_POLY_bits(2) by (simp add: lfsr_shift_alt)
  moreover have "lfsr_shift l \<noteq> 0"
  proof (cases "bit l 0")
    case True
    then show ?thesis using lfsr_shift_top [OF assms] by auto
  next
    case False
    then have "lfsr_shift l = drop_bit 1 l" by (simp add: lfsr_shift_alt)
    moreover have "drop_bit 1 l \<noteq> 0"
    proof
      assume "drop_bit 1 l = 0"
      have "\<not> bit l (Suc n)" for n
      proof -
        have "bit l (Suc n) = bit (drop_bit 1 l) n" by (simp add: bit_drop_bit_eq)
        then show ?thesis using \<open>drop_bit 1 l = 0\<close> by simp
      qed
      then have "\<not> bit l n" for n using False by (cases n) simp_all
      then have "l = 0" by (intro bit_eqI) simp
      with assms show False by (simp add: lfsr_ok_def)
    qed
    ultimately show ?thesis by simp
  qed
  ultimately show ?thesis by (simp add: lfsr_ok_def)
qed

lemma lfsr_shift_inj:
  assumes "lfsr_ok l" "lfsr_ok m" "lfsr_shift l = lfsr_shift m"
  shows "l = m"
proof (rule bit_eqI)
  have low: "bit l 0 = bit m 0"
    using lfsr_shift_top [OF assms(1)] lfsr_shift_top [OF assms(2)] assms(3) by simp
  then have "drop_bit 1 l = drop_bit 1 m"
  proof -
    define q where "q = (if bit m 0 then LFSR_POLY else 0)"
    have "drop_bit 1 l XOR q = drop_bit 1 m XOR q"
      using assms(3) low by (simp add: lfsr_shift_alt q_def)
    then show ?thesis by (rule xor_right_cancel)
  qed
  then have "bit l (Suc n) = bit m (Suc n)" for n
  proof -
    have "bit (drop_bit 1 l) n = bit (drop_bit 1 m) n" using \<open>drop_bit 1 l = drop_bit 1 m\<close> by simp
    then show ?thesis by (simp add: bit_drop_bit_eq)
  qed
  with low show "bit l n = bit m n" for n by (cases n) simp_all
qed

lemma lfsr_power_ok: "lfsr_ok l \<Longrightarrow> lfsr_ok ((lfsr_shift ^^ n) l)"
  by (induction n) (simp_all add: lfsr_shift_ok)

lemma lfsr_power_cancel: "lfsr_ok l \<Longrightarrow> (lfsr_shift ^^ (i + k)) l = (lfsr_shift ^^ i) l \<Longrightarrow> (lfsr_shift ^^ k) l = l"
proof (induction i)
  case (Suc i)
  then have "lfsr_shift ((lfsr_shift ^^ (i + k)) l) = lfsr_shift ((lfsr_shift ^^ i) l)" by simp
  then have "(lfsr_shift ^^ (i + k)) l = (lfsr_shift ^^ i) l"
    by (rule lfsr_shift_inj [OF lfsr_power_ok [OF Suc.prems(1)] lfsr_power_ok [OF Suc.prems(1)]])
  then show ?case using Suc by simp
qed simp

lemma take_lfsr_spec:
  assumes "take_lfsr n s = Some (xs, s')" "l = lf_lfsr s"
  shows "xs = map (\<lambda>k. ((lfsr_shift ^^ k) l - 1) XOR lf_mask s) [0..<n] \<and>
    s' = s\<lparr>lf_lfsr := (lfsr_shift ^^ n) l\<rparr> \<and> (\<forall>k. 0 < k \<and> k \<le> n \<longrightarrow> (lfsr_shift ^^ k) l \<noteq> lf_initial s)"
  using assms
proof (induction n arbitrary: s xs l)
  case (Suc n)
  define s1 where "s1 = s\<lparr>lf_lfsr := lfsr_shift l\<rparr>"
  obtain ys where ys: "take_lfsr n s1 = Some (ys, s')" "xs = ((l - 1) XOR lf_mask s) # ys" "lfsr_shift l \<noteq> lf_initial s"
    using Suc.prems by (auto simp: IndexLfsr_next_def s1_def Let_def bind_eq_Some_conv split: if_splits)
  note IH = Suc.IH [OF ys(1) refl]
  have shift: "(lfsr_shift ^^ k) (lfsr_shift l) = (lfsr_shift ^^ Suc k) l" for k
    by (simp add: funpow_swap1)
  have "[0..<Suc n] = 0 # map Suc [0..<n]"
    by (simp only: map_Suc_upt upt_conv_Cons zero_less_Suc)
  moreover have "(lfsr_shift ^^ k) l \<noteq> lf_initial s" if "0 < k" "k \<le> Suc n" for k
  proof (cases k)
    case (Suc j)
    then show ?thesis
    proof (cases "j = 0")
      case True
      then show ?thesis using ys(3) Suc by simp
    next
      case False
      then show ?thesis using IH Suc that by (simp add: s1_def shift del: funpow.simps)
    qed
  qed (use that in simp)
  ultimately show ?case
    using IH ys(2) by (simp add: s1_def shift comp_def del: funpow.simps upt_Suc)
qed simp

lemma lfsr_value_bound: "lfsr_ok l \<Longrightarrow> take_bit 24 m = m \<Longrightarrow> take_bit 24 ((l - 1) XOR m) = (l - 1) XOR m"
proof -
  assume l: "lfsr_ok l" and m: "take_bit 24 m = m"
  have "unat l < 2 ^ 24"
    using l by (metis lfsr_ok_def take_bit_nat_less_exp unsigned_take_bit_eq)
  moreover have "unat (l - 1) = unat l - 1"
    using l by (simp add: lfsr_ok_def unat_minus_one)
  ultimately have "take_bit 24 (unat (l - 1)) = unat (l - 1)"
    by (simp add: take_bit_nat_eq_self)
  then have "take_bit 24 (l - 1) = l - 1"
    by (metis unsigned_take_bit_eq unsigned_word_eqI)
  with m show ?thesis by simp
qed

text \<open>
  \<open>issues s I\<close>: all indices in \<open>I\<close> were handed out by the generator, which has not come back to
  its seed.
\<close>

definition issued :: "index_lfsr \<Rightarrow> nat \<Rightarrow> u32" where
  "issued s k = ((lfsr_shift ^^ k) (lf_initial s) - 1) XOR lf_mask s"

definition issues :: "index_lfsr \<Rightarrow> u32 set \<Rightarrow> bool" where
  "issues s I \<longleftrightarrow> lfsr_ok (lf_initial s) \<and>
     (\<exists>k. lf_lfsr s = (lfsr_shift ^^ k) (lf_initial s) \<and>
        (\<forall>j. 0 < j \<and> j \<le> k \<longrightarrow> (lfsr_shift ^^ j) (lf_initial s) \<noteq> lf_initial s) \<and> I \<subseteq> issued s ` {..<k})"

lemma issues_new: "lfsr_ok l \<Longrightarrow> issues \<lparr>lf_initial = l, lf_lfsr = l, lf_mask = m\<rparr> {}"
  by (auto simp: issues_def intro: exI [of _ 0])

lemma issues_mono: "issues s I \<Longrightarrow> J \<subseteq> I \<Longrightarrow> issues s J"
  unfolding issues_def by (meson order_trans)

lemma next_index_fresh:
  assumes "issues s I" "IndexLfsr_next s = Some (i, s')"
  shows "i \<notin> I" "issues s' (insert i I)"
proof -
  obtain k where k: "lf_lfsr s = (lfsr_shift ^^ k) (lf_initial s)" "I \<subseteq> issued s ` {..<k}" "lfsr_ok (lf_initial s)"
      "\<And>j. 0 < j \<Longrightarrow> j \<le> k \<Longrightarrow> (lfsr_shift ^^ j) (lf_initial s) \<noteq> lf_initial s"
    using assms(1) by (auto simp: issues_def)
  have nxt: "i = issued s k" "s' = s\<lparr>lf_lfsr := (lfsr_shift ^^ Suc k) (lf_initial s)\<rparr>"
      "(lfsr_shift ^^ Suc k) (lf_initial s) \<noteq> lf_initial s"
  proof -
    have sh: "lfsr_shift (lf_lfsr s) = (lfsr_shift ^^ Suc k) (lf_initial s)" by (simp add: k(1))
    have v: "(lf_lfsr s - 1) XOR lf_mask s = issued s k" by (simp add: issued_def k(1))
    have "(if (lfsr_shift ^^ Suc k) (lf_initial s) = lf_initial s then None
        else Some (issued s k, s\<lparr>lf_lfsr := (lfsr_shift ^^ Suc k) (lf_initial s)\<rparr>)) = Some (i, s')"
      using assms(2) unfolding IndexLfsr_next_def Let_def sh [symmetric] v [symmetric] by (auto split: if_splits)
    then show "i = issued s k" "s' = s\<lparr>lf_lfsr := (lfsr_shift ^^ Suc k) (lf_initial s)\<rparr>"
        "(lfsr_shift ^^ Suc k) (lf_initial s) \<noteq> lf_initial s"
      by (auto simp del: funpow.simps split: if_splits)
  qed
  have "issued s k \<noteq> issued s j" if "j < k" for j
  proof
    assume "issued s k = issued s j"
    then have "(lfsr_shift ^^ k) (lf_initial s) - 1 = (lfsr_shift ^^ j) (lf_initial s) - 1"
      unfolding issued_def by (rule xor_right_cancel)
    then have "(lfsr_shift ^^ (j + (k - j))) (lf_initial s) = (lfsr_shift ^^ j) (lf_initial s)"
      using that by simp
    then have "(lfsr_shift ^^ (k - j)) (lf_initial s) = lf_initial s"
      by (rule lfsr_power_cancel [OF k(3)])
    moreover have "0 < k - j" "k - j \<le> k" using that by simp_all
    ultimately show False using k(4) by blast
  qed
  then show "i \<notin> I" using k(2) nxt(1) by auto
  have "issued s' = issued s" unfolding nxt(2) issued_def by simp
  moreover have "(lfsr_shift ^^ j) (lf_initial s) \<noteq> lf_initial s" if "0 < j" "j \<le> Suc k" for j
  proof (cases "j = Suc k")
    case True
    then show ?thesis using nxt(3) by blast
  next
    case False
    then have "j \<le> k" using that by simp
    then show ?thesis using that(1) k(4) by blast
  qed
  moreover have "insert i I \<subseteq> issued s ` {..<Suc k}"
    using k(2) nxt(1) by (auto simp: lessThan_Suc)
  moreover have "lf_initial s' = lf_initial s" "lf_lfsr s' = (lfsr_shift ^^ Suc k) (lf_initial s)"
    unfolding nxt(2) by (simp_all del: funpow.simps)
  ultimately show "issues s' (insert i I)"
    unfolding issues_def using k(3) by metis
qed

lemma lfsr_ok_masked: "w AND LFSR_MAX > 0 \<Longrightarrow> lfsr_ok (w AND LFSR_MAX)"
proof -
  have "LFSR_MAX = mask 24" by (simp add: LFSR_MAX_def mask_eq_exp_minus_1)
  then have "w AND LFSR_MAX = take_bit 24 w" by (simp only: take_bit_eq_mask)
  then show "w AND LFSR_MAX > 0 \<Longrightarrow> lfsr_ok (w AND LFSR_MAX)" by (auto simp: lfsr_ok_def)
qed

lemma random_index_ok:
  assumes "random_index r = Some y"
  shows "lfsr_ok (fst y)"
proof (rule random_index.raw_induct [OF _ assms, of "\<lambda>r y. lfsr_ok (fst y)"])
  fix f :: "rng \<Rightarrow> (u32 \<times> rng) option" and r y
  assume IH: "\<And>r y. f r = Some y \<Longrightarrow> lfsr_ok (fst y)"
    and step: "(let (bs, r) = fill_bytes 4 r; i = of_le_bytes bs AND LFSR_MAX in if i > 0 then Some (i, r) else f r) = Some y"
  obtain bs r1 where fill: "fill_bytes 4 r = (bs, r1)" by fastforce
  show "lfsr_ok (fst y)"
  proof (cases "of_le_bytes bs AND LFSR_MAX > 0")
    case True
    then show ?thesis using step lfsr_ok_masked by (auto simp: fill Let_def)
  next
    case False
    then show ?thesis using step IH [of r1 y] by (simp add: fill Let_def)
  qed
qed

text \<open>The loop returns on every tape that has a value other than zero at one of its draws.\<close>

lemma random_index_returns:
  "of_le_bytes (fst (fill_bytes 4 (\<lambda>i. r (4 * n + i)))) AND LFSR_MAX > 0 \<Longrightarrow> \<exists>y. random_index r = Some y"
proof (induction n arbitrary: r)
  case 0
  then show ?case by (subst random_index.simps) (simp add: fill_bytes_def)
next
  case (Suc n)
  have "\<exists>y. random_index (snd (fill_bytes 4 r)) = Some y"
    by (rule Suc.IH) (use Suc.prems in \<open>simp add: fill_bytes_def ac_simps\<close>)
  then show ?case by (subst random_index.simps) (auto simp: Let_def split: prod.split)
qed

lemma IndexLfsr_default_issues: "IndexLfsr_default r = Some (s, r') \<Longrightarrow> issues s {}"
  by (auto simp: IndexLfsr_default_def bind_eq_Some_conv dest!: random_index_ok intro: issues_new)

section \<open>Properties\<close>

text \<open>
  C19. Peers never share an index: the indices a new generator hands out, before it reports that
  there are too many, are pairwise distinct 24-bit numbers.
\<close>

theorem peer_indices_distinct:
  assumes "lfsr_ok (lf_initial s)" "lf_lfsr s = lf_initial s" "take_bit 24 (lf_mask s) = lf_mask s"
    and "take_lfsr n s = Some (xs, s')"
  shows "distinct xs \<and> length xs = n \<and> (\<forall>x. x \<in> set xs \<longrightarrow> take_bit 24 x = x)"
proof -
  let ?l = "lf_initial s"
  note spec = take_lfsr_spec [OF assms(4) assms(2) [symmetric]]
  have neq: "(lfsr_shift ^^ i) ?l \<noteq> (lfsr_shift ^^ j) ?l" if "i < j" "j < n" for i j
    using lfsr_power_cancel [OF assms(1), of i "j - i"] spec that by fastforce
  have "inj_on (\<lambda>k. ((lfsr_shift ^^ k) ?l - 1) XOR lf_mask s) {0..<n}"
  proof (rule inj_onI)
    fix i j
    assume ij: "i \<in> {0..<n}" "j \<in> {0..<n}" "((lfsr_shift ^^ i) ?l - 1) XOR lf_mask s = ((lfsr_shift ^^ j) ?l - 1) XOR lf_mask s"
    from xor_right_cancel [OF ij(3)] have "(lfsr_shift ^^ i) ?l = (lfsr_shift ^^ j) ?l" by simp
    then show "i = j" using neq ij by (metis atLeastLessThan_iff linorder_neqE_nat)
  qed
  then have "distinct xs" using spec by (simp add: distinct_map)
  moreover have "\<forall>x. x \<in> set xs \<longrightarrow> take_bit 24 x = x"
    using spec lfsr_value_bound [OF lfsr_power_ok [OF assms(1)] assms(3)] by auto
  ultimately show ?thesis using spec by simp
qed

theorem peer_indices_distinct_witness:
  "\<exists>xs s'. take_lfsr 3 \<lparr>lf_initial = 5, lf_lfsr = 5, lf_mask = 9\<rparr> = Some (xs, s') \<and> distinct xs"
proof -
  have "\<exists>xs s'. take_lfsr 3 \<lparr>lf_initial = 5, lf_lfsr = 5, lf_mask = 9\<rparr> = Some (xs, s')"
    by (simp add: numeral_3_eq_3 IndexLfsr_next_def lfsr_shift_def LFSR_POLY_def Let_def)
  then obtain xs s' where run: "take_lfsr 3 \<lparr>lf_initial = 5, lf_lfsr = 5, lf_mask = 9\<rparr> = Some (xs, s')" by blast
  then show ?thesis
    using peer_indices_distinct [OF _ _ _ run] by (simp add: lfsr_ok_def)
qed

end
