(* ===== verification/Device.thy ===== *)
theory Device
  imports Robust PeerIndex
begin

text \<open>
  The peers of a device: \<open>device/allowed_ips.rs\<close>, \<open>device/peer.rs\<close> and the part of
  \<open>device/mod.rs\<close> that manages peers, keys and configuration. Peers are shared (\<open>Arc\<close>), so they
  live in a store and the three maps of the device hold their addresses. The tables of the
  \<open>ip_network_table\<close> crate, the order in which a \<open>HashMap\<close> is walked and the sockets are
  parameters. \<^const>\<open>None\<close> is a panic.
\<close>

section \<open>Tables of networks\<close>

type_synonym ip_network = "IpAddr \<times> nat"

record ('t, 'd) net_table =
  nt_new :: 't
  nt_truncate :: "IpAddr \<Rightarrow> u8 \<Rightarrow> ip_network option"
  nt_insert :: "ip_network \<Rightarrow> 'd \<Rightarrow> 't \<Rightarrow> 'd option \<times> 't"
  nt_longest_match :: "IpAddr \<Rightarrow> 't \<Rightarrow> (ip_network \<times> 'd) option"
  nt_retain :: "(ip_network \<Rightarrow> 'd \<Rightarrow> bool) \<Rightarrow> 't \<Rightarrow> 't"
  nt_iter :: "'t \<Rightarrow> (ip_network \<times> 'd) list"

definition AllowedIps_insert :: "('t, 'd) net_table \<Rightarrow> IpAddr \<Rightarrow> u32 \<Rightarrow> 'd \<Rightarrow> 't \<Rightarrow> ('d option \<times> 't) option" where
  "AllowedIps_insert nt key cidr data t =
     (case nt_truncate nt key (ucast cidr) of None \<Rightarrow> None | Some net \<Rightarrow> Some (nt_insert nt net data t))"

definition AllowedIps_find :: "('t, 'd) net_table \<Rightarrow> IpAddr \<Rightarrow> 't \<Rightarrow> 'd option" where
  "AllowedIps_find nt key t = map_option snd (nt_longest_match nt key t)"

definition AllowedIps_remove :: "('t, 'd) net_table \<Rightarrow> ('d \<Rightarrow> bool) \<Rightarrow> 't \<Rightarrow> 't" where
  "AllowedIps_remove nt P t = nt_retain nt (\<lambda>_ v. \<not> P v) t"

definition AllowedIps_iter :: "('t, 'd) net_table \<Rightarrow> 't \<Rightarrow> ('d \<times> IpAddr \<times> nat) list" where
  "AllowedIps_iter nt t = map (\<lambda>(net, d). (d, fst net, snd net)) (nt_iter nt t)"

record allowed_ip =
  ai_addr :: IpAddr
  ai_cidr :: u8

fun AllowedIps_extend :: "('t, 'd) net_table \<Rightarrow> 'd \<Rightarrow> allowed_ip list \<Rightarrow> 't \<Rightarrow> 't option" where
  "AllowedIps_extend nt data [] t = Some t"
| "AllowedIps_extend nt data (ip # ips) t =
     Option.bind (AllowedIps_insert nt (ai_addr ip) (ucast (ai_cidr ip)) data t) (\<lambda>(_, t). AllowedIps_extend nt data ips t)"

text \<open>\<open>ip[0].parse::<IpAddr>()\<close> is the parameter \<open>ipparse\<close>.\<close>

definition parse_u8 :: "string \<Rightarrow> int_error_kind + u8" where
  "parse_u8 s = map_sum id of_nat (from_str_radix 10 (2 ^ 8) s)"

definition AllowedIP_from_str :: "(string \<Rightarrow> IpAddr option) \<Rightarrow> string \<Rightarrow> string + allowed_ip" where
  "AllowedIP_from_str ipparse s =
     (case split_char CHR ''/'' s of
        [a, c] \<Rightarrow>
          (case (ipparse a, parse_u8 c) of
             (Some (V4 ip), Inr cidr) \<Rightarrow>
               if cidr \<le> 32 then Ok \<lparr>ai_addr = V4 ip, ai_cidr = cidr\<rparr> else Err ''Invalid IP format''
           | (Some (V6 ip), Inr cidr) \<Rightarrow>
               if cidr \<le> 128 then Ok \<lparr>ai_addr = V6 ip, ai_cidr = cidr\<rparr> else Err ''Invalid IP format''
           | _ \<Rightarrow> Err ''Invalid IP format'')
      | _ \<Rightarrow> Err ''Invalid IP format'')"

section \<open>Peers\<close>

type_synonym socket_address = "IpAddr \<times> u16"

text \<open>
  \<open>p_shared_limiter\<close> says that the \<open>Arc<RateLimiter>\<close> of the tunnel is the device's: the
  state of that limiter is then the field of the device, see \<open>borrow\<close> and \<open>give_back\<close>.
\<close>

record 't peer =
  p_tunnel :: tunn
  p_index :: u32
  p_addr :: "socket_address option"
  p_conn :: bool
  p_allowed_ips :: 't
  p_preshared_key :: "bytes option"
  p_keepalive_range :: "u32_range option"
  p_shared_limiter :: bool

definition Peer_new ::
    "('t, unit) net_table \<Rightarrow> tunn \<Rightarrow> u32 \<Rightarrow> socket_address option \<Rightarrow> allowed_ip list \<Rightarrow> bytes option \<Rightarrow> u32_range option \<Rightarrow> 't peer option" where
  "Peer_new nt tunnel idx endpoint allowed_ips psk kr =
     map_option (\<lambda>ips. \<lparr>p_tunnel = tunnel, p_index = idx, p_addr = endpoint, p_conn = False, p_allowed_ips = ips,
                       p_preshared_key = psk, p_keepalive_range = kr,
                       p_shared_limiter = False\<rparr>)
       (AllowedIps_extend nt () allowed_ips (nt_new nt))"

fun drain_loop :: "nat \<Rightarrow> tunn \<Rightarrow> bytes list \<times> tunn" where
  "drain_loop 0 t = ([], t)"
| "drain_loop (Suc n) t =
     (case poll_outgoing_packet t of
        (None, t) \<Rightarrow> ([], t)
      | (Some p, t) \<Rightarrow> (let (ps, t) = drain_loop n t in (p # ps, t)))"

text \<open>Every turn of the loop takes one packet, so the length of the queue is enough fuel.\<close>

definition drain_outgoing :: "tunn \<Rightarrow> bytes list \<times> tunn" where
  "drain_outgoing t = drain_loop (Suc (length (t_network_outgoing t))) t"

text \<open>Shutting down the connected socket is taken to succeed; the source unwraps its result.\<close>

definition shutdown_endpoint :: "'t peer \<Rightarrow> 't peer" where
  "shutdown_endpoint p = p\<lparr>p_conn := False\<rparr>"

definition set_endpoint :: "socket_address \<Rightarrow> 't peer \<Rightarrow> bool \<times> 't peer" where
  "set_endpoint addr p = (if p_addr p \<noteq> Some addr then (True, p\<lparr>p_conn := False, p_addr := Some addr\<rparr>) else (False, p))"

text \<open>Connecting a socket: \<open>ok\<close> is the answer of the operating system.\<close>

definition connect_endpoint :: "bool \<Rightarrow> 't peer \<Rightarrow> (bool \<times> 't peer) option" where
  "connect_endpoint ok p =
     (if p_conn p then Some (False, p)
      else if p_addr p = None then None
      else Some (ok, p\<lparr>p_conn := ok\<rparr>))"

definition is_allowed_ip :: "('t, unit) net_table \<Rightarrow> IpAddr \<Rightarrow> 't peer \<Rightarrow> bool" where
  "is_allowed_ip nt addr p \<longleftrightarrow> AllowedIps_find nt addr (p_allowed_ips p) \<noteq> None"

definition set_tunnel :: "tunn \<Rightarrow> u32 \<Rightarrow> 't peer \<Rightarrow> 't peer" where
  "set_tunnel tunnel idx p = p\<lparr>p_tunnel := tunnel, p_index := idx, p_shared_limiter := False\<rparr>"

section \<open>The device\<close>

definition HANDSHAKE_RATE_LIMIT :: u64 where "HANDSHAKE_RATE_LIMIT = 100"
definition MAX_UDP_SIZE :: nat where "MAX_UDP_SIZE = 2 ^ 16 - 1"
definition MAX_ITR :: nat where "MAX_ITR = 100"

type_synonym peer_ref = nat

record ('t, 's) device =
  d_key_pair :: "(bytes \<times> bytes) option"
  d_listen_port :: u16
  d_fwmark :: "u32 option"
  d_udp :: bool
  d_store :: "peer_ref \<Rightarrow> 't peer option"
  d_next_ref :: peer_ref
  d_peers :: "(bytes \<times> peer_ref) list"
  d_peers_by_ip :: 's
  d_peers_by_idx :: "(u32 \<times> peer_ref) list"
  d_next_index :: index_lfsr
  d_use_connected_socket :: bool
  d_amnezia :: amnezia3_config
  d_mtu :: nat
  d_rate_limiter :: "rate_limiter option"

text \<open>
  What the device is given: the primitives and clock, the two instances of the table, and the
  order in which the map of peers is walked.
\<close>

record ('t, 's) device_env =
  de_env :: env
  de_ips :: "('t, unit) net_table"
  de_routes :: "('s, peer_ref) net_table"
  de_order :: "(bytes \<times> peer_ref) list \<Rightarrow> (bytes \<times> peer_ref) list"

definition put_peer :: "peer_ref \<Rightarrow> 't peer \<Rightarrow> ('t, 's) device \<Rightarrow> ('t, 's) device" where
  "put_peer a p d = d\<lparr>d_store := (d_store d)(a \<mapsto> p)\<rparr>"

definition Device_new :: "('t, 's) device_env \<Rightarrow> nat \<Rightarrow> bool \<Rightarrow> rng \<Rightarrow> (('t, 's) device \<times> rng) option" where
  "Device_new de mtu use_connected_socket r =
     map_option (\<lambda>(lfsr, r).
         (\<lparr>d_key_pair = None, d_listen_port = 0, d_fwmark = None, d_udp = False, d_store = Map.empty, d_next_ref = 0,
           d_peers = [], d_peers_by_ip = nt_new (de_routes de), d_peers_by_idx = [], d_next_index = lfsr,
           d_use_connected_socket = use_connected_socket, d_amnezia = Amnezia3Config_default, d_mtu = mtu, d_rate_limiter = None\<rparr>, r))
       (IndexLfsr_default r)"

definition next_index :: "('t, 's) device \<Rightarrow> (u32 \<times> ('t, 's) device) option" where
  "next_index d = map_option (\<lambda>(i, s). (i, d\<lparr>d_next_index := s\<rparr>)) (IndexLfsr_next (d_next_index d))"

definition remove_peer :: "('t, 's) device_env \<Rightarrow> bytes \<Rightarrow> ('t, 's) device \<Rightarrow> ('t, 's) device option" where
  "remove_peer de pub_key d =
     (case map_of (d_peers d) pub_key of
        None \<Rightarrow> Some d
      | Some a \<Rightarrow>
          (case d_store d a of
             None \<Rightarrow> None
           | Some p \<Rightarrow>
               Some ((put_peer a (shutdown_endpoint p) d)
                 \<lparr>d_peers := filter (\<lambda>(k, _). k \<noteq> pub_key) (d_peers d),
                  d_peers_by_idx := filter (\<lambda>(i, _). i \<noteq> p_index p) (d_peers_by_idx d),
                  d_peers_by_ip := AllowedIps_remove (de_routes de) (\<lambda>b. b = a) (d_peers_by_ip d)\<rparr>)))"

definition peer_amnezia_config :: "('t, 's) device \<Rightarrow> amnezia3_config" where
  "peer_amnezia_config d = (d_amnezia d)\<lparr>a3_mtu := of_nat (d_mtu d)\<rparr>"

definition with_keepalive :: "u32_range option \<Rightarrow> amnezia3_config \<Rightarrow> amnezia3_config" where
  "with_keepalive kr c =
     (case kr of None \<Rightarrow> c
      | Some ur \<Rightarrow> c\<lparr>a3_timing_ranges := (a3_timing_ranges c)\<lparr>tr_persistent_keepalive := ur\<rparr>\<rparr>)"

definition hash_insert :: "'k \<Rightarrow> 'v \<Rightarrow> ('k \<times> 'v) list \<Rightarrow> ('k \<times> 'v) list" where
  "hash_insert k v xs = (k, v) # filter (\<lambda>(k', _). k' \<noteq> k) xs"

definition add_peer :: "('t, 's) device_env \<Rightarrow> bytes \<Rightarrow> 't peer \<Rightarrow> allowed_ip list \<Rightarrow> ('t, 's) device \<Rightarrow> ('t, 's) device option" where
  "add_peer de pub_key p allowed_ips d =
     (let a = d_next_ref d in
      map_option (\<lambda>routes. (put_peer a p d)
          \<lparr>d_next_ref := Suc a, d_peers := hash_insert pub_key a (d_peers d),
           d_peers_by_idx := hash_insert (p_index p) a (d_peers_by_idx d), d_peers_by_ip := routes\<rparr>)
        (AllowedIps_extend (de_routes de) a allowed_ips (d_peers_by_ip d)))"

definition update_peer ::
    "('t, 's) device_env \<Rightarrow> bytes \<Rightarrow> bool \<Rightarrow> bool \<Rightarrow> socket_address option \<Rightarrow> allowed_ip list \<Rightarrow> u16 option \<Rightarrow> u32_range option \<Rightarrow>
     bytes option \<Rightarrow> ('t, 's) device \<Rightarrow> rng \<Rightarrow> (('t, 's) device \<times> rng) option" where
  "update_peer de pub_key remove replace_ips endpoint allowed_ips keepalive keepalive_range preshared_key d r =
     (if remove then map_option (\<lambda>d. (d, r)) (remove_peer de pub_key d)
      else if map_of (d_peers d) pub_key \<noteq> None then None
      else
        Option.bind (next_index d) (\<lambda>(idx, d).
        Option.bind (d_key_pair d) (\<lambda>(private_key, _).
        case new_with_amnezia3 (de_env de) private_key pub_key preshared_key keepalive idx None
               (with_keepalive keepalive_range (peer_amnezia_config d)) r of
          (Inl e, r) \<Rightarrow> Some (d, r)
        | (Inr tunnel, r) \<Rightarrow>
            Option.bind (Peer_new (de_ips de) tunnel idx endpoint allowed_ips preshared_key keepalive_range) (\<lambda>p.
            map_option (\<lambda>d. (d, r)) (add_peer de pub_key p allowed_ips d)))))"

text \<open>One turn of the loop of \<open>set_amnezia_config\<close>, and the loop over the peers.\<close>

definition rebuild_peer ::
    "('t, 's) device_env \<Rightarrow> bytes \<Rightarrow> amnezia3_config \<Rightarrow> bytes \<times> peer_ref \<Rightarrow> ('t, 's) device \<Rightarrow> rng \<Rightarrow> (('t, 's) device \<times> rng) option" where
  "rebuild_peer de private_key base entry d r =
     (let (pub_key, a) = entry in
      Option.bind (d_store d a) (\<lambda>p.
      let keepalive = (case p_keepalive_range p of Some _ \<Rightarrow> None | None \<Rightarrow> persistent_keepalive (t_timers (p_tunnel p))) in
      Option.bind (next_index d) (\<lambda>(idx, d).
      case new_with_amnezia3 (de_env de) private_key pub_key (p_preshared_key p) keepalive idx None
             (with_keepalive (p_keepalive_range p) base) r of
        (Inl e, r) \<Rightarrow> Some (d, r)
      | (Inr tunnel, r) \<Rightarrow>
          Some ((put_peer a (set_tunnel tunnel idx p) d)
            \<lparr>d_peers_by_idx := hash_insert idx a (filter (\<lambda>(i, _). i \<noteq> p_index p) (d_peers_by_idx d))\<rparr>, r))))"

fun rebuild_peers ::
    "('t, 's) device_env \<Rightarrow> bytes \<Rightarrow> amnezia3_config \<Rightarrow> (bytes \<times> peer_ref) list \<Rightarrow> ('t, 's) device \<Rightarrow> rng \<Rightarrow> (('t, 's) device \<times> rng) option" where
  "rebuild_peers de private_key base [] d r = Some (d, r)"
| "rebuild_peers de private_key base (e # es) d r =
     Option.bind (rebuild_peer de private_key base e d r) (\<lambda>(d, r). rebuild_peers de private_key base es d r)"

definition set_amnezia_config :: "('t, 's) device_env \<Rightarrow> amnezia3_config \<Rightarrow> ('t, 's) device \<Rightarrow> rng \<Rightarrow> (('t, 's) device \<times> rng) option" where
  "set_amnezia_config de amnezia d r =
     (if d_amnezia d = amnezia then Some (d, r)
      else let d = d\<lparr>d_amnezia := amnezia\<rparr> in
           case d_key_pair d of
             None \<Rightarrow> Some (d, r)
           | Some (private_key, _) \<Rightarrow>
               rebuild_peers de private_key (peer_amnezia_config d) (de_order de (d_peers d)) d r)"

fun rekey_peers ::
    "env \<Rightarrow> bytes \<Rightarrow> bytes \<Rightarrow> rate_limiter \<Rightarrow> (bytes \<times> peer_ref) list \<Rightarrow> ('t, 's) device \<Rightarrow> rng \<Rightarrow> (('t, 's) device \<times> rng) option" where
  "rekey_peers en private_key public_key rl [] d r = Some (d, r)"
| "rekey_peers en private_key public_key rl ((_, a) # es) d r =
     Option.bind (d_store d a) (\<lambda>p.
     Option.bind (Tunn_set_static_private en private_key public_key (Some rl) (p_tunnel p) r) (\<lambda>(t, r).
     rekey_peers en private_key public_key rl es (put_peer a (p\<lparr>p_tunnel := t, p_shared_limiter := True\<rparr>) d) r))"

definition Device_set_key :: "('t, 's) device_env \<Rightarrow> bytes \<Rightarrow> ('t, 's) device \<Rightarrow> rng \<Rightarrow> (('t, 's) device \<times> rng) option" where
  "Device_set_key de private_key d r =
     (let en = de_env de; public_key = cr_pub (en_crypto en) private_key in
      if map_option snd (d_key_pair d) = Some public_key then Some (d, r)
      else let (rl, r) = RateLimiter_new (en_crypto en) (en_now en) public_key HANDSHAKE_RATE_LIMIT r in
           map_option (\<lambda>(d, r). (d\<lparr>d_key_pair := Some (private_key, public_key), d_rate_limiter := Some rl\<rparr>, r))
             (rekey_peers en private_key public_key rl (de_order de (d_peers d)) d r))"

definition clear_peers :: "('t, 's) device_env \<Rightarrow> ('t, 's) device \<Rightarrow> ('t, 's) device" where
  "clear_peers de d = d\<lparr>d_peers := [], d_peers_by_idx := [], d_peers_by_ip := nt_new (de_routes de)\<rparr>"

text \<open>
  The sockets: \<open>bound\<close> is what binding them answers, the port that was assigned or a failure.
\<close>

definition shutdown_all :: "peer_ref list \<Rightarrow> ('t, 's) device \<Rightarrow> ('t, 's) device" where
  "shutdown_all as d = d\<lparr>d_store := (\<lambda>a. if a \<in> set as then map_option shutdown_endpoint (d_store d a) else d_store d a)\<rparr>"

definition open_listen_socket :: "u16 option \<Rightarrow> u16 \<Rightarrow> ('t, 's) device \<Rightarrow> bool \<times> ('t, 's) device" where
  "open_listen_socket bound port d =
     (let d = shutdown_all (map snd (d_peers d)) (d\<lparr>d_udp := False\<rparr>) in
      case bound of
        None \<Rightarrow> (False, d)
      | Some assigned \<Rightarrow> (True, d\<lparr>d_udp := True, d_listen_port := (if port = 0 then assigned else port)\<rparr>))"

definition set_fwmark :: "bool \<Rightarrow> u32 \<Rightarrow> ('t, 's) device \<Rightarrow> bool \<times> ('t, 's) device" where
  "set_fwmark ok mark d = (ok, d\<lparr>d_fwmark := Some mark\<rparr>)"

section \<open>What the tables promise\<close>

definition byte_bits :: "u8 \<Rightarrow> bool list" where
  "byte_bits b = map (bit b) (rev [0..<8])"

fun ip_bits :: "IpAddr \<Rightarrow> bool list" where
  "ip_bits (V4 bs) = concat (map byte_bits bs)"
| "ip_bits (V6 bs) = concat (map byte_bits bs)"

fun same_family :: "IpAddr \<Rightarrow> IpAddr \<Rightarrow> bool" where
  "same_family (V4 _) (V4 _) = True"
| "same_family (V6 _) (V6 _) = True"
| "same_family _ _ = False"

definition in_net :: "IpAddr \<Rightarrow> ip_network \<Rightarrow> bool" where
  "in_net a net \<longleftrightarrow> same_family a (fst net) \<and> take (snd net) (ip_bits a) = take (snd net) (ip_bits (fst net))"

fun valid_cidr :: "IpAddr \<Rightarrow> u8 \<Rightarrow> bool" where
  "valid_cidr (V4 _) c \<longleftrightarrow> c \<le> 32"
| "valid_cidr (V6 _) c \<longleftrightarrow> c \<le> 128"

text \<open>
  The documented behaviour of the crates, with \<open>entries\<close> the map a table stands for: truncation keeps
  the network bits of the address, a lookup answers the longest network that contains it.
\<close>

definition truncate_law :: "(IpAddr \<Rightarrow> u8 \<Rightarrow> ip_network option) \<Rightarrow> bool" where
  "truncate_law tr \<longleftrightarrow>
     (\<forall>a c. (if valid_cidr a c then \<exists>net. tr a c = Some (net, unat c) \<and> in_net a (net, unat c) else tr a c = None))"

definition table_law :: "('t, 'd) net_table \<Rightarrow> ('t \<Rightarrow> ip_network \<Rightarrow> 'd option) \<Rightarrow> bool" where
  "table_law nt entries \<longleftrightarrow>
     entries (nt_new nt) = Map.empty \<and>
     (\<forall>net d t. entries (snd (nt_insert nt net d t)) = (entries t)(net \<mapsto> d)) \<and>
     (\<forall>P t. entries (nt_retain nt P t) = (\<lambda>net. case entries t net of Some d \<Rightarrow> if P net d then Some d else None | None \<Rightarrow> None)) \<and>
     (\<forall>a t net d. nt_longest_match nt a t = Some (net, d) \<longrightarrow> entries t net = Some d \<and> in_net a net \<and>
        (\<forall>net'. entries t net' \<noteq> None \<longrightarrow> in_net a net' \<longrightarrow> snd net' \<le> snd net)) \<and>
     (\<forall>a t net. nt_longest_match nt a t = None \<longrightarrow> entries t net \<noteq> None \<longrightarrow> \<not> in_net a net)"

definition device_env_ok ::
    "('t, 's) device_env \<Rightarrow> ('t \<Rightarrow> ip_network \<Rightarrow> unit option) \<Rightarrow> ('s \<Rightarrow> ip_network \<Rightarrow> peer_ref option) \<Rightarrow> bool" where
  "device_env_ok de ips routes \<longleftrightarrow>
     table_law (de_ips de) ips \<and> table_law (de_routes de) routes \<and>
     truncate_law (nt_truncate (de_ips de)) \<and> nt_truncate (de_routes de) = nt_truncate (de_ips de) \<and>
     (\<forall>xs. set (de_order de xs) = set xs)"

lemma table_lawD:
  assumes "table_law nt entries"
  shows "entries (nt_new nt) = Map.empty" "entries (snd (nt_insert nt net d t)) = (entries t)(net \<mapsto> d)"
    "entries (nt_retain nt P t) = (\<lambda>net. case entries t net of Some d \<Rightarrow> if P net d then Some d else None | None \<Rightarrow> None)"
    "nt_longest_match nt a t = Some (net, d) \<Longrightarrow> entries t net = Some d \<and> in_net a net"
    "nt_longest_match nt a t = Some (net, d) \<Longrightarrow> entries t net' \<noteq> None \<Longrightarrow> in_net a net' \<Longrightarrow> snd net' \<le> snd net"
    "nt_longest_match nt a t = None \<Longrightarrow> entries t net \<noteq> None \<Longrightarrow> \<not> in_net a net"
  using assms unfolding table_law_def by blast+

lemma device_env_okD:
  assumes "device_env_ok de ips routes"
  shows "table_law (de_ips de) ips" "table_law (de_routes de) routes" "truncate_law (nt_truncate (de_ips de))"
    "nt_truncate (de_routes de) = nt_truncate (de_ips de)" "set (de_order de xs) = set xs"
  using assms unfolding device_env_ok_def by blast+

lemma AllowedIps_find_some:
  assumes "table_law nt entries" "AllowedIps_find nt a t = Some d"
  obtains net where "entries t net = Some d" "in_net a net"
  using assms table_lawD(4) [OF assms(1)] by (fastforce simp: AllowedIps_find_def)

lemma AllowedIps_find_none: "table_law nt entries \<Longrightarrow> entries t net \<noteq> None \<Longrightarrow> in_net a net \<Longrightarrow> AllowedIps_find nt a t \<noteq> None"
  using table_lawD(6) [of nt entries a t net] by (cases "nt_longest_match nt a t") (auto simp: AllowedIps_find_def)

text \<open>The networks of a list of allowed addresses, and the table after they are entered.\<close>

definition nets_of :: "(IpAddr \<Rightarrow> u8 \<Rightarrow> ip_network option) \<Rightarrow> allowed_ip list \<Rightarrow> ip_network set" where
  "nets_of tr ips = {net. \<exists>ip \<in> set ips. tr (ai_addr ip) (ai_cidr ip) = Some net}"

lemma cidr_cast: "(ucast (ucast (c :: u8) :: u32) :: u8) = c"
  by (rule bit_eqI) (auto simp: bit_simps)

lemma AllowedIps_extend_Cons:
  "AllowedIps_extend nt data (ip # ips) t =
     Option.bind (nt_truncate nt (ai_addr ip) (ai_cidr ip)) (\<lambda>n. AllowedIps_extend nt data ips (snd (nt_insert nt n data t)))"
  by (cases "nt_truncate nt (ai_addr ip) (ai_cidr ip)") (simp_all add: AllowedIps_insert_def cidr_cast split_beta)

declare AllowedIps_extend.simps(2) [simp del]

lemma AllowedIps_extend_abs:
  assumes "table_law nt entries" "AllowedIps_extend nt data ips t = Some t'"
  shows "entries t' net = (if net \<in> nets_of (nt_truncate nt) ips then Some data else entries t net)"
  using assms(2)
proof (induction ips arbitrary: t)
  case (Cons ip ips)
  then obtain n where n: "nt_truncate nt (ai_addr ip) (ai_cidr ip) = Some n"
      "AllowedIps_extend nt data ips (snd (nt_insert nt n data t)) = Some t'"
    by (auto simp: AllowedIps_extend_Cons bind_eq_Some_conv)
  have "nets_of (nt_truncate nt) (ip # ips) = insert n (nets_of (nt_truncate nt) ips)"
    using n(1) by (auto simp: nets_of_def)
  then show ?case
    using Cons.IH [OF n(2)] by (simp add: table_lawD(2) [OF assms(1)])
qed (simp add: nets_of_def)

lemma AllowedIps_extend_total:
  assumes "truncate_law (nt_truncate nt)" "\<forall>ip \<in> set ips. valid_cidr (ai_addr ip) (ai_cidr ip)"
  shows "\<exists>t'. AllowedIps_extend nt data ips t = Some t'"
  using assms(2)
proof (induction ips arbitrary: t)
  case (Cons ip ips)
  then obtain n where "nt_truncate nt (ai_addr ip) (ai_cidr ip) = Some n"
    using assms(1) unfolding truncate_law_def by (metis list.set_intros(1))
  then show ?case using Cons by (simp add: AllowedIps_extend_Cons)
qed simp

section \<open>The invariant of the device\<close>

definition live :: "('t, 's) device \<Rightarrow> peer_ref \<Rightarrow> bool" where
  "live d a \<longleftrightarrow> a \<in> snd ` set (d_peers d)"

definition indexed :: "('t, 's) device \<Rightarrow> (u32 \<times> peer_ref) set" where
  "indexed d = {(i, a). live d a \<and> (\<exists>p. d_store d a = Some p \<and> p_index p = i)}"

text \<open>
  The three maps of the device agree: the peers have different keys and are different objects,
  the map by index holds exactly the peers under their indices, all of them handed out by the
  generator, and a route leads to a peer that is allowed the network.
\<close>

definition device_ok ::
    "('t \<Rightarrow> ip_network \<Rightarrow> unit option) \<Rightarrow> ('s \<Rightarrow> ip_network \<Rightarrow> peer_ref option) \<Rightarrow> ('t, 's) device \<Rightarrow> bool" where
  "device_ok ips routes d \<longleftrightarrow>
     distinct (map fst (d_peers d)) \<and> distinct (map snd (d_peers d)) \<and>
     (\<forall>a. live d a \<longrightarrow> d_store d a \<noteq> None) \<and> (\<forall>a. d_store d a \<noteq> None \<longrightarrow> a < d_next_ref d) \<and>
     set (d_peers_by_idx d) = indexed d \<and> distinct (map fst (d_peers_by_idx d)) \<and>
     (\<forall>net a. routes (d_peers_by_ip d) net = Some a \<longrightarrow>
        live d a \<and> (\<exists>p. d_store d a = Some p \<and> ips (p_allowed_ips p) net \<noteq> None)) \<and>
     issues (d_next_index d) (fst ` indexed d)"

lemma device_okD:
  assumes "device_ok ips routes d"
  shows "distinct (map fst (d_peers d))" "distinct (map snd (d_peers d))" "live d a \<Longrightarrow> \<exists>p. d_store d a = Some p"
    "d_store d a \<noteq> None \<Longrightarrow> a < d_next_ref d" "set (d_peers_by_idx d) = indexed d" "distinct (map fst (d_peers_by_idx d))"
    "routes (d_peers_by_ip d) net = Some a \<Longrightarrow> live d a \<and> (\<exists>p. d_store d a = Some p \<and> ips (p_allowed_ips p) net \<noteq> None)"
    "issues (d_next_index d) (fst ` indexed d)"
  using assms unfolding device_ok_def by blast+

lemma distinct_fst_filter: "distinct (map fst xs) \<Longrightarrow> distinct (map fst (filter P xs))"
  by (simp add: distinct_map_filter)

lemma hash_insert_new: "k \<notin> fst ` set xs \<Longrightarrow> hash_insert k v xs = (k, v) # xs"
  by (force simp: hash_insert_def filter_id_conv)

lemma live_unique_index:
  assumes "device_ok ips routes d" "(i, a) \<in> indexed d" "(i, b) \<in> indexed d"
  shows "a = b"
  using assms device_okD(5,6) [OF assms(1)] by (metis eq_key_imp_eq_value)

lemma live_updates [simp]:
  "live (put_peer a p d) = live d" "live (d\<lparr>d_next_index := s\<rparr>) = live d" "live (d\<lparr>d_peers_by_idx := xs\<rparr>) = live d"
  "live (d\<lparr>d_amnezia := c\<rparr>) = live d" "live (d\<lparr>d_store := st\<rparr>) = live d"
  by (auto simp: live_def put_peer_def fun_eq_iff)

lemma device_ok_put:
  assumes ok: "device_ok ips routes d" and p: "d_store d a = Some p" "p_index p' = p_index p" "p_allowed_ips p' = p_allowed_ips p"
  shows "device_ok ips routes (put_peer a p' d)" "indexed (put_peer a p' d) = indexed d"
proof -
  show idx: "indexed (put_peer a p' d) = indexed d"
    using p by (auto simp: indexed_def put_peer_def live_def)
  have route: "live d b \<and> (\<exists>q. (d_store (put_peer a p' d)) b = Some q \<and> ips (p_allowed_ips q) net \<noteq> None)"
    if "routes (d_peers_by_ip d) net = Some b" for net b
    using device_okD(7) [OF ok that] p by (auto simp: put_peer_def)
  show "device_ok ips routes (put_peer a p' d)"
    using ok route idx p unfolding device_ok_def live_updates by (auto simp: put_peer_def)
qed

lemma next_index_ok:
  assumes ok: "device_ok ips routes d" and i: "next_index d = Some (i, d')"
  shows "device_ok ips routes d'" "i \<notin> fst ` indexed d" "issues (d_next_index d') (insert i (fst ` indexed d))"
    "d' = d\<lparr>d_next_index := d_next_index d'\<rparr>"
proof -
  obtain s where s: "IndexLfsr_next (d_next_index d) = Some (i, s)" "d' = d\<lparr>d_next_index := s\<rparr>"
    using i by (auto simp: next_index_def)
  note f = next_index_fresh [OF device_okD(8) [OF ok] s(1)]
  show "i \<notin> fst ` indexed d" by (rule f(1))
  show "issues (d_next_index d') (insert i (fst ` indexed d))" using f(2) s(2) by simp
  show "d' = d\<lparr>d_next_index := d_next_index d'\<rparr>" using s(2) by simp
  have "indexed d' = indexed d" using s(2) by (simp add: indexed_def)
  moreover have "issues s (fst ` indexed d)" using f(2) by (rule issues_mono) blast
  ultimately show "device_ok ips routes d'"
    using ok s(2) unfolding device_ok_def by simp
qed

lemma remove_peer_effect:
  assumes ok: "device_ok ips routes d" and some: "map_of (d_peers d) k = Some a" and rm: "remove_peer de k d = Some d'"
  obtains p where "d_store d a = Some p" "\<forall>b. d_store d' b = (if b = a then Some (shutdown_endpoint p) else d_store d b)"
    "\<forall>b. live d' b \<longleftrightarrow> live d b \<and> b \<noteq> a"
    "d_peers d' = filter (\<lambda>(k', _). k' \<noteq> k) (d_peers d)" "d_next_ref d' = d_next_ref d"
    "d_peers_by_idx d' = filter (\<lambda>(i, _). i \<noteq> p_index p) (d_peers_by_idx d)" "d_next_index d' = d_next_index d"
    "d_peers_by_ip d' = AllowedIps_remove (de_routes de) (\<lambda>b. b = a) (d_peers_by_ip d)"
proof -
  obtain p where p: "d_store d a = Some p"
    and d': "d' = (put_peer a (shutdown_endpoint p) d)
      \<lparr>d_peers := filter (\<lambda>(k', _). k' \<noteq> k) (d_peers d),
       d_peers_by_idx := filter (\<lambda>(i, _). i \<noteq> p_index p) (d_peers_by_idx d),
       d_peers_by_ip := AllowedIps_remove (de_routes de) (\<lambda>b. b = a) (d_peers_by_ip d)\<rparr>"
    using rm some by (auto simp: remove_peer_def split: option.splits)
  have ka: "(k, a) \<in> set (d_peers d)" using some by (rule map_of_SomeD)
  have entry: "k' = k \<longleftrightarrow> b = a" if "(k', b) \<in> set (d_peers d)" for k' b
  proof -
    have "inj_on fst (set (d_peers d))" "inj_on snd (set (d_peers d))"
      using device_okD(1,2) [OF ok] by (simp_all add: distinct_map)
    then show ?thesis using inj_onD [of fst _ "(k', b)" "(k, a)"] inj_onD [of snd _ "(k', b)" "(k, a)"] that ka by auto
  qed
  have "live d' b \<longleftrightarrow> (\<exists>k'. (k', b) \<in> set (d_peers d) \<and> k' \<noteq> k)" for b
    by (auto simp: d' live_def intro: rev_image_eqI)
  moreover have "live d b \<longleftrightarrow> (\<exists>k'. (k', b) \<in> set (d_peers d))" for b
    by (auto simp: live_def intro: rev_image_eqI)
  ultimately have "\<forall>b. live d' b \<longleftrightarrow> live d b \<and> b \<noteq> a"
    using entry by blast
  then show thesis
    by (rule that [OF p, rotated]) (simp_all add: d' put_peer_def)
qed

lemma remove_peer_ok:
  assumes de: "device_env_ok de ips routes" and ok: "device_ok ips routes d" and rm: "remove_peer de k d = Some d'"
  shows "device_ok ips routes d'"
proof (cases "map_of (d_peers d) k")
  case None
  then show ?thesis using rm ok by (simp add: remove_peer_def)
next
  case (Some a)
  obtain p where p: "d_store d a = Some p"
    and store': "\<forall>b. d_store d' b = (if b = a then Some (shutdown_endpoint p) else d_store d b)"
    and live': "\<forall>b. live d' b \<longleftrightarrow> live d b \<and> b \<noteq> a"
    and fields: "d_peers d' = filter (\<lambda>(k', _). k' \<noteq> k) (d_peers d)" "d_next_ref d' = d_next_ref d"
      "d_peers_by_idx d' = filter (\<lambda>(i, _). i \<noteq> p_index p) (d_peers_by_idx d)" "d_next_index d' = d_next_index d"
      "d_peers_by_ip d' = AllowedIps_remove (de_routes de) (\<lambda>b. b = a) (d_peers_by_ip d)"
    using ok Some rm by (rule remove_peer_effect)
  have "live d a" using map_of_SomeD [OF Some] by (auto simp: live_def intro: rev_image_eqI)
  have "(i, b) \<in> indexed d' \<longleftrightarrow> (i, b) \<in> indexed d \<and> i \<noteq> p_index p" for i b
  proof
    assume "(i, b) \<in> indexed d'"
    then have b: "(i, b) \<in> indexed d" "b \<noteq> a" by (auto simp: indexed_def live' store')
    moreover have "(p_index p, a) \<in> indexed d" using \<open>live d a\<close> p by (simp add: indexed_def)
    ultimately show "(i, b) \<in> indexed d \<and> i \<noteq> p_index p"
      using live_unique_index [OF ok] by blast
  next
    assume "(i, b) \<in> indexed d \<and> i \<noteq> p_index p"
    then show "(i, b) \<in> indexed d'" using p by (auto simp: indexed_def live' store')
  qed
  then have idx: "indexed d' = {(i, b) \<in> indexed d. i \<noteq> p_index p}" by auto
  have routes': "routes (d_peers_by_ip d') net = Some b \<Longrightarrow> routes (d_peers_by_ip d) net = Some b \<and> b \<noteq> a" for net b
    using table_lawD(3) [OF device_env_okD(2) [OF de]]
    by (simp add: fields AllowedIps_remove_def split: option.splits if_splits)
  have "distinct (map fst (d_peers d'))" "distinct (map snd (d_peers d'))" "distinct (map fst (d_peers_by_idx d'))"
    using device_okD(1,2,6) [OF ok] by (simp_all add: fields distinct_map_filter)
  moreover have "set (d_peers_by_idx d') = indexed d'"
    using device_okD(5) [OF ok] by (auto simp: idx fields)
  moreover have "d_store d' b \<noteq> None" if "live d' b" for b
    using device_okD(3) [OF ok] that by (auto simp: live' store')
  moreover have "b < d_next_ref d'" if "d_store d' b \<noteq> None" for b
    using device_okD(4) [OF ok, of b] p that by (simp add: store' fields split: if_splits)
  moreover have "live d' b \<and> (\<exists>q. d_store d' b = Some q \<and> ips (p_allowed_ips q) net \<noteq> None)"
    if "routes (d_peers_by_ip d') net = Some b" for net b
    using routes' [OF that] device_okD(7) [OF ok, of net b] by (auto simp: live' store')
  moreover have "issues (d_next_index d') (fst ` indexed d')"
  proof -
    have "fst ` indexed d' \<subseteq> fst ` indexed d" by (auto simp: idx)
    then show ?thesis using issues_mono [OF device_okD(8) [OF ok]] by (simp add: fields)
  qed
  ultimately show ?thesis unfolding device_ok_def by blast
qed

lemma add_peer_ok:
  assumes de: "device_env_ok de ips routes" and ok: "device_ok ips routes d"
    and new: "map_of (d_peers d) k = None" "p_index p \<notin> fst ` indexed d" "issues (d_next_index d) (insert (p_index p) (fst ` indexed d))"
    and allowed: "\<And>net. net \<in> nets_of (nt_truncate (de_ips de)) as \<Longrightarrow> ips (p_allowed_ips p) net \<noteq> None"
    and add: "add_peer de k p as d = Some d'"
  shows "device_ok ips routes d'"
proof -
  define a where "a = d_next_ref d"
  obtain rt where rt: "AllowedIps_extend (de_routes de) a as (d_peers_by_ip d) = Some rt"
    and d': "d' = (put_peer a p d)\<lparr>d_next_ref := Suc a, d_peers := hash_insert k a (d_peers d),
           d_peers_by_idx := hash_insert (p_index p) a (d_peers_by_idx d), d_peers_by_ip := rt\<rparr>"
    using add by (auto simp: add_peer_def a_def Let_def)
  have fresh: "d_store d a = None"
    using device_okD(4) [OF ok, of a] by (cases "d_store d a") (auto simp: a_def)
  then have "\<not> live d a"
    using device_okD(3) [OF ok, of a] by auto
  note fresh = fresh this
  have k: "k \<notin> fst ` set (d_peers d)" using new(1) by (simp add: map_of_eq_None_iff)
  have peers': "d_peers d' = (k, a) # d_peers d"
    using k by (simp add: d' hash_insert_new)
  have live': "live d' b \<longleftrightarrow> b = a \<or> live d b" for b
    unfolding live_def peers' by auto
  have store': "d_store d' b = (if b = a then Some p else d_store d b)" for b
    by (simp add: d' put_peer_def)
  have idx: "indexed d' = insert (p_index p, a) (indexed d)"
    using fresh by (auto simp: indexed_def live' store')
  have by_idx: "d_peers_by_idx d' = (p_index p, a) # d_peers_by_idx d"
    using device_okD(5) [OF ok] new(2) by (simp add: d' hash_insert_new)
  have routes': "routes (d_peers_by_ip d') net =
      (if net \<in> nets_of (nt_truncate (de_ips de)) as then Some a else routes (d_peers_by_ip d) net)" for net
    using AllowedIps_extend_abs [OF device_env_okD(2) [OF de] rt] device_env_okD(4) [OF de] by (simp add: d')
  have "distinct (map fst (d_peers d'))" "distinct (map snd (d_peers d'))"
    using device_okD(1,2) [OF ok] k fresh(2) by (auto simp: peers' live_def)
  moreover have "set (d_peers_by_idx d') = indexed d'" "distinct (map fst (d_peers_by_idx d'))"
    using device_okD(5,6) [OF ok] new(2) by (auto simp: by_idx idx)
  moreover have "d_store d' b \<noteq> None" if "live d' b" for b
    using device_okD(3) [OF ok] that by (auto simp: live' store')
  moreover have "b < d_next_ref d'" if "d_store d' b \<noteq> None" for b
  proof (cases "b = a")
    case True
    then show ?thesis by (simp add: d')
  next
    case False
    then have "b < d_next_ref d" using device_okD(4) [OF ok, of b] that by (simp add: store')
    then show ?thesis by (simp add: d' a_def)
  qed
  moreover have "live d' b \<and> (\<exists>q. d_store d' b = Some q \<and> ips (p_allowed_ips q) net \<noteq> None)"
    if "routes (d_peers_by_ip d') net = Some b" for net b
  proof (cases "net \<in> nets_of (nt_truncate (de_ips de)) as")
    case True
    then show ?thesis using that allowed by (simp add: routes' live' store')
  next
    case False
    then have old: "routes (d_peers_by_ip d) net = Some b" using that by (simp add: routes')
    then show ?thesis using device_okD(7) [OF ok old] fresh by (auto simp: live' store')
  qed
  moreover have "issues (d_next_index d') (fst ` indexed d')"
  proof -
    have "d_next_index d' = d_next_index d" by (simp add: d' put_peer_def)
    then show ?thesis using new(3) by (simp add: idx)
  qed
  ultimately show ?thesis unfolding device_ok_def by blast
qed

lemma update_peer_ok:
  assumes de: "device_env_ok de ips routes" and ok: "device_ok ips routes d"
    and up: "update_peer de k rm rp ep as ka kr psk d r = Some (d', r')"
  shows "device_ok ips routes d'"
proof (cases rm)
  case True
  then show ?thesis using up remove_peer_ok [OF de ok] by (auto simp: update_peer_def)
next
  case False
  then obtain idx d1 priv pub where i: "next_index d = Some (idx, d1)" "d_key_pair d1 = Some (priv, pub)"
    and k: "map_of (d_peers d) k = None"
    and rest: "(case new_with_amnezia3 (de_env de) priv k psk ka idx None (with_keepalive kr (peer_amnezia_config d1)) r of
          (Inl e, r) \<Rightarrow> Some (d1, r)
        | (Inr tunnel, r) \<Rightarrow>
            Option.bind (Peer_new (de_ips de) tunnel idx ep as psk kr) (\<lambda>p.
            map_option (\<lambda>d. (d, r)) (add_peer de k p as d1))) = Some (d', r')"
    using up by (auto simp: update_peer_def bind_eq_Some_conv split: if_splits)
  note n = next_index_ok [OF ok i(1)]
  show ?thesis
  proof (cases "fst (new_with_amnezia3 (de_env de) priv k psk ka idx None (with_keepalive kr (peer_amnezia_config d1)) r)")
    case (Inl e)
    then show ?thesis using rest n(1) by (auto split: prod.splits)
  next
    case (Inr tunnel)
    then obtain p where p: "Peer_new (de_ips de) tunnel idx ep as psk kr = Some p" "add_peer de k p as d1 = Some d'"
      using rest by (auto simp: bind_eq_Some_conv split: prod.splits)
    have d1: "map_of (d_peers d1) k = None" "indexed d1 = indexed d"
      using k i(1) by (auto simp: next_index_def indexed_def live_def)
    have "p_index p = idx" and ext: "AllowedIps_extend (de_ips de) () as (nt_new (de_ips de)) = Some (p_allowed_ips p)"
      using p(1) by (auto simp: Peer_new_def)
    moreover have "ips (p_allowed_ips p) net \<noteq> None" if "net \<in> nets_of (nt_truncate (de_ips de)) as" for net
      using AllowedIps_extend_abs [OF device_env_okD(1) [OF de] ext] that by simp
    ultimately show ?thesis
      using add_peer_ok [OF de n(1) d1(1) _ _ _ p(2)] n(2,3) d1(2) by simp
  qed
qed

lemma rebuild_peer_ok:
  assumes de: "device_env_ok de ips routes" and ok: "device_ok ips routes d" and a: "live d a"
    and re: "rebuild_peer de priv base (k, a) d r = Some (d', r')"
  shows "device_ok ips routes d' \<and> d_peers d' = d_peers d"
proof -
  obtain p where p: "d_store d a = Some p" using device_okD(3) [OF ok a] by blast
  obtain idx d1 where i: "next_index d = Some (idx, d1)"
    using re p by (auto simp: rebuild_peer_def Let_def bind_eq_Some_conv)
  note n = next_index_ok [OF ok i]
  have d1: "d_peers d1 = d_peers d" "d_store d1 = d_store d" "d_peers_by_idx d1 = d_peers_by_idx d" "d_next_ref d1 = d_next_ref d"
      "d_peers_by_ip d1 = d_peers_by_ip d"
    using i by (auto simp: next_index_def)
  define ka where "ka = (case p_keepalive_range p of Some _ \<Rightarrow> None | None \<Rightarrow> persistent_keepalive (t_timers (p_tunnel p)))"
  obtain res r1 where new: "new_with_amnezia3 (de_env de) priv k (p_preshared_key p) ka idx None
      (with_keepalive (p_keepalive_range p) base) r = (res, r1)" by fastforce
  show ?thesis
  proof (cases res)
    case (Inl e)
    then have "d' = d1" using re p i new by (simp add: rebuild_peer_def Let_def ka_def)
    then show ?thesis using n(1) d1 by simp
  next
    case (Inr tunnel)
    define q where "q = set_tunnel tunnel idx p"
    have d': "d' = (put_peer a q d1)\<lparr>d_peers_by_idx := hash_insert idx a (filter (\<lambda>(i, _). i \<noteq> p_index p) (d_peers_by_idx d1))\<rparr>"
      using re p i new Inr by (simp add: rebuild_peer_def Let_def ka_def q_def)
    have q: "p_index q = idx" "p_allowed_ips q = p_allowed_ips p" by (simp_all add: q_def set_tunnel_def)
    have store': "d_store d' b = (if b = a then Some q else d_store d b)" for b
      by (simp add: d' put_peer_def d1)
    have live': "live d' = live d" by (simp add: d' live_def fun_eq_iff put_peer_def d1)
    have pa: "(p_index p, a) \<in> indexed d" using a p by (simp add: indexed_def)
    have idx: "indexed d' = insert (idx, a) {(i, b) \<in> indexed d. i \<noteq> p_index p}"
    proof -
      have "i = p_index p \<longleftrightarrow> b = a" if "(i, b) \<in> indexed d" for i b
        using live_unique_index [OF ok] that pa p by (auto simp: indexed_def)
      then show ?thesis using a q(1) by (auto simp: indexed_def live' store')
    qed
    have used: "idx \<notin> fst ` set (filter (\<lambda>(i, _). i \<noteq> p_index p) (d_peers_by_idx d))"
      using device_okD(5) [OF ok] n(2) by auto
    then have by_idx: "d_peers_by_idx d' = (idx, a) # filter (\<lambda>(i, _). i \<noteq> p_index p) (d_peers_by_idx d)"
      by (simp add: d' d1 hash_insert_new)
    have "distinct (map fst (d_peers_by_idx d'))"
      using device_okD(6) [OF ok] used by (simp add: by_idx distinct_map_filter)
    moreover have "set (d_peers_by_idx d') = indexed d'"
      using device_okD(5) [OF ok] by (auto simp: by_idx idx)
    moreover have "b < d_next_ref d'" if "d_store d' b \<noteq> None" for b
      using device_okD(4) [OF ok, of b] p that by (auto simp: store' d' put_peer_def d1 split: if_splits)
    moreover have "live d b \<and> (\<exists>q. d_store d' b = Some q \<and> ips (p_allowed_ips q) net \<noteq> None)"
      if "routes (d_peers_by_ip d) net = Some b" for net b
      using device_okD(7) [OF ok that] p q(2) by (auto simp: store')
    moreover have "issues (d_next_index d') (fst ` indexed d')"
    proof -
      have "d_next_index d' = d_next_index d1" by (simp add: d' put_peer_def)
      moreover have "fst ` indexed d' \<subseteq> insert idx (fst ` indexed d)" by (auto simp: idx)
      ultimately show ?thesis using issues_mono [OF n(3)] by simp
    qed
    moreover have "d_store d' b \<noteq> None" if "live d b" for b
      using device_okD(3) [OF ok that] by (auto simp: store')
    moreover have "d_peers d' = d_peers d" "d_peers_by_ip d' = d_peers_by_ip d" by (simp_all add: d' put_peer_def d1)
    ultimately show ?thesis
      using device_okD(1,2) [OF ok] unfolding device_ok_def live' by simp
  qed
qed

lemma rebuild_peers_ok:
  assumes de: "device_env_ok de ips routes" and "device_ok ips routes d" "\<forall>(k, a) \<in> set es. live d a"
    and "rebuild_peers de priv base es d r = Some (d', r')"
  shows "device_ok ips routes d' \<and> d_peers d' = d_peers d"
  using assms(2-)
proof (induction es arbitrary: d r)
  case (Cons e es)
  obtain k a where e: "e = (k, a)" by fastforce
  obtain d1 r1 where d1: "rebuild_peer de priv base (k, a) d r = Some (d1, r1)" "rebuild_peers de priv base es d1 r1 = Some (d', r')"
    using Cons.prems(3) by (auto simp: e bind_eq_Some_conv)
  have "device_ok ips routes d1 \<and> d_peers d1 = d_peers d"
    using rebuild_peer_ok [OF de Cons.prems(1) _ d1(1)] Cons.prems(2) e by simp
  moreover from this have "\<forall>(k, a) \<in> set es. live d1 a"
    using Cons.prems(2) by (auto simp: live_def)
  ultimately show ?case using Cons.IH [OF _ _ d1(2)] by simp
qed simp

lemma entries_live: "device_env_ok de ips routes \<Longrightarrow> \<forall>(k, a) \<in> set (de_order de (d_peers d)). live d a"
  by (force simp: device_env_okD(5) live_def)

lemma set_amnezia_config_ok:
  assumes "device_env_ok de ips routes" "device_ok ips routes d" "set_amnezia_config de c d r = Some (d', r')"
  shows "device_ok ips routes d'"
proof -
  have "device_ok ips routes (d\<lparr>d_amnezia := c\<rparr>)"
    using assms(2) by (simp add: device_ok_def indexed_def)
  moreover have "\<forall>(k, a) \<in> set (de_order de (d_peers d)). live (d\<lparr>d_amnezia := c\<rparr>) a"
    using entries_live [OF assms(1)] by simp
  ultimately have e: "device_ok ips routes (d\<lparr>d_amnezia := c\<rparr>)" "\<forall>(k, a) \<in> set (de_order de (d_peers d)). live (d\<lparr>d_amnezia := c\<rparr>) a"
    by blast+
  show ?thesis
  proof (cases "d_amnezia d = c \<or> d_key_pair d = None")
    case True
    then show ?thesis using assms(2,3) e(1) by (auto simp: set_amnezia_config_def split: if_splits)
  next
    case False
    then obtain priv pub where "d_key_pair d = Some (priv, pub)" by fastforce
    then have "rebuild_peers de priv (peer_amnezia_config (d\<lparr>d_amnezia := c\<rparr>)) (de_order de (d_peers d)) (d\<lparr>d_amnezia := c\<rparr>) r = Some (d', r')"
      using assms(3) False by (simp add: set_amnezia_config_def Let_def)
    then show ?thesis using rebuild_peers_ok [OF assms(1) e] by blast
  qed
qed

lemma rekey_peers_ok:
  assumes "device_ok ips routes d" "rekey_peers en priv pub rl es d r = Some (d', r')"
  shows "device_ok ips routes d'"
  using assms
proof (induction es arbitrary: d r)
  case (Cons e es)
  obtain k a where e: "e = (k, a)" by fastforce
  obtain p t r1 where p: "d_store d a = Some p"
      "rekey_peers en priv pub rl es (put_peer a (p\<lparr>p_tunnel := t, p_shared_limiter := True\<rparr>) d) r1 = Some (d', r')"
    using Cons.prems(2) by (auto simp: e bind_eq_Some_conv)
  show ?case
    by (rule Cons.IH [OF device_ok_put(1) [OF Cons.prems(1) p(1)] p(2)]) simp_all
qed simp

lemma Device_set_key_ok:
  assumes "device_ok ips routes d" "Device_set_key de priv d r = Some (d', r')"
  shows "device_ok ips routes d'"
proof -
  have upd: "device_ok ips routes (e\<lparr>d_key_pair := kp, d_rate_limiter := rl\<rparr>) = device_ok ips routes e" for e kp rl
    by (simp add: device_ok_def indexed_def live_def)
  show ?thesis
    using assms rekey_peers_ok [OF assms(1)]
    by (auto simp: Device_set_key_def Let_def upd split: if_splits prod.splits)
qed

lemma clear_peers_ok:
  assumes "device_env_ok de ips routes" "device_ok ips routes d"
  shows "device_ok ips routes (clear_peers de d)"
  using assms table_lawD(1) [OF device_env_okD(2) [OF assms(1)]] issues_mono [OF device_okD(8) [OF assms(2)], of "{}"]
  by (simp add: device_ok_def indexed_def live_def clear_peers_def)

lemma open_listen_socket_ok:
  assumes "device_ok ips routes d"
  shows "device_ok ips routes (snd (open_listen_socket bound port d))"
proof -
  define e where "e = shutdown_all (map snd (d_peers d)) (d\<lparr>d_udp := False\<rparr>)"
  have st: "d_store e a = (if live d a then map_option shutdown_endpoint (d_store d a) else d_store d a)" for a
    by (simp add: e_def shutdown_all_def live_def)
  have same: "d_peers e = d_peers d" "d_next_ref e = d_next_ref d" "d_peers_by_idx e = d_peers_by_idx d"
      "d_peers_by_ip e = d_peers_by_ip d" "d_next_index e = d_next_index d" "live e = live d"
    by (simp_all add: e_def shutdown_all_def live_def fun_eq_iff)
  have idx: "indexed e = indexed d"
    by (auto simp: indexed_def same st shutdown_endpoint_def)
  have route: "live d a \<and> (\<exists>p. d_store e a = Some p \<and> ips (p_allowed_ips p) net \<noteq> None)"
    if rt: "routes (d_peers_by_ip d) net = Some a" for net a
  proof -
    obtain p where "live d a" "d_store d a = Some p" "ips (p_allowed_ips p) net \<noteq> None"
      using device_okD(7) [OF assms rt] by blast
    then have "d_store e a = Some (shutdown_endpoint p)" "p_allowed_ips (shutdown_endpoint p) = p_allowed_ips p"
      by (simp_all add: st shutdown_endpoint_def)
    then show ?thesis using \<open>live d a\<close> \<open>ips (p_allowed_ips p) net \<noteq> None\<close> by metis
  qed
  have some: "d_store e a \<noteq> None \<longleftrightarrow> d_store d a \<noteq> None" for a
    by (simp add: st)
  have "device_ok ips routes e"
    using assms route unfolding device_ok_def same idx some by blast
  then show ?thesis
    unfolding open_listen_socket_def Let_def e_def [symmetric]
    by (cases bound) (simp_all add: device_ok_def indexed_def live_def)
qed

lemma set_fwmark_ok: "device_ok ips routes d \<Longrightarrow> device_ok ips routes (snd (set_fwmark ok mark d))"
  by (simp add: set_fwmark_def device_ok_def indexed_def live_def)

lemma Device_new_ok:
  assumes "device_env_ok de ips routes" "Device_new de mtu conn r = Some (d, r')"
  shows "device_ok ips routes d"
  using assms(2) table_lawD(1) [OF device_env_okD(2) [OF assms(1)]] IndexLfsr_default_issues
  by (auto simp: Device_new_def device_ok_def indexed_def live_def)

end
