(* ===== verification/DeviceEvents.thy ===== *)
theory DeviceEvents
  imports Device
begin

text \<open>
  The handlers of the device's event loop (\<open>device/mod.rs\<close>, \<open>device/api.rs\<close>): a datagram on the
  listening or on a connected socket, a packet from the interface, and the periodic timers. Each
  is modelled for one datagram, one packet or one tick, and as the handler that works through a
  batch of them; it returns what it sends and writes, in order. \<^const>\<open>None\<close> is a panic.
\<close>

datatype device_output =
    SendTo socket_address bytes
  | SendConn peer_ref bytes
  | WriteTun bytes

text \<open>A tunnel that shares the device's rate limiter works on the state of that limiter.\<close>

definition borrow :: "('t, 's) device \<Rightarrow> 't peer \<Rightarrow> tunn" where
  "borrow d p =
     (case (p_shared_limiter p, d_rate_limiter d) of
        (True, Some rl) \<Rightarrow> (p_tunnel p)\<lparr>t_rate_limiter := rl\<rparr>
      | _ \<Rightarrow> p_tunnel p)"

definition give_back :: "peer_ref \<Rightarrow> 't peer \<Rightarrow> tunn \<Rightarrow> ('t, 's) device \<Rightarrow> ('t, 's) device" where
  "give_back a p t d =
     (let d = put_peer a (p\<lparr>p_tunnel := t\<rparr>) d in
      if p_shared_limiter p \<and> d_rate_limiter d \<noteq> None then d\<lparr>d_rate_limiter := Some (t_rate_limiter t)\<rparr> else d)"

text \<open>A handler called for one item after the other.\<close>

fun batch :: "('x \<Rightarrow> 'd \<Rightarrow> rng \<Rightarrow> ('o list \<times> 'd \<times> rng) option) \<Rightarrow> 'x list \<Rightarrow> 'd \<Rightarrow> rng \<Rightarrow> ('o list \<times> 'd \<times> rng) option" where
  "batch handle [] d r = Some ([], d, r)"
| "batch handle (x # xs) d r =
     Option.bind (handle x d r) (\<lambda>(out, d, r). map_option (\<lambda>(out', d, r). (out @ out', d, r)) (batch handle xs d r))"

section \<open>Flushing the queue\<close>

text \<open>The loop that sends queued packets: the datagrams in the order they are sent.\<close>

partial_function (option) flush_queue :: "env \<Rightarrow> tunn \<Rightarrow> rng \<Rightarrow> (bytes list \<times> tunn \<times> rng) option" where
  "flush_queue en t r =
     Option.bind (decapsulate en None [] MAX_UDP_SIZE t r) (\<lambda>(res, t, r).
       case res of
         WriteToNetwork packet \<Rightarrow>
           (let (queued, t) = drain_outgoing t in
            Option.bind (flush_queue en t r) (\<lambda>(out, t, r). Some (queued @ packet # out, t, r)))
       | _ \<Rightarrow> Some ([], t, r))"

section \<open>Datagrams from the network\<close>

text \<open>The framing is removed in the receive buffer, before the peer is known.\<close>

definition device_deframe :: "keystream \<Rightarrow> amnezia3_config \<Rightarrow> bytes \<Rightarrow> bytes option" where
  "device_deframe ks amnezia buf =
     (let c = classify ks (PacketClassifier_from_config amnezia) buf;
          padding = (case c of Some c \<Rightarrow> cd_padding c | None \<Rightarrow> 0);
          protected_len = (case c of Some c \<Rightarrow> cd_protected_len c | None \<Rightarrow> 0);
          msg = drop padding buf;
          n = min protected_len (length buf - padding)
      in if length buf < padding then None
         else Option.bind
           (case (if n = TRANSPORT_HEADER_SZ then Option.bind c cd_header_mask else None) of
              Some m \<Rightarrow> Some (xor_prefix msg m)
            | None \<Rightarrow>
                if n > 0 then
                  (case a3_header_protection_key amnezia of
                     Some key \<Rightarrow> map_option (\<lambda>h. h @ drop n msg) (HeaderProtection_apply ks key (take padding buf) (take n msg))
                   | None \<Rightarrow> Some msg)
                else Some msg) (\<lambda>msg.
           Some (case Option.bind c cd_msg_size of
                   Some sz \<Rightarrow> if padding + sz \<le> length buf then take sz msg else msg
                 | None \<Rightarrow> msg)))"

definition cookie_datagram :: "env \<Rightarrow> amnezia3_config \<Rightarrow> bytes \<Rightarrow> rng \<Rightarrow> (bytes option \<times> rng) option" where
  "cookie_datagram en amnezia cookie r =
     (let s3 = unat (pc_s3 (a3_paddings amnezia)) in
      if s3 + length cookie > MAX_UDP_SIZE then Some (None, r)
      else let (prefix, r) = random_prefix s3 r in
           case a3_header_protection_key amnezia of
             None \<Rightarrow> Some (Some (prefix @ cookie), r)
           | Some key \<Rightarrow> map_option (\<lambda>m. (Some (prefix @ m), r)) (HeaderProtection_apply (en_keystream en) key prefix cookie))"

text \<open>The peer of a verified packet: by its key for an initiation, else by its index.\<close>

definition peer_of_packet :: "crypto \<Rightarrow> bytes \<times> bytes \<Rightarrow> Packet \<Rightarrow> ('t, 's) device \<Rightarrow> peer_ref option option" where
  "peer_of_packet cr key_pair packet d =
     (case packet of
        HandshakeInit p \<Rightarrow>
          map_option (\<lambda>res. case res of Inl _ \<Rightarrow> None | Inr hh \<Rightarrow> map_of (d_peers d) (hh_peer_static_public hh))
            (parse_handshake_anon cr (fst key_pair) (snd key_pair) p)
      | HandshakeResponse p \<Rightarrow> Some (map_of (d_peers_by_idx d) (drop_bit 8 (hp_receiver_idx p)))
      | PacketCookieReply p \<Rightarrow> Some (map_of (d_peers_by_idx d) (drop_bit 8 (pcr_receiver_idx p)))
      | PacketData p \<Rightarrow> Some (map_of (d_peers_by_idx d) (drop_bit 8 (pd_receiver_idx p))))"

text \<open>
  What is done with the result of a tunnel: a datagram goes to the sender and the queue is
  flushed after it, a packet goes to the interface when the peer may send from its source.
\<close>

definition handle_result ::
    "('t, 's) device_env \<Rightarrow> (bytes \<Rightarrow> device_output) \<Rightarrow> 't peer \<Rightarrow> TunnResult \<Rightarrow> tunn \<Rightarrow> rng \<Rightarrow> (device_output list \<times> tunn \<times> rng) option" where
  "handle_result de send p res t r =
     (case res of
        WriteToNetwork packet \<Rightarrow>
          map_option (\<lambda>(out, t, r). (map send (packet # out), t, r)) (flush_queue (de_env de) t r)
      | WriteToTunnelV4 packet addr \<Rightarrow> Some (if is_allowed_ip (de_ips de) (V4 addr) p then [WriteTun packet] else [], t, r)
      | WriteToTunnelV6 packet addr \<Rightarrow> Some (if is_allowed_ip (de_ips de) (V6 addr) p then [WriteTun packet] else [], t, r)
      | _ \<Rightarrow> Some ([], t, r))"

text \<open>One datagram on a listening socket; \<open>connects\<close> is whether a connected socket can be made.\<close>

definition known_peer_packet ::
    "('t, 's) device_env \<Rightarrow> bool \<Rightarrow> socket_address \<Rightarrow> Packet \<Rightarrow> peer_ref \<Rightarrow> ('t, 's) device \<Rightarrow> rng \<Rightarrow>
     (device_output list \<times> ('t, 's) device \<times> rng) option" where
  "known_peer_packet de connects addr packet a d r =
     Option.bind (d_store d a) (\<lambda>p.
     Option.bind (handle_verified_packet (de_env de) packet MAX_UDP_SIZE (borrow d p) r) (\<lambda>(res, t, r).
       case res of
         ErrResult e \<Rightarrow> Some ([], give_back a p t d, r)
       | _ \<Rightarrow>
           Option.bind (handle_result de (SendTo addr) p res t r) (\<lambda>(out, t, r).
           let (changed, p) = set_endpoint addr p;
               t = (if changed then reset_udp_window t else t)
           in map_option (\<lambda>p. (out, give_back a p t d, r))
                (if d_use_connected_socket d then map_option snd (connect_endpoint connects p) else Some p))))"

definition udp_datagram ::
    "('t, 's) device_env \<Rightarrow> bool \<Rightarrow> socket_address \<Rightarrow> bytes \<Rightarrow> ('t, 's) device \<Rightarrow> rng \<Rightarrow>
     (device_output list \<times> ('t, 's) device \<times> rng) option" where
  "udp_datagram de connects addr datagram d r =
     (let en = de_env de; amnezia = d_amnezia d in
      Option.bind (d_key_pair d) (\<lambda>key_pair.
      Option.bind (d_rate_limiter d) (\<lambda>rl.
      Option.bind (device_deframe (en_keystream en) amnezia datagram) (\<lambda>packet.
        case verify_packet (en_crypto en) (en_now en) (Some (fst addr)) packet COOKIE_REPLY_SZ (a3_headers amnezia)
               (a3_disable_cookies amnezia) rl r of
          (Inl (WriteToNetwork cookie), rl, r) \<Rightarrow>
            map_option (\<lambda>(reply, r). (case reply of Some b \<Rightarrow> [SendTo addr b] | None \<Rightarrow> [], d\<lparr>d_rate_limiter := Some rl\<rparr>, r))
              (cookie_datagram en amnezia cookie r)
        | (Inl _, rl, r) \<Rightarrow> Some ([], d\<lparr>d_rate_limiter := Some rl\<rparr>, r)
        | (Inr packet, rl, r) \<Rightarrow>
            let d = d\<lparr>d_rate_limiter := Some rl\<rparr> in
            Option.bind (peer_of_packet (en_crypto en) key_pair packet d) (\<lambda>peer.
              case peer of
                None \<Rightarrow> Some ([], d, r)
              | Some a \<Rightarrow> known_peer_packet de connects addr packet a d r)))))"

text \<open>The handler of a listening socket, with the datagrams it reads before its budget is spent.\<close>

definition udp_event ::
    "('t, 's) device_env \<Rightarrow> (bool \<times> socket_address \<times> bytes) list \<Rightarrow> ('t, 's) device \<Rightarrow> rng \<Rightarrow>
     (device_output list \<times> ('t, 's) device \<times> rng) option" where
  "udp_event de = batch (\<lambda>(connects, addr, datagram). udp_datagram de connects addr datagram)"

text \<open>One datagram on the socket connected to a peer, and the handler of that socket.\<close>

definition conn_datagram ::
    "('t, 's) device_env \<Rightarrow> peer_ref \<Rightarrow> IpAddr \<Rightarrow> bytes \<Rightarrow> ('t, 's) device \<Rightarrow> rng \<Rightarrow>
     (device_output list \<times> ('t, 's) device \<times> rng) option" where
  "conn_datagram de a peer_addr datagram d r =
     Option.bind (d_store d a) (\<lambda>p.
     Option.bind (decapsulate (de_env de) (Some peer_addr) datagram MAX_UDP_SIZE (borrow d p) r) (\<lambda>(res, t, r).
     map_option (\<lambda>(out, t, r). (out, give_back a p t d, r)) (handle_result de (SendConn a) p res t r)))"

definition conn_event ::
    "('t, 's) device_env \<Rightarrow> peer_ref \<Rightarrow> IpAddr \<Rightarrow> bytes list \<Rightarrow> ('t, 's) device \<Rightarrow> rng \<Rightarrow>
     (device_output list \<times> ('t, 's) device \<times> rng) option" where
  "conn_event de a peer_addr datagrams = batch (conn_datagram de a peer_addr) (take MAX_ITR datagrams)"

section \<open>Packets from the interface\<close>

definition send_to_endpoint :: "peer_ref \<Rightarrow> 't peer \<Rightarrow> bytes list \<Rightarrow> device_output list" where
  "send_to_endpoint a p out =
     (if p_conn p then map (SendConn a) out
      else case p_addr p of Some addr \<Rightarrow> map (SendTo addr) out | None \<Rightarrow> [])"

definition iface_packet ::
    "('t, 's) device_env \<Rightarrow> bytes \<Rightarrow> ('t, 's) device \<Rightarrow> rng \<Rightarrow> (device_output list \<times> ('t, 's) device \<times> rng) option" where
  "iface_packet de src d r =
     (if \<not> d_udp d then None
      else case Option.bind (dst_address src) (\<lambda>dst. AllowedIps_find (de_routes de) dst (d_peers_by_ip d)) of
        None \<Rightarrow> Some ([], d, r)
      | Some a \<Rightarrow>
          Option.bind (d_store d a) (\<lambda>p.
          Option.bind (encapsulate (de_env de) src MAX_UDP_SIZE (borrow d p) r) (\<lambda>(res, t, r).
            case res of
              WriteToNetwork packet \<Rightarrow>
                (let (queued, t) = drain_outgoing t in
                 Some (send_to_endpoint a p (queued @ [packet]), give_back a p t d, r))
            | Done \<Rightarrow> Some ([], give_back a p t d, r)
            | ErrResult e \<Rightarrow> Some ([], give_back a p t d, r)
            | _ \<Rightarrow> None)))"

definition iface_event ::
    "('t, 's) device_env \<Rightarrow> bytes list \<Rightarrow> ('t, 's) device \<Rightarrow> rng \<Rightarrow> (device_output list \<times> ('t, 's) device \<times> rng) option" where
  "iface_event de packets d r = (if \<not> d_udp d then None else batch (iface_packet de) (take MAX_ITR packets) d r)"

section \<open>Timers\<close>

text \<open>Every second: the limiter is reset and a changed MTU is pushed into the tunnels.\<close>

fun push_mtu :: "u32 \<Rightarrow> (bytes \<times> peer_ref) list \<Rightarrow> ('t, 's) device \<Rightarrow> ('t, 's) device option" where
  "push_mtu mtu [] d = Some d"
| "push_mtu mtu ((_, a) # es) d =
     Option.bind (d_store d a) (\<lambda>p. push_mtu mtu es (put_peer a (p\<lparr>p_tunnel := set_mtu mtu (p_tunnel p)\<rparr>) d))"

definition second_tick :: "('t, 's) device_env \<Rightarrow> nat option \<Rightarrow> ('t, 's) device \<Rightarrow> ('t, 's) device option" where
  "second_tick de mtu d =
     (let d = d\<lparr>d_rate_limiter := map_option (reset_count (en_now (de_env de))) (d_rate_limiter d)\<rparr> in
      case mtu of
        None \<Rightarrow> Some d
      | Some m \<Rightarrow>
          if m \<noteq> d_mtu d then push_mtu (of_nat m) (de_order de (d_peers d)) (d\<lparr>d_mtu := m\<rparr>) else Some d)"

text \<open>Every second as well: the monitor of the control socket reads the MTU.\<close>

definition monitor_tick :: "nat option \<Rightarrow> ('t, 's) device \<Rightarrow> ('t, 's) device" where
  "monitor_tick mtu d = (case mtu of None \<Rightarrow> d | Some m \<Rightarrow> d\<lparr>d_mtu := m\<rparr>)"

text \<open>Every quarter of a second: the timers of the peers that have an endpoint.\<close>

definition peer_tick ::
    "('t, 's) device_env \<Rightarrow> peer_ref \<Rightarrow> ('t, 's) device \<Rightarrow> rng \<Rightarrow> (device_output list \<times> ('t, 's) device \<times> rng) option" where
  "peer_tick de a d r =
     Option.bind (d_store d a) (\<lambda>p.
       case p_addr p of
         None \<Rightarrow> Some ([], d, r)
       | Some addr \<Rightarrow>
           Option.bind (update_timers (de_env de) MAX_UDP_SIZE (borrow d p) r) (\<lambda>(res, t, r).
             case res of
               Done \<Rightarrow> Some ([], give_back a p t d, r)
             | ErrResult ConnectionExpired \<Rightarrow> Some ([], give_back a (shutdown_endpoint p) t d, r)
             | ErrResult e \<Rightarrow> Some ([], give_back a p t d, r)
             | WriteToNetwork packet \<Rightarrow>
                 (let (queued, t) = drain_outgoing t in Some (map (SendTo addr) (queued @ [packet]), give_back a p t d, r))
             | _ \<Rightarrow> None))"

definition peers_tick ::
    "('t, 's) device_env \<Rightarrow> peer_ref list \<Rightarrow> ('t, 's) device \<Rightarrow> rng \<Rightarrow> (device_output list \<times> ('t, 's) device \<times> rng) option" where
  "peers_tick de = batch (peer_tick de)"

definition timer_event ::
    "('t, 's) device_env \<Rightarrow> ('t, 's) device \<Rightarrow> rng \<Rightarrow> (device_output list \<times> ('t, 's) device \<times> rng) option" where
  "timer_event de d r =
     (if \<not> d_udp d then Some ([], d, r) else peers_tick de (map snd (de_order de (d_peers d))) d r)"

section \<open>Handlers\<close>

text \<open>
  What every handler promises of one item, and what follows for a batch of them: the invariant
  is kept.
\<close>

locale event_handler =
  fixes inv :: "'d \<Rightarrow> bool" and handle :: "'x \<Rightarrow> 'd \<Rightarrow> rng \<Rightarrow> ('o list \<times> 'd \<times> rng) option"
  assumes keeps: "inv d \<Longrightarrow> handle x d r = Some (out, d', r') \<Longrightarrow> inv d'"
begin

lemma batch_step:
  assumes "batch handle (x # xs) d r = Some (out, d', r')"
  obtains out1 d1 r1 out2 where "handle x d r = Some (out1, d1, r1)" "batch handle xs d1 r1 = Some (out2, d', r')" "out = out1 @ out2"
proof -
  obtain out1 d1 r1 where one: "handle x d r = Some (out1, d1, r1)"
    using assms by (auto simp: bind_eq_Some_conv)
  then obtain out2 where "batch handle xs d1 r1 = Some (out2, d', r')" "out = out1 @ out2"
    using assms by auto
  with one show thesis by (rule that)
qed

lemma batch_keeps: "inv d \<Longrightarrow> batch handle xs d r = Some (out, d', r') \<Longrightarrow> inv d'"
proof (induction xs arbitrary: d r out)
  case (Cons x xs)
  from Cons.prems(2) show ?case
    by (rule batch_step) (use Cons.IH keeps [OF Cons.prems(1)] in blast)
qed simp

end

section \<open>The invariant under events\<close>

lemma device_ok_limiter [simp]:
  "device_ok ips routes (d\<lparr>d_rate_limiter := rl\<rparr>) = device_ok ips routes d"
  "device_ok ips routes (d\<lparr>d_mtu := m\<rparr>) = device_ok ips routes d"
  by (simp_all add: device_ok_def indexed_def live_def)

lemma give_back_ok:
  assumes "device_ok ips routes d" "d_store d a = Some p" "p_index p' = p_index p" "p_allowed_ips p' = p_allowed_ips p"
  shows "device_ok ips routes (give_back a p' t d)"
  using device_ok_put(1) [OF assms(1,2), of "p'\<lparr>p_tunnel := t\<rparr>"] assms(3,4) by (simp add: give_back_def Let_def)

lemma known_peer_packet_cases:
  assumes "known_peer_packet de connects addr packet a d r = Some (out, d', r')"
  obtains p res t r1 p' t' where "d_store d a = Some p"
    "handle_verified_packet (de_env de) packet MAX_UDP_SIZE (borrow d p) r = Some (res, t, r1)"
    "d' = give_back a p' t' d" "p_index p' = p_index p" "p_allowed_ips p' = p_allowed_ips p"
    "out = [] \<or> (\<exists>t2 r2. handle_result de (SendTo addr) p res t r1 = Some (out, t2, r2))"
proof -
  obtain p where p: "d_store d a = Some p"
    using assms by (auto simp: known_peer_packet_def bind_eq_Some_conv)
  obtain res t r1 where h: "handle_verified_packet (de_env de) packet MAX_UDP_SIZE (borrow d p) r = Some (res, t, r1)"
    using assms p by (auto simp: known_peer_packet_def bind_eq_Some_conv)
  note step = assms [unfolded known_peer_packet_def p bind.simps h prod.case]
  obtain changed q where q: "set_endpoint addr p = (changed, q)" by fastforce
  then have q': "p_index q = p_index p" "p_allowed_ips q = p_allowed_ips p"
    by (auto simp: set_endpoint_def split: if_splits)
  have conn: "p_index q2 = p_index p \<and> p_allowed_ips q2 = p_allowed_ips p"
    if "(if d_use_connected_socket d then map_option snd (connect_endpoint connects q) else Some q) = Some q2" for q2
    using that q' by (auto simp: connect_endpoint_def split: if_splits)
  show thesis
  proof (cases "\<exists>e. res = ErrResult e")
    case True
    then show thesis using step that [OF p h, of p t] by auto
  next
    case False
    then have "Option.bind (handle_result de (SendTo addr) p res t r1) (\<lambda>(out, t, r).
        map_option (\<lambda>p. (out, give_back a p (if changed then reset_udp_window t else t) d, r))
          (if d_use_connected_socket d then map_option snd (connect_endpoint connects q) else Some q)) = Some (out, d', r')"
      using step by (cases res) (simp_all add: q Let_def)
    then obtain t2 r2 q2 where "handle_result de (SendTo addr) p res t r1 = Some (out, t2, r2)"
        "(if d_use_connected_socket d then map_option snd (connect_endpoint connects q) else Some q) = Some q2"
        "d' = give_back a q2 (if changed then reset_udp_window t2 else t2) d"
      by (auto simp: bind_eq_Some_conv)
    then show thesis using that [OF p h] conn by blast
  qed
qed

lemma known_peer_packet_ok:
  assumes "device_ok ips routes d" "known_peer_packet de connects addr packet a d r = Some (out, d', r')"
  shows "device_ok ips routes d'"
  using assms(2) by (rule known_peer_packet_cases) (use give_back_ok [OF assms(1)] in simp)

lemma udp_datagram_cases:
  assumes "udp_datagram de connects addr datagram d r = Some (out, d', r')"
  obtains (dropped) rl where "d' = d\<lparr>d_rate_limiter := rl\<rparr>" "\<And>pkt. WriteTun pkt \<notin> set out"
  | (peer) packet a rl r1 kp where "known_peer_packet de connects addr packet a (d\<lparr>d_rate_limiter := rl\<rparr>) r1 = Some (out, d', r')"
      "peer_of_packet (en_crypto (de_env de)) kp packet d = Some (Some a)"
proof -
  let ?en = "de_env de"
  obtain kp rl msg where k: "d_key_pair d = Some kp" "d_rate_limiter d = Some rl"
      "device_deframe (en_keystream ?en) (d_amnezia d) datagram = Some msg"
    using assms by (auto simp: udp_datagram_def Let_def bind_eq_Some_conv)
  obtain v rl1 r1 where v: "verify_packet (en_crypto ?en) (en_now ?en) (Some (fst addr)) msg COOKIE_REPLY_SZ
      (a3_headers (d_amnezia d)) (a3_disable_cookies (d_amnezia d)) rl r = (v, rl1, r1)"
    by (metis prod_cases3)
  note ev = assms [unfolded udp_datagram_def Let_def, simplified k v bind.simps prod.case option.simps]
  have same: "peer_of_packet cr kp pk (d\<lparr>d_rate_limiter := x\<rparr>) = peer_of_packet cr kp pk d" for cr pk x
    by (cases pk) (simp_all add: peer_of_packet_def cong: sum.case_cong)
  show thesis
  proof (cases v)
    case (Inl res)
    then have "d' = d\<lparr>d_rate_limiter := Some rl1\<rparr> \<and> (\<forall>pkt. WriteTun pkt \<notin> set out)"
      using ev by (cases res) (auto split: option.splits)
    then show thesis using dropped by blast
  next
    case (Inr packet)
    then obtain pr where pr: "peer_of_packet (en_crypto ?en) kp packet d = Some pr"
      and rest: "(case pr of None \<Rightarrow> Some ([], d\<lparr>d_rate_limiter := Some rl1\<rparr>, r1)
        | Some a \<Rightarrow> known_peer_packet de connects addr packet a (d\<lparr>d_rate_limiter := Some rl1\<rparr>) r1) = Some (out, d', r')"
      using ev by (auto simp: bind_eq_Some_conv same)
    show thesis
    proof (cases pr)
      case None
      then show thesis using rest dropped [of "Some rl1"] by auto
    next
      case (Some a)
      then show thesis using rest pr peer by simp
    qed
  qed
qed

lemma udp_datagram_ok:
  assumes "device_ok ips routes d" "udp_datagram de connects addr datagram d r = Some (out, d', r')"
  shows "device_ok ips routes d'"
  using assms(2)
proof (cases rule: udp_datagram_cases)
  case (peer packet a rl r1 kp)
  then show ?thesis using known_peer_packet_ok assms(1) by (metis device_ok_limiter(1))
qed (use assms(1) in simp)

lemma conn_datagram_ok:
  assumes "device_ok ips routes d" "conn_datagram de a ip datagram d r = Some (out, d', r')"
  shows "device_ok ips routes d'"
  using assms give_back_ok [OF assms(1)] by (auto simp: conn_datagram_def bind_eq_Some_conv)

lemma iface_packet_cases:
  assumes "iface_packet de src d r = Some (out, d', r')"
  obtains (dropped) "out = []" "d' = d"
  | (routed) dst a p t bs where "dst_address src = Some dst" "AllowedIps_find (de_routes de) dst (d_peers_by_ip d) = Some a"
      "d_store d a = Some p" "d' = give_back a p t d" "out = [] \<or> out = send_to_endpoint a p bs"
proof (cases "Option.bind (dst_address src) (\<lambda>dst. AllowedIps_find (de_routes de) dst (d_peers_by_ip d))")
  case None
  then show thesis using assms dropped by (simp add: iface_packet_def split: if_splits)
next
  case (Some a)
  then obtain dst where dst: "dst_address src = Some dst" "AllowedIps_find (de_routes de) dst (d_peers_by_ip d) = Some a"
    by (auto simp: bind_eq_Some_conv)
  obtain p res t r1 where p: "d_store d a = Some p" "encapsulate (de_env de) src MAX_UDP_SIZE (borrow d p) r = Some (res, t, r1)"
    using assms Some by (auto simp: iface_packet_def bind_eq_Some_conv split: if_splits)
  obtain queued t' where q: "drain_outgoing t = (queued, t')" by fastforce
  have "\<exists>t bs. d' = give_back a p t d \<and> (out = [] \<or> out = send_to_endpoint a p bs)"
    using assms Some p q by (cases res) (auto simp: iface_packet_def split: if_splits)
  then show thesis using routed [OF dst p(1)] by blast
qed

lemma iface_packet_ok:
  assumes "device_ok ips routes d" "iface_packet de src d r = Some (out, d', r')"
  shows "device_ok ips routes d'"
  using assms(2)
proof (cases rule: iface_packet_cases)
  case (routed dst a p t bs)
  then show ?thesis using give_back_ok [OF assms(1)] by simp
qed (use assms(1) in simp)

lemma push_mtu_ok:
  assumes "device_ok ips routes d" "push_mtu m es d = Some d'"
  shows "device_ok ips routes d'"
  using assms
proof (induction m es d rule: push_mtu.induct)
  case (2 m k a es d)
  then obtain p where p: "d_store d a = Some p"
      "push_mtu m es (put_peer a (p\<lparr>p_tunnel := set_mtu m (p_tunnel p)\<rparr>) d) = Some d'"
    by (auto simp: bind_eq_Some_conv)
  show ?case
    by (rule "2.IH" [OF p(1) device_ok_put(1) [OF "2.prems"(1) p(1)] p(2)]) simp_all
qed simp

lemma second_tick_ok:
  assumes "device_ok ips routes d" "second_tick de mtu d = Some d'"
  shows "device_ok ips routes d'"
proof -
  define e where "e = d\<lparr>d_rate_limiter := map_option (reset_count (en_now (de_env de))) (d_rate_limiter d)\<rparr>"
  have e: "device_ok ips routes e" "device_ok ips routes (e\<lparr>d_mtu := m\<rparr>)" for m
    using assms(1) by (simp_all add: e_def)
  show ?thesis
    using assms(2) e push_mtu_ok [OF e(2)] unfolding second_tick_def Let_def e_def [symmetric]
    by (cases mtu) (simp_all split: if_splits)
qed

lemma peer_tick_ok:
  assumes "device_ok ips routes d" "peer_tick de a d r = Some (out, d', r')"
  shows "device_ok ips routes d'"
proof -
  obtain p where p: "d_store d a = Some p"
    using assms(2) by (auto simp: peer_tick_def bind_eq_Some_conv)
  have "d' = d \<or> (\<exists>p' t. d' = give_back a p' t d \<and> p_index p' = p_index p \<and> p_allowed_ips p' = p_allowed_ips p)"
  proof (cases "p_addr p")
    case None
    then show ?thesis using assms(2) p by (simp add: peer_tick_def)
  next
    case (Some addr)
    then obtain res t r1 where u: "update_timers (de_env de) MAX_UDP_SIZE (borrow d p) r = Some (res, t, r1)"
      using assms(2) p by (auto simp: peer_tick_def bind_eq_Some_conv)
    obtain queued t' where q: "drain_outgoing t = (queued, t')" by fastforce
    note tick = assms(2) [unfolded peer_tick_def p bind.simps Some option.case u prod.case]
    show ?thesis
    proof (cases res)
      case (ErrResult e)
      then have "d' = give_back a p t d \<or> d' = give_back a (shutdown_endpoint p) t d"
        using tick by (cases e) simp_all
      then show ?thesis by (auto simp: shutdown_endpoint_def)
    next
      case Done
      then show ?thesis using tick by auto
    next
      case (WriteToNetwork pk)
      then have "d' = give_back a p t' d" using tick q by simp
      then show ?thesis by blast
    qed (use tick in simp_all)
  qed
  then show ?thesis
    using assms(1) give_back_ok [OF assms(1) p] by blast
qed

interpretation datagrams: event_handler "device_ok ips routes" "\<lambda>(connects, addr, datagram). udp_datagram de connects addr datagram" for ips routes de
  by unfold_locales (auto dest: udp_datagram_ok split: prod.splits)

interpretation conn_datagrams: event_handler "device_ok ips routes" "conn_datagram de a ip" for ips routes de a ip
  by unfold_locales (rule conn_datagram_ok)

interpretation packets: event_handler "device_ok ips routes" "iface_packet de" for ips routes de
  by unfold_locales (rule iface_packet_ok)

interpretation ticks: event_handler "device_ok ips routes" "peer_tick de" for ips routes de
  by unfold_locales (rule peer_tick_ok)

lemma handler_events_ok:
  assumes "device_ok ips routes d"
  shows "udp_event de datagrams d r = Some (out, d', r') \<Longrightarrow> device_ok ips routes d'"
    and "conn_event de a ip bs d r = Some (out, d', r') \<Longrightarrow> device_ok ips routes d'"
    and "iface_event de bs d r = Some (out, d', r') \<Longrightarrow> device_ok ips routes d'"
  using datagrams.batch_keeps [OF assms] conn_datagrams.batch_keeps [OF assms] packets.batch_keeps [OF assms]
  by (auto simp: udp_event_def conn_event_def iface_event_def split: if_splits)

lemma timer_event_ok:
  "device_ok ips routes d \<Longrightarrow> timer_event de d r = Some (out, d', r') \<Longrightarrow> device_ok ips routes d'"
  using ticks.batch_keeps by (fastforce simp: timer_event_def peers_tick_def split: if_splits)

end
