(* ===== verification/DeviceSafety.thy ===== *)
theory DeviceSafety
  imports DeviceEvents "HOL-Library.AList"
begin

text \<open>
  What the device as a whole guarantees: the maps of peers stay consistent in every run, packets
  are accepted and sent only where the allowed addresses permit it, and the loop that flushes
  the queue of a tunnel ends.
\<close>

section \<open>The queue is flushed in finitely many steps\<close>

lemma drain_loop_eq:
  "length (t_network_outgoing t) < n \<Longrightarrow> drain_loop n t = (t_network_outgoing t, t\<lparr>t_network_outgoing := []\<rparr>)"
proof (induction n arbitrary: t)
  case (Suc n)
  then show ?case
    by (cases "t_network_outgoing t") (auto simp: poll_outgoing_packet_def)
qed simp

lemma drain_outgoing_eq: "drain_outgoing t = (t_network_outgoing t, t\<lparr>t_network_outgoing := []\<rparr>)"
  by (simp add: drain_outgoing_def drain_loop_eq del: drain_loop.simps)

lemma flush_queue_step:
  "flush_queue en t r =
     Option.bind (send_queued_packet en MAX_UDP_SIZE t r) (\<lambda>(res, t, r).
       case res of
         WriteToNetwork packet \<Rightarrow>
           Option.bind (flush_queue en (t\<lparr>t_network_outgoing := []\<rparr>) r) (\<lambda>(out, t', r).
             Some (t_network_outgoing t @ packet # out, t', r))
       | _ \<Rightarrow> Some ([], t, r))"
  by (subst flush_queue.simps) (simp add: decapsulate_def drain_outgoing_eq cong: TunnResult.case_cong)

lemma flush_queue_empty: "t_packet_queue t = [] \<Longrightarrow> flush_queue en t r = Some ([], t, r)"
  by (subst flush_queue_step) (simp add: send_queued_packet_def dequeue_packet_def)

lemma flush_with_session:
  assumes "crypto_ok (en_crypto en)" "framing_ok (Tunn_classifier t)" "t_sessions t ! (t_current t mod N_SESSIONS) \<noteq> None"
    and "t_current t mod N_SESSIONS < length (t_sessions t)"
  shows "flush_queue en t r \<noteq> None"
  using assms(2-)
proof (induction "length (t_packet_queue t)" arbitrary: t r)
  case 0
  then show ?case by (simp add: flush_queue_empty)
next
  case (Suc n)
  then obtain p ps s where q: "t_packet_queue t = p # ps" and s: "t_sessions t ! (t_current t mod N_SESSIONS) = Some s"
    by (cases "t_packet_queue t") auto
  define t1 where "t1 = t\<lparr>t_packet_queue := ps\<rparr>"
  have d: "dequeue_packet t = (Some p, t1)" by (simp add: dequeue_packet_def q t1_def)
  have s1: "t_sessions t1 ! (t_current t1 mod N_SESSIONS) = Some s" using s by (simp add: t1_def)
  have cl: "framing_ok (Tunn_classifier t1)" using Suc.prems(1) by (simp add: t1_def Tunn_classifier_def)
  show ?case
  proof (cases "s4 t1 + 32 + length p \<le> MAX_UDP_SIZE")
    case False
    then have "encapsulate en p MAX_UDP_SIZE t1 r = Some (ErrResult DestinationBufferTooSmall, t1, r)"
      using s1 by (simp add: encapsulate_def DATA_OVERHEAD_SZ_def)
    then show ?thesis
      by (subst flush_queue_step) (simp add: send_queued_packet_def d)
  next
    case True
    then obtain w t2 r2 where e: "encapsulate en p MAX_UDP_SIZE t1 r = Some (WriteToNetwork w, t2, r2)"
        "t_sessions t2 = (t_sessions t1)[t_current t1 mod N_SESSIONS := Some (s\<lparr>sending_key_counter := sending_key_counter s + 1\<rparr>)]"
        "t_current t2 = t_current t1" "Tunn_classifier t2 = Tunn_classifier t1"
      using encapsulate_wire [OF assms(1) cl True s1] by metis
    have "t_packet_queue t2 = ps"
      using e(1) by (cases rule: encapsulate_cases) (auto simp: s s1 t1_def timer_tick_def observe_datagram_def)
    then have "n = length (t_packet_queue (t2\<lparr>t_network_outgoing := []\<rparr>))" using Suc.hyps(2) q by simp
    then have "flush_queue en (t2\<lparr>t_network_outgoing := []\<rparr>) r2 \<noteq> None"
      using Suc.prems cl e(2-4) by (intro Suc.hyps(1)) (simp_all add: t1_def Tunn_classifier_def)
    then show ?thesis
      by (subst flush_queue_step) (auto simp: send_queued_packet_def d e(1))
  qed
qed

text \<open>Once an initiation is on its way, a packet without a session only goes back to the queue.\<close>

lemma flush_in_progress:
  assumes "t_sessions t ! (t_current t mod N_SESSIONS) = None" "is_in_progress (t_handshake t)"
  shows "flush_queue en t r \<noteq> None"
proof (cases "t_packet_queue t")
  case (Cons p ps)
  have "encapsulate en p MAX_UDP_SIZE (t\<lparr>t_packet_queue := ps\<rparr>) r = Some (Done, queue_packet p (t\<lparr>t_packet_queue := ps\<rparr>), r)"
    using assms by (simp add: encapsulate_def Tunn_format_handshake_initiation_def queue_packet_def)
  then show ?thesis
    by (subst flush_queue_step) (simp add: send_queued_packet_def dequeue_packet_def Cons)
qed (simp add: flush_queue_empty)

lemma initiation_in_progress:
  assumes "viable en t" "Tunn_format_handshake_initiation en n False t r = Some (WriteToNetwork w, t', r')"
  shows "is_in_progress (t_handshake t') \<and> t_sessions t' = t_sessions t \<and> t_current t' = t_current t"
proof -
  have "s1 t + HANDSHAKE_INIT_SZ \<le> n" "\<not> is_in_progress (t_handshake t) \<or> False"
    using assms(2) by (auto simp: Tunn_format_handshake_initiation_def split: if_splits)
  then obtain k ty r1 msg r2 where
      "format_handshake_initiation (en_crypto en) (en_now en) k ty (t_handshake t) r1 = Some (Ok msg, t_handshake t', r2)"
      "t_sessions t' = t_sessions t" "t_current t' = t_current t"
    using Tunn_initiation_sent [OF viableD(6,7) [OF assms(1)] _ _ viableD(3) [OF assms(1)], of n False r] assms(2) by auto
  then show ?thesis
    using format_initiation_effect(1) by (fastforce simp: is_in_progress_def)
qed

lemma flush_without_session:
  assumes "viable en t" "t_sessions t ! (t_current t mod N_SESSIONS) = None"
  shows "flush_queue en t r \<noteq> None"
proof -
  obtain res t1 r1 where send: "send_queued_packet en MAX_UDP_SIZE t r = Some (res, t1, r1)"
    using send_queued_total [OF assms(1), of MAX_UDP_SIZE r] by auto
  show ?thesis
  proof (cases "\<exists>w. res = WriteToNetwork w")
    case True
    then obtain w where w: "res = WriteToNetwork w" by blast
    obtain p ps where q: "t_packet_queue t = p # ps"
      using send w by (cases "t_packet_queue t") (auto simp: send_queued_packet_def dequeue_packet_def)
    then have "Tunn_format_handshake_initiation en MAX_UDP_SIZE False (queue_packet p (t\<lparr>t_packet_queue := ps\<rparr>)) r =
        Some (WriteToNetwork w, t1, r1)"
      using send w assms(2) by (auto simp: send_queued_packet_def dequeue_packet_def encapsulate_def
          split: option.splits TunnResult.splits)
    moreover have "viable en (queue_packet p (t\<lparr>t_packet_queue := ps\<rparr>))"
      using dequeue_viable [OF assms(1), of "Some p"] q by (simp add: dequeue_packet_def viable_def)
    ultimately have "is_in_progress (t_handshake t1)" "t_sessions t1 ! (t_current t1 mod N_SESSIONS) = None"
      using initiation_in_progress assms(2) by (simp_all add: queue_packet_def split: if_splits)
    then have "flush_queue en (t1\<lparr>t_network_outgoing := []\<rparr>) r1 \<noteq> None"
      by (intro flush_in_progress) simp_all
    then show ?thesis
      by (subst flush_queue_step) (auto simp: send w)
  next
    case False
    then show ?thesis
      by (subst flush_queue_step) (cases res, simp_all add: send)
  qed
qed

section \<open>Sources of delivered packets\<close>

text \<open>The source address in the header of an IP packet, as \<^const>\<open>dst_address\<close> reads the destination.\<close>

definition src_address :: "bytes \<Rightarrow> IpAddr option" where
  "src_address packet =
     (if packet = [] then None
      else if ip_version packet = 4 \<and> length packet \<ge> IPV4_MIN_HEADER_SIZE then
        Some (V4 (slice packet IPV4_SRC_IP_OFF (IPV4_SRC_IP_OFF + IPV4_IP_SZ)))
      else if ip_version packet = 6 \<and> length packet \<ge> IPV6_MIN_HEADER_SIZE then
        Some (V6 (slice packet IPV6_SRC_IP_OFF (IPV6_SRC_IP_OFF + IPV6_IP_SZ)))
      else None)"

text \<open>A result for the interface is labelled with the source address of its packet.\<close>

definition sourced :: "TunnResult \<Rightarrow> bool" where
  "sourced res =
     (case res of
        WriteToTunnelV4 p a \<Rightarrow> src_address p = None \<or> src_address p = Some (V4 a)
      | WriteToTunnelV6 p a \<Rightarrow> src_address p = None \<or> src_address p = Some (V6 a)
      | _ \<Rightarrow> True)"

lemma slice_take: "j \<le> n \<Longrightarrow> slice (take n xs) i j = slice xs i j"
  by (simp add: slice_def drop_take min_def)

lemma src_address_take:
  assumes "n \<le> length p"
  shows "ip_version p = 4 \<Longrightarrow>
      src_address (take n p) = None \<or> src_address (take n p) = Some (V4 (slice p IPV4_SRC_IP_OFF (IPV4_SRC_IP_OFF + IPV4_IP_SZ)))"
    and "ip_version p = 6 \<Longrightarrow>
      src_address (take n p) = None \<or> src_address (take n p) = Some (V6 (slice p IPV6_SRC_IP_OFF (IPV6_SRC_IP_OFF + IPV6_IP_SZ)))"
  using assms by (cases "n = 0"; auto simp: src_address_def ip_version_def ip_consts slice_take hd_take)+

lemma validate_sourced: "validate_decapsulated_packet p t = (res, t') \<Longrightarrow> sourced res"
  using src_address_take [of _ p]
  by (auto simp: validate_decapsulated_packet_def sourced_def Let_def split: if_splits)

lemma handle_verified_sourced:
  assumes "handle_verified_packet en packet n t r = Some (res, t', r')"
  shows "sourced res"
proof (cases packet)
  case (HandshakeInit p)
  then obtain x where h: "handle_handshake_init en p n t r = Some (x, t', r')" "res = (case x of Inl e \<Rightarrow> ErrResult e | Inr y \<Rightarrow> y)"
    using assms by (auto simp: handle_verified_packet_def)
  from h(1) show ?thesis
    by (cases rule: handle_init_cases) (use h(2) in \<open>auto simp: sourced_def\<close>)
next
  case (HandshakeResponse p)
  then obtain x where h: "handle_handshake_response en p n t r = Some (x, t', r')" "res = (case x of Inl e \<Rightarrow> ErrResult e | Inr y \<Rightarrow> y)"
    using assms by (auto simp: handle_verified_packet_def)
  from h(1) show ?thesis
    by (cases rule: handle_response_cases) (use h(2) in \<open>auto simp: sourced_def\<close>)
next
  case (PacketCookieReply p)
  then show ?thesis
    using assms by (auto simp: handle_verified_packet_def sourced_def handle_cookie_reply_def split: prod.splits sum.splits)
next
  case (PacketData p)
  then obtain x where h: "handle_data en p n t = Some (x, t')" "res = (case x of Inl e \<Rightarrow> ErrResult e | Inr y \<Rightarrow> y)"
    using assms by (auto simp: handle_verified_packet_def)
  from h(1) show ?thesis
    by (cases rule: handle_data_cases) (use h(2) validate_sourced in \<open>auto simp: sourced_def\<close>)
qed

lemma initiation_sourced: "Tunn_format_handshake_initiation en n force t r = Some (res, t', r') \<Longrightarrow> sourced res"
  by (auto simp: Tunn_format_handshake_initiation_def sourced_def Let_def split: if_splits option.splits prod.splits sum.splits)

lemma encapsulate_sourced:
  assumes "encapsulate en src n t r = Some (res, t', r')"
  shows "sourced res"
  using assms by (cases rule: encapsulate_cases) (use initiation_sourced in \<open>auto simp: sourced_def\<close>)

lemma decapsulate_sourced:
  assumes "decapsulate en addr d n t r = Some (res, t', r')"
  shows "sourced res"
proof (cases "d = []")
  case True
  then have send: "send_queued_packet en n t r = Some (res, t', r')" using assms by (simp add: decapsulate_def)
  obtain p t1 where d: "dequeue_packet t = (p, t1)" by fastforce
  show ?thesis
  proof (cases p)
    case (Some packet)
    then obtain x t2 r2 where e: "encapsulate en packet n t1 r = Some (x, t2, r2)"
      using send d by (auto simp: send_queued_packet_def split: option.splits)
    then have "res = x \<or> res = Done" using send d Some by (cases x) (simp_all add: send_queued_packet_def)
    then show ?thesis using encapsulate_sourced [OF e] by (auto simp: sourced_def)
  qed (use send d in \<open>simp add: send_queued_packet_def sourced_def\<close>)
next
  case False
  then obtain f where f: "deframe (en_keystream en) (Tunn_classifier t) d = Some f"
    using assms by (auto simp: decapsulate_def split: option.splits)
  show ?thesis
  proof (cases f)
    case (Transport p)
    then show ?thesis using assms f False by (auto simp: decapsulate_def dest: handle_verified_sourced)
  next
    case (Stripped b)
    obtain v rl r1 where v: "verify_packet (en_crypto en) (en_now en) addr b COOKIE_REPLY_SZ (t_header_config t)
        (t_disable_cookies t) (t_rate_limiter t) r = (v, rl, r1)"
      by (meson prod_cases3)
    show ?thesis
    proof (cases v)
      case (Inr packet)
      then show ?thesis using assms f False Stripped v by (auto simp: decapsulate_def dest: handle_verified_sourced)
    next
      case (Inl e)
      then show ?thesis
        using assms f False Stripped v by (cases e) (auto simp: decapsulate_def sourced_def Let_def split: if_splits)
    qed
  qed
qed

text \<open>What reaches the interface is a packet of the tunnel, from an address the peer is allowed.\<close>

fun tunnel_packet :: "TunnResult \<Rightarrow> bytes option" where
  "tunnel_packet (WriteToTunnelV4 p _) = Some p"
| "tunnel_packet (WriteToTunnelV6 p _) = Some p"
| "tunnel_packet _ = None"

lemma handle_result_allowed:
  assumes "handle_result de send p res t r = Some (out, t', r')" "sourced res" "\<And>b. send b \<noteq> WriteTun packet"
    and "WriteTun packet \<in> set out" "src_address packet = Some src"
  shows "is_allowed_ip (de_ips de) src p \<and> tunnel_packet res = Some packet"
proof (cases res)
  case (WriteToNetwork w)
  then have "WriteTun packet \<in> range send" using assms(1,4) by (auto simp: handle_result_def)
  then show ?thesis using assms(3) by (metis rangeE)
qed (use assms in \<open>auto simp: handle_result_def sourced_def split: if_splits\<close>)

lemma is_allowed_ip_net:
  assumes "device_env_ok de ips routes" "is_allowed_ip (de_ips de) src p"
  shows "\<exists>net. ips (p_allowed_ips p) net \<noteq> None \<and> in_net src net"
proof -
  obtain u where "AllowedIps_find (de_ips de) src (p_allowed_ips p) = Some u"
    using assms(2) by (auto simp: is_allowed_ip_def)
  then show ?thesis by (rule AllowedIps_find_some [OF device_env_okD(1) [OF assms(1)]]) auto
qed

lemma peer_of_packet_live:
  assumes "device_ok ips routes d" "peer_of_packet cr kp packet d = Some (Some a)"
  shows "live d a"
proof -
  have "map_of (d_peers d) k = Some a \<Longrightarrow> live d a" for k
    by (auto simp: live_def dest!: map_of_SomeD intro: rev_image_eqI)
  moreover have "map_of (d_peers_by_idx d) i = Some a \<Longrightarrow> live d a" for i
    using device_okD(5) [OF assms(1)] by (auto simp: indexed_def dest!: map_of_SomeD)
  ultimately show ?thesis
  proof (cases packet)
    case (HandshakeInit p)
    then obtain res where "parse_handshake_anon cr (fst kp) (snd kp) p = Some res"
        "(case res of Inl _ \<Rightarrow> None | Inr hh \<Rightarrow> map_of (d_peers d) (hh_peer_static_public hh)) = Some a"
      using assms(2) by (auto simp: peer_of_packet_def)
    then show ?thesis using \<open>\<And>k. map_of (d_peers d) k = Some a \<Longrightarrow> live d a\<close> by (cases res) simp_all
  qed (use assms(2) in \<open>auto simp: peer_of_packet_def\<close>)
qed

section \<open>The device removes the framing\<close>

lemma xor_prefix_short: "length xs = length ms \<Longrightarrow> xor_prefix (xs @ ys) ms = xor_prefix xs ms @ ys"
  using xor_prefix_append [of xs ms ys "[]"] by simp

lemma device_deframe_wire:
  assumes "cl = PacketClassifier_from_config am" "sent_as cl k prefix msg trailer"
    and "classify ks cl (wire ks cl k prefix msg trailer) = Some (classified_as ks cl k prefix)"
  shows "device_deframe ks am (wire ks cl k prefix msg trailer) = Some msg"
proof -
  have hp: "a3_header_protection_key am = cl_header_protection cl"
    by (simp add: assms(1) PacketClassifier_from_config_def with_random_trailers_def PacketClassifier_new_def)
  have nonce: "cl_header_protection cl \<noteq> None \<Longrightarrow> \<not> length prefix < HEADER_PROTECTION_NONCE_SIZE"
    using assms(2) by (simp add: sent_as_def)
  have len: "kind_protected k \<le> length msg"
    using kind_size_bounds(2) [of k] sent_as_length [OF assms(2)] by simp
  note facts = assms(3) [unfolded assms(1)] le_length_wire [of prefix ks cl k msg trailer] length_wire [OF assms(2), of ks] len nonce
  show ?thesis
  proof (cases "k = HK_Transport")
    case True
    have unmask: "xor_prefix (hp_xor ks key prefix (take TRANSPORT_HEADER_SZ msg) @ drop TRANSPORT_HEADER_SZ msg @ trailer)
        (map (ks key (take HEADER_PROTECTION_NONCE_SIZE prefix)) [0..<TRANSPORT_HEADER_SZ]) = msg @ trailer" for key
      using len True by (simp add: xor_prefix_short hp_xor_mask kind_protected_def min_absorb2)
    have "trailer = []" using True assms(2) by (simp add: sent_as_def)
    then show ?thesis
      using True facts unmask
      by (cases "cl_header_protection cl")
         (simp_all add: device_deframe_def assms(1) [symmetric] hp classified_as_def drop_wire kind_protected_def protect_def Let_def min_def)
  next
    case False
    then have "length msg = kind_size k" using assms(2) by (simp add: sent_as_def)
    moreover have "kind_size k \<noteq> TRANSPORT_HEADER_SZ" "0 < kind_size k" "\<not> HANDSHAKE_INIT_SZ < kind_size k"
      using kind_size_bounds [of k] by (auto simp: message_sizes)
    ultimately show ?thesis
      using False facts
      by (cases "cl_header_protection cl")
         (simp_all add: device_deframe_def assms(1) [symmetric] hp classified_as_def drop_wire take_wire kind_protected_def protect_def
            HeaderProtection_apply_def Let_def)
  qed
qed

lemma device_verify_data:
  assumes "framing_ok cl" "sent_as cl HK_Transport prefix msg []"
  shows "verify_packet cr now addr msg n (cl_headers cl) dis rl r = (Ok (PacketData (packet_of msg)), rl, r)"
proof -
  have len: "32 \<le> length msg" and ty: "HeaderRange_contains (hc_transport (cl_headers cl)) (of_le_bytes (take 4 msg))"
    using assms(2) by (simp_all add: sent_as_def kind_size_def kind_range_def message_sizes)
  then show ?thesis
    using parse_transport [OF ty _ len] assms(1)
    by (simp add: verify_packet_def handshake_sender_def framing_ok_def transport_of_header_eq TRANSPORT_HEADER_SZ_def)
qed

lemma known_peer_delivers:
  assumes "d_store d a = Some p" "handle_data (de_env de) pk MAX_UDP_SIZE (borrow d p) = Some (Ok (delivered src), t')"
    and "src \<noteq> []" "src_address src = Some ip" "ip_packet src"
  shows "\<exists>d' p'. known_peer_packet de connects addr (PacketData pk) a d r =
      Some (if is_allowed_ip (de_ips de) ip p then [WriteTun src] else [], d', r) \<and>
    d_store d' a = Some p' \<and> p_addr p' = Some addr"
proof -
  obtain changed q where q: "set_endpoint addr p = (changed, q)" by fastforce
  then have addr: "p_addr q = Some addr" by (auto simp: set_endpoint_def split: if_splits)
  have "\<exists>q2. (if d_use_connected_socket d then map_option snd (connect_endpoint connects q) else Some q) = Some q2 \<and> p_addr q2 = Some addr"
    using addr by (cases "p_conn q") (simp_all add: connect_endpoint_def)
  then obtain q2 where q2: "(if d_use_connected_socket d then map_option snd (connect_endpoint connects q) else Some q) = Some q2"
      "p_addr q2 = Some addr"
    by blast
  define out where "out = (if is_allowed_ip (de_ips de) ip p then [WriteTun src] else [])"
  have "handle_verified_packet (de_env de) (PacketData pk) MAX_UDP_SIZE (borrow d p) r = Some (delivered src, t', r)"
    using assms(2) by (simp add: handle_verified_packet_def)
  moreover have "handle_result de (SendTo addr) p (delivered src) t' r = Some (out, t', r)"
    using assms(3-5) by (auto simp: handle_result_def delivered_def src_address_def ip_packet_def out_def split: if_splits)
  moreover have "\<nexists>e. delivered src = ErrResult e" by (simp add: delivered_def)
  ultimately have "known_peer_packet de connects addr (PacketData pk) a d r =
      Some (out, give_back a q2 (if changed then reset_udp_window t' else t') d, r)"
    using assms(1) q q2(1) by (cases "delivered src") (simp_all add: known_peer_packet_def)
  moreover have "d_store (give_back a q2 t d) a = Some (q2\<lparr>p_tunnel := t\<rparr>)" for t
    by (simp add: give_back_def put_peer_def Let_def)
  moreover have "p_addr (q2\<lparr>p_tunnel := t\<rparr>) = Some addr" for t
    using q2(2) by simp
  ultimately show ?thesis
    unfolding out_def by blast
qed

lemma from_config_fields [simp]:
  "cl_headers (PacketClassifier_from_config am) = a3_headers am" "cl_paddings (PacketClassifier_from_config am) = a3_paddings am"
  "cl_random_trailers (PacketClassifier_from_config am) = a3_random_trailers am"
  by (simp_all add: PacketClassifier_from_config_def with_random_trailers_def PacketClassifier_new_def)

lemma borrow_sessions: "t_sessions (borrow d p) = t_sessions (p_tunnel p)"
  by (simp add: borrow_def split: bool.split option.split)

lemma device_delivers:
  assumes "crypto_ok (en_crypto (de_env de))" "d_key_pair d \<noteq> None" "d_rate_limiter d \<noteq> None"
    and "cl = PacketClassifier_from_config (d_amnezia d)" "framing_ok cl"
    and "\<not> mistaken (en_keystream (de_env de)) cl HK_Transport (wire (en_keystream (de_env de)) cl HK_Transport prefix msg [])"
    and "sent_as cl HK_Transport prefix msg []" "length msg \<le> MAX_UDP_SIZE"
    and "format_packet_data (en_crypto (de_env de)) src k ty pad s = Some (msg, s')"
    and "ip_packet src" "src_address src = Some ip"
    and "map_of (d_peers_by_idx d) (drop_bit 8 (sending_index s)) = Some a" "d_store d a = Some p"
    and "sessions_ok (t_sessions (p_tunnel p))" "t_sessions (p_tunnel p) ! (unat (sending_index s) mod N_SESSIONS) = Some b"
    and "sender s = receiver b" "sending_index s = receiving_index b"
    and "\<not> refused (sending_key_counter s) (receiving_key_counter b)"
  shows "\<exists>d' p'. udp_datagram de connects addr (wire (en_keystream (de_env de)) cl HK_Transport prefix msg []) d r =
      Some (if is_allowed_ip (de_ips de) ip p then [WriteTun src] else [], d', r) \<and>
    d_store d' a = Some p' \<and> p_addr p' = Some addr"
proof -
  let ?en = "de_env de"
  obtain kp rl where d: "d_key_pair d = Some kp" "d_rate_limiter d = Some rl" using assms(2,3) by auto
  let ?d = "d\<lparr>d_rate_limiter := Some rl\<rparr>"
  obtain t' where data: "handle_data ?en (packet_of msg) MAX_UDP_SIZE (borrow ?d p) = Some (Ok (delivered src), t')"
    using handle_data_delivers [OF assms(1) _ assms(9,8,10) _ assms(16-18), of "borrow ?d p"] assms(14,15)
    by (auto simp: borrow_sessions)
  have "src \<noteq> []" using assms(11) by (auto simp: src_address_def)
  then obtain d' p' where known: "known_peer_packet de connects addr (PacketData (packet_of msg)) a ?d r =
      Some (if is_allowed_ip (de_ips de) ip p then [WriteTun src] else [], d', r)"
      "d_store d' a = Some p'" "p_addr p' = Some addr"
    using known_peer_delivers [of ?d a p de "packet_of msg" src t' ip connects addr r] assms(10,11,13) data by auto
  have "device_deframe (en_keystream ?en) (d_amnezia d) (wire (en_keystream ?en) cl HK_Transport prefix msg []) = Some msg"
    using device_deframe_wire [OF assms(4,7) classify_wire_iff [OF assms(7), THEN iffD2, OF assms(6)]] .
  moreover have "verify_packet (en_crypto ?en) (en_now ?en) (Some (fst addr)) msg COOKIE_REPLY_SZ (a3_headers (d_amnezia d))
      (a3_disable_cookies (d_amnezia d)) rl r = (Ok (PacketData (packet_of msg)), rl, r)"
    using device_verify_data [OF assms(5,7)] assms(4) by simp
  moreover have "peer_of_packet (en_crypto ?en) kp (PacketData (packet_of msg)) ?d = Some (Some a)"
    using format_packet_data_fields(2) [OF assms(9)] assms(12) by (simp add: peer_of_packet_def)
  ultimately show ?thesis
    using d known by (simp add: udp_datagram_def)
qed

section \<open>An instance of the tables\<close>

text \<open>Association lists keep what the tables promise; the examples below run on them.\<close>

fun mask_bytes :: "nat \<Rightarrow> bytes \<Rightarrow> bytes" where
  "mask_bytes n [] = []"
| "mask_bytes n (b # bs) =
     (if n \<ge> 8 then b # mask_bytes (n - 8) bs else (b AND push_bit (8 - n) (- 1)) # replicate (length bs) 0)"

fun truncate_address :: "IpAddr \<Rightarrow> u8 \<Rightarrow> ip_network option" where
  "truncate_address (V4 bs) c = (if c \<le> 32 then Some (V4 (mask_bytes (unat c) bs), unat c) else None)"
| "truncate_address (V6 bs) c = (if c \<le> 128 then Some (V6 (mask_bytes (unat c) bs), unat c) else None)"

fun longest :: "(ip_network \<times> 'd) list \<Rightarrow> (ip_network \<times> 'd) option" where
  "longest [] = None"
| "longest (e # es) =
     (case longest es of None \<Rightarrow> Some e | Some f \<Rightarrow> Some (if snd (fst e) \<le> snd (fst f) then f else e))"

definition list_table :: "((ip_network \<times> 'd) list, 'd) net_table" where
  "list_table =
     \<lparr>nt_new = [], nt_truncate = truncate_address, nt_insert = \<lambda>net d t. (map_of t net, (net, d) # t),
      nt_longest_match = \<lambda>a t. longest (filter (\<lambda>(net, _). in_net a net) (AList.clearjunk t)),
      nt_retain = \<lambda>P t. filter (\<lambda>(net, d). P net d) (AList.clearjunk t), nt_iter = AList.clearjunk\<rparr>"

lemma length_byte_bits [simp]: "length (byte_bits b) = 8"
  by (simp add: byte_bits_def)

lemma take_mask_byte: "n \<le> 8 \<Longrightarrow> take n (byte_bits (b AND push_bit (8 - n) (- 1))) = take n (byte_bits b)"
  by (auto simp: byte_bits_def list_eq_iff_nth_eq rev_nth bit_simps)

lemma take_mask_bytes: "take n (concat (map byte_bits (mask_bytes n bs))) = take n (concat (map byte_bits bs))"
proof (induction n bs rule: mask_bytes.induct)
  case (2 n b bs)
  then show ?case using take_mask_byte [of n b] by (cases "n \<ge> 8") simp_all
qed simp

lemma truncate_address_law: "truncate_law truncate_address"
  unfolding truncate_law_def
proof (intro allI)
  fix a c
  show "if valid_cidr a c then \<exists>net. truncate_address a c = Some (net, unat c) \<and> in_net a (net, unat c) else truncate_address a c = None"
    by (cases a) (simp_all add: in_net_def take_mask_bytes)
qed

lemma longest_some: "longest es = Some e \<Longrightarrow> e \<in> set es \<and> (\<forall>f \<in> set es. snd (fst f) \<le> snd (fst e))"
proof (induction es arbitrary: e)
  case (Cons x es)
  show ?case
  proof (cases "longest es")
    case None
    then show ?thesis using Cons.prems by (cases es) (simp_all split: option.splits)
  next
    case (Some f)
    then show ?thesis using Cons.prems Cons.IH [OF Some] by (cases "snd (fst x) \<le> snd (fst f)") auto
  qed
qed simp

lemma longest_none: "longest es = None \<longleftrightarrow> es = []"
proof (cases es)
  case (Cons x xs)
  then show ?thesis by (cases "longest xs") simp_all
qed simp

lemma map_of_filter_distinct:
  "distinct (map fst xs) \<Longrightarrow>
     map_of (filter (\<lambda>(k, v). P k v) xs) k = (case map_of xs k of Some v \<Rightarrow> if P k v then Some v else None | None \<Rightarrow> None)"
proof (induction xs)
  case (Cons x xs)
  obtain k' v where x: "x = (k', v)" by fastforce
  have "map_of xs k = None" if "k = k'"
    using Cons.prems that x by (simp add: map_of_eq_None_iff)
  then show ?case using Cons x by (cases "k = k'") simp_all
qed simp

lemma map_of_filter_junk:
  "map_of (filter (\<lambda>(k, v). P k v) (AList.clearjunk t)) k = (case map_of t k of Some v \<Rightarrow> if P k v then Some v else None | None \<Rightarrow> None)"
  using map_of_filter_distinct [OF distinct_clearjunk] by (simp add: map_of_clearjunk)

lemma clearjunk_entry: "(net, d) \<in> set (AList.clearjunk t) \<longleftrightarrow> map_of t net = Some d"
  by (metis map_of_clearjunk distinct_clearjunk map_of_eq_Some_iff)

lemma list_table_law: "table_law (list_table :: ((ip_network \<times> 'd) list, 'd) net_table) map_of"
proof -
  have match: "map_of t net = Some d \<and> in_net a net \<and> (\<forall>net'. map_of t net' \<noteq> None \<longrightarrow> in_net a net' \<longrightarrow> snd net' \<le> snd net)"
    if "nt_longest_match list_table a t = Some (net, d)" for a net and t :: "(ip_network \<times> 'd) list" and d
  proof -
    let ?es = "filter (\<lambda>(net, _). in_net a net) (AList.clearjunk t)"
    have "(net, d) \<in> set ?es" "\<forall>f \<in> set ?es. snd (fst f) \<le> snd net"
      using longest_some [of ?es "(net, d)"] that by (simp_all add: list_table_def)
    moreover have "(net', d') \<in> set ?es \<longleftrightarrow> map_of t net' = Some d' \<and> in_net a net'" for net' d'
      by (auto simp: clearjunk_entry)
    ultimately show ?thesis by fastforce
  qed
  have miss: "\<not> in_net a net" if none: "nt_longest_match list_table a t = None" and some: "map_of t net \<noteq> None" for a net and t :: "(ip_network \<times> 'd) list"
  proof -
    obtain d where "(net, d) \<in> set (AList.clearjunk t)" using some clearjunk_entry by fastforce
    then show ?thesis using none by (auto simp: list_table_def longest_none filter_empty_conv)
  qed
  have "map_of (nt_new list_table) = Map.empty" "map_of (snd (nt_insert list_table net d t)) = (map_of t)(net \<mapsto> d)"
    "map_of (nt_retain list_table P t) = (\<lambda>net. case map_of t net of Some d \<Rightarrow> if P net d then Some d else None | None \<Rightarrow> None)"
    for net P and t :: "(ip_network \<times> 'd) list" and d
    by (simp_all add: list_table_def map_of_filter_junk fun_eq_iff)
  then show ?thesis
    unfolding table_law_def using match miss by blast
qed

definition sample_device_env :: "((ip_network \<times> unit) list, (ip_network \<times> peer_ref) list) device_env" where
  "sample_device_env = \<lparr>de_env = sample_env, de_ips = list_table, de_routes = list_table, de_order = \<lambda>xs. xs\<rparr>"

lemma sample_device_env_ok: "device_env_ok sample_device_env map_of map_of"
  by (simp add: device_env_ok_def sample_device_env_def list_table_law) (simp add: list_table_def truncate_address_law)

section \<open>Runs of a device\<close>

text \<open>
  The states a device can be in: it is created, then the control interface calls it and events
  arrive, in any order, with any clock and any random bytes.
\<close>

inductive device_run ::
    "('t \<Rightarrow> ip_network \<Rightarrow> unit option) \<Rightarrow> ('s \<Rightarrow> ip_network \<Rightarrow> peer_ref option) \<Rightarrow> ('t, 's) device \<Rightarrow> bool"
  for ips routes where
  created: "device_env_ok de ips routes \<Longrightarrow> Device_new de mtu conn r = Some (d, r') \<Longrightarrow> device_run ips routes d"
| listen: "device_run ips routes d \<Longrightarrow> open_listen_socket bound port d = (ok, d') \<Longrightarrow> device_run ips routes d'"
| fwmark: "device_run ips routes d \<Longrightarrow> set_fwmark ok mark d = (ok', d') \<Longrightarrow> device_run ips routes d'"
| key: "device_run ips routes d \<Longrightarrow> device_env_ok de ips routes \<Longrightarrow> Device_set_key de k d r = Some (d', r') \<Longrightarrow> device_run ips routes d'"
| amnezia: "device_run ips routes d \<Longrightarrow> device_env_ok de ips routes \<Longrightarrow> set_amnezia_config de c d r = Some (d', r') \<Longrightarrow>
    device_run ips routes d'"
| peer: "device_run ips routes d \<Longrightarrow> device_env_ok de ips routes \<Longrightarrow>
    update_peer de pub rm rp endpoint as ka kr psk d r = Some (d', r') \<Longrightarrow> device_run ips routes d'"
| clear: "device_run ips routes d \<Longrightarrow> device_env_ok de ips routes \<Longrightarrow> device_run ips routes (clear_peers de d)"
| datagram: "device_run ips routes d \<Longrightarrow> udp_event de datagrams d r = Some (out, d', r') \<Longrightarrow> device_run ips routes d'"
| connected: "device_run ips routes d \<Longrightarrow> conn_event de a ip datagrams d r = Some (out, d', r') \<Longrightarrow> device_run ips routes d'"
| packet: "device_run ips routes d \<Longrightarrow> iface_event de packets d r = Some (out, d', r') \<Longrightarrow> device_run ips routes d'"
| second: "device_run ips routes d \<Longrightarrow> second_tick de m d = Some d' \<Longrightarrow> device_run ips routes d'"
| monitor: "device_run ips routes d \<Longrightarrow> device_run ips routes (monitor_tick m d)"
| timer: "device_run ips routes d \<Longrightarrow> timer_event de d r = Some (out, d', r') \<Longrightarrow> device_run ips routes d'"

lemma monitor_tick_ok: "device_ok ips routes d \<Longrightarrow> device_ok ips routes (monitor_tick m d)"
  by (cases m) (simp_all add: monitor_tick_def)

section \<open>Properties\<close>

text \<open>
  C4. In every state a device can reach, its three maps of peers agree: keys and peers are
  distinct, the map by index holds exactly the live peers under their current indices, which are
  pairwise distinct, and a route leads to a live peer that is allowed the network.
\<close>

theorem device_invariant: "device_run ips routes d \<Longrightarrow> device_ok ips routes d"
proof (induction rule: device_run.induct)
  case (listen d bound port ok d')
  then show ?case using open_listen_socket_ok [of ips routes d bound port] by simp
next
  case (fwmark d ok mark ok' d')
  then show ?case using set_fwmark_ok [of ips routes d ok mark] by simp
qed (blast intro: Device_new_ok Device_set_key_ok set_amnezia_config_ok update_peer_ok clear_peers_ok handler_events_ok
    second_tick_ok monitor_tick_ok timer_event_ok)+

text \<open>
  C3. A data message that the session of a peer accepts reaches the interface through the device:
  whatever prefix and header protection surround it, the device finds the peer by its index and
  writes exactly the packet that was sent, provided the peer is allowed its source (otherwise
  nothing), and the sender's address becomes the peer's endpoint.  The one condition on the framing
  is that the datagram does not also read as a kind of message that the classifier tries first.
\<close>

theorem device_delivers_packet:
  assumes "crypto_ok (en_crypto (de_env de))" "d_key_pair d \<noteq> None" "d_rate_limiter d \<noteq> None"
    and "cl = PacketClassifier_from_config (d_amnezia d)" "framing_ok cl"
    and "\<not> mistaken (en_keystream (de_env de)) cl HK_Transport (wire (en_keystream (de_env de)) cl HK_Transport prefix msg [])"
    and "sent_as cl HK_Transport prefix msg []" "length msg \<le> MAX_UDP_SIZE"
    and "format_packet_data (en_crypto (de_env de)) src k ty pad s = Some (msg, s')"
    and "ip_packet src" "src_address src = Some ip"
    and "map_of (d_peers_by_idx d) (drop_bit 8 (sending_index s)) = Some a" "d_store d a = Some p"
    and "sessions_ok (t_sessions (p_tunnel p))" "t_sessions (p_tunnel p) ! (unat (sending_index s) mod N_SESSIONS) = Some b"
    and "sender s = receiver b" "sending_index s = receiving_index b"
    and "\<not> refused (sending_key_counter s) (receiving_key_counter b)"
  shows "\<exists>d' p'. udp_datagram de connects addr (wire (en_keystream (de_env de)) cl HK_Transport prefix msg []) d r =
      Some (if is_allowed_ip (de_ips de) ip p then [WriteTun src] else [], d', r) \<and>
    d_store d' a = Some p' \<and> p_addr p' = Some addr"
  using assms by (rule device_delivers)

text \<open>
  C5. Cryptokey routing, inbound: a packet with a source address that a datagram of the listening
  sockets brings to the interface was decrypted by the tunnel of a peer of the device, and its
  source address lies in a network that this peer is allowed.
\<close>

theorem inbound_source_allowed:
  assumes "device_env_ok de ips routes" "device_ok ips routes d"
    and "udp_datagram de connects addr datagram d r = Some (out, d', r')"
    and "WriteTun packet \<in> set out" "src_address packet = Some src"
  shows "\<exists>a p pk rl r1 res t r2 net. live d a \<and> d_store d a = Some p \<and>
    handle_verified_packet (de_env de) pk MAX_UDP_SIZE (borrow (d\<lparr>d_rate_limiter := rl\<rparr>) p) r1 = Some (res, t, r2) \<and>
    tunnel_packet res = Some packet \<and> ips (p_allowed_ips p) net \<noteq> None \<and> in_net src net"
  using assms(3)
proof (cases rule: udp_datagram_cases)
  case (peer pk a rl r1 kp)
  obtain p res t r2 where p: "d_store d a = Some p"
      "handle_verified_packet (de_env de) pk MAX_UDP_SIZE (borrow (d\<lparr>d_rate_limiter := rl\<rparr>) p) r1 = Some (res, t, r2)"
      "out = [] \<or> (\<exists>t2 r3. handle_result de (SendTo addr) p res t r2 = Some (out, t2, r3))"
    using peer(1) by (rule known_peer_packet_cases) (rule that, simp_all)
  then obtain t2 r3 where h: "handle_result de (SendTo addr) p res t r2 = Some (out, t2, r3)"
    using assms(4) by auto
  have sent: "is_allowed_ip (de_ips de) src p \<and> tunnel_packet res = Some packet"
    using handle_result_allowed [OF h handle_verified_sourced [OF p(2)] _ assms(4,5)] by simp
  then obtain net where "ips (p_allowed_ips p) net \<noteq> None" "in_net src net"
    using is_allowed_ip_net [OF assms(1)] by blast
  then show ?thesis
    using p(1,2) sent [THEN conjunct2] peer_of_packet_live [OF assms(2) peer(2)] by (intro exI conjI) simp_all
qed (use assms(4) in simp)

text \<open>
  C16. Cryptokey routing, outbound: a packet from the interface is only sent to the peer that the
  routes name for a network with its destination, that network is one the peer is allowed, and no
  route with a longer prefix contains the destination.
\<close>

theorem outbound_longest_match:
  assumes "device_env_ok de ips routes" "device_ok ips routes d"
    and "iface_packet de src d r = Some (out, d', r')" "out \<noteq> []"
  shows "\<exists>dst a p net bs. dst_address src = Some dst \<and> live d a \<and> d_store d a = Some p \<and> out = send_to_endpoint a p bs \<and>
    routes (d_peers_by_ip d) net = Some a \<and> ips (p_allowed_ips p) net \<noteq> None \<and> in_net dst net \<and>
    (\<forall>net'. routes (d_peers_by_ip d) net' \<noteq> None \<longrightarrow> in_net dst net' \<longrightarrow> snd net' \<le> snd net)"
  using assms(3)
proof (cases rule: iface_packet_cases)
  case (routed dst a p t bs)
  then obtain net where net: "nt_longest_match (de_routes de) dst (d_peers_by_ip d) = Some (net, a)"
    by (auto simp: AllowedIps_find_def)
  note law = device_env_okD(2) [OF assms(1)]
  have route: "routes (d_peers_by_ip d) net = Some a" "in_net dst net"
    using table_lawD(4) [OF law net] by simp_all
  have "\<forall>net'. routes (d_peers_by_ip d) net' \<noteq> None \<longrightarrow> in_net dst net' \<longrightarrow> snd net' \<le> snd net"
    using table_lawD(5) [OF law net] by blast
  then show ?thesis
    using device_okD(7) [OF assms(2) route(1)] route routed assms(4) by (intro exI conjI) auto
qed (use assms(4) in simp)

text \<open>
  C17. Removing a peer leaves no way to reach it: its key is unknown, no index and no route names
  it, and its connected socket is closed; every other peer is as before.
\<close>

theorem remove_peer_purges:
  assumes "device_env_ok de ips routes" "device_ok ips routes d" "map_of (d_peers d) k = Some a"
    and "remove_peer de k d = Some d'"
  shows "device_ok ips routes d' \<and> \<not> live d' a \<and> map_of (d_peers d') k = None \<and> (\<forall>i. map_of (d_peers_by_idx d') i \<noteq> Some a) \<and>
    (\<forall>ip. AllowedIps_find (de_routes de) ip (d_peers_by_ip d') \<noteq> Some a) \<and> (\<exists>p. d_store d' a = Some p \<and> \<not> p_conn p) \<and>
    (\<forall>b. b \<noteq> a \<longrightarrow> live d' b = live d b \<and> d_store d' b = d_store d b)"
  using assms(2-4)
proof (rule remove_peer_effect)
  fix p
  assume eff: "\<forall>b. d_store d' b = (if b = a then Some (shutdown_endpoint p) else d_store d b)" "\<forall>b. live d' b \<longleftrightarrow> live d b \<and> b \<noteq> a"
    "d_peers d' = filter (\<lambda>(k', _). k' \<noteq> k) (d_peers d)"
  have ok: "device_ok ips routes d'" using assms(1,2,4) by (rule remove_peer_ok)
  have "map_of (d_peers_by_idx d') i \<noteq> Some a" for i
    using device_okD(5) [OF ok] eff(2) by (auto simp: indexed_def dest!: map_of_SomeD)
  moreover have "AllowedIps_find (de_routes de) ip (d_peers_by_ip d') \<noteq> Some a" for ip
  proof
    assume "AllowedIps_find (de_routes de) ip (d_peers_by_ip d') = Some a"
    then obtain net where "routes (d_peers_by_ip d') net = Some a"
      by (rule AllowedIps_find_some [OF device_env_okD(2) [OF assms(1)]])
    then show False using device_okD(7) [OF ok] eff(2) by blast
  qed
  moreover have "map_of (d_peers d') k = None" by (auto simp: eff(3) map_of_eq_None_iff)
  ultimately show ?thesis using ok eff by (simp add: shutdown_endpoint_def)
qed

text \<open>
  C18. The loop that flushes the queue after a datagram was answered always ends.
\<close>

theorem flush_queue_returns:
  assumes "viable en t"
  shows "\<exists>out t' r'. flush_queue en t r = Some (out, t', r')"
proof (cases "t_sessions t ! (t_current t mod N_SESSIONS)")
  case None
  then show ?thesis using flush_without_session [OF assms, of r] by auto
next
  case (Some s)
  then show ?thesis
    using flush_with_session [OF viableD(1,2) [OF assms], of r] viableD(4) [OF assms] by (auto simp: sessions_ok_def)
qed

text \<open>A tick that sees the new MTU first pushes it into the tunnel of every entry.\<close>

lemma push_mtu_pushes:
  assumes "\<forall>(k, a) \<in> set es. d_store d a \<noteq> None"
  shows "\<exists>d'. push_mtu m es d = Some d' \<and> d_mtu d' = d_mtu d \<and>
    (\<forall>a p. d_store d a = Some p \<longrightarrow>
       (\<exists>p'. d_store d' a = Some p' \<and>
          t_mtu (p_tunnel p') = (if a \<in> snd ` set es then m else t_mtu (p_tunnel p))))"
  using assms
proof (induction m es d rule: push_mtu.induct)
  case (2 m k a es d)
  then obtain p where p: "d_store d a = Some p" by auto
  define e where "e = put_peer a (p\<lparr>p_tunnel := set_mtu m (p_tunnel p)\<rparr>) d"
  have st: "d_store e b = (if b = a then Some (p\<lparr>p_tunnel := set_mtu m (p_tunnel p)\<rparr>) else d_store d b)" "d_mtu e = d_mtu d" for b
    by (simp_all add: e_def put_peer_def)
  have "\<forall>(k, b) \<in> set es. d_store e b \<noteq> None" using "2.prems" by (auto simp: st)
  then obtain d' where d': "push_mtu m es e = Some d'" "d_mtu d' = d_mtu e"
      "\<And>b q. d_store e b = Some q \<Longrightarrow> \<exists>q'. d_store d' b = Some q' \<and>
          t_mtu (p_tunnel q') = (if b \<in> snd ` set es then m else t_mtu (p_tunnel q))"
    using "2.IH" [OF p] unfolding e_def [symmetric] by blast
  have "\<exists>q'. d_store d' b = Some q' \<and> t_mtu (p_tunnel q') = (if b \<in> snd ` set ((k, a) # es) then m else t_mtu (p_tunnel q))"
    if "d_store d b = Some q" for b q
    using d'(3) [of b "if b = a then p\<lparr>p_tunnel := set_mtu m (p_tunnel p)\<rparr> else q"] that
    by (cases "b = a"; cases "b \<in> snd ` set es") (simp_all add: st set_mtu_def)
  then show ?case using d'(1,2) st(2) p unfolding e_def by auto
qed auto

text \<open>
  The two pollers of the interface's MTU, in any order: each step is the monitor's (True) or the
  one-second timer's (False), with what it reads of the interface.
\<close>

fun mtu_polls :: "(('t, 's) device_env \<times> bool \<times> nat option) list \<Rightarrow> ('t, 's) device \<Rightarrow> ('t, 's) device option" where
  "mtu_polls [] d = Some d"
| "mtu_polls ((de, monitor, reading) # ps) d =
     Option.bind (if monitor then Some (monitor_tick reading d) else second_tick de reading d) (mtu_polls ps)"

lemma mtu_polls_same:
  assumes "\<forall>(de, monitor, reading) \<in> set ps. reading = None \<or> reading = Some (d_mtu d)"
  shows "\<exists>d'. mtu_polls ps d = Some d' \<and> d_mtu d' = d_mtu d \<and> d_store d' = d_store d"
  using assms
proof (induction ps d rule: mtu_polls.induct)
  case (2 de monitor reading ps d)
  obtain e where e: "(if monitor then Some (monitor_tick reading d) else second_tick de reading d) = Some e"
      "d_mtu e = d_mtu d" "d_store e = d_store d"
    using "2.prems" by (cases monitor) (auto simp: monitor_tick_def second_tick_def)
  then show ?case using "2.IH" [OF e(1)] "2.prems" by auto
qed simp

text \<open>
  C39. Which of its two pollers sees a new MTU first decides whether the tunnels learn of it.  When
  it is the one-second timer, every peer's tunnel gets the new MTU.  When it is the monitor of the
  control socket, the device notes the new MTU, and then no sequence of polls, of either kind, that
  find this MTU (or fail to read it) changes any peer.
\<close>

theorem mtu_change_missed:
  assumes "device_env_ok de ips routes" "device_ok ips routes d" "m \<noteq> d_mtu d"
    and "\<forall>(de, monitor, reading) \<in> set polls. reading = None \<or> reading = Some m"
  shows "(\<exists>d'. second_tick de (Some m) d = Some d' \<and> d_mtu d' = m \<and>
      (\<forall>a. live d a \<longrightarrow> (\<exists>p. d_store d' a = Some p \<and> t_mtu (p_tunnel p) = of_nat m))) \<and>
    (\<exists>d'. mtu_polls polls (monitor_tick (Some m) d) = Some d' \<and> d_mtu d' = m \<and> d_store d' = d_store d)"
proof
  define e where "e = d\<lparr>d_rate_limiter := map_option (reset_count (en_now (de_env de))) (d_rate_limiter d), d_mtu := m\<rparr>"
  have store: "d_store e = d_store d" "d_mtu e = m" by (simp_all add: e_def)
  have entries: "set (de_order de (d_peers d)) = set (d_peers d)" using assms(1) by (rule device_env_okD(5))
  have known: "\<exists>p. d_store d a = Some p" if "live d a" for a using device_okD(3) [OF assms(2) that] .
  have "\<forall>(k, a) \<in> set (de_order de (d_peers d)). d_store e a \<noteq> None"
    using known by (force simp: entries store live_def)
  then obtain d' where "push_mtu (of_nat m) (de_order de (d_peers d)) e = Some d'" "d_mtu d' = m"
      "\<And>a p. d_store d a = Some p \<Longrightarrow> \<exists>p'. d_store d' a = Some p' \<and>
        t_mtu (p_tunnel p') = (if live d a then of_nat m else t_mtu (p_tunnel p))"
    using push_mtu_pushes [of "de_order de (d_peers d)" e "of_nat m"] unfolding store entries live_def by blast
  then show "\<exists>d'. second_tick de (Some m) d = Some d' \<and> d_mtu d' = m \<and>
      (\<forall>a. live d a \<longrightarrow> (\<exists>p. d_store d' a = Some p \<and> t_mtu (p_tunnel p) = of_nat m))"
    using known assms(3) unfolding e_def by (fastforce simp: second_tick_def)
  show "\<exists>d'. mtu_polls polls (monitor_tick (Some m) d) = Some d' \<and> d_mtu d' = m \<and> d_store d' = d_store d"
    using mtu_polls_same [of polls "monitor_tick (Some m) d"] assms(4) by (simp add: monitor_tick_def)
qed

text \<open>
  C38. An allowed address that is given to a second peer is not taken from the first: packets to
  it are routed to the second peer, yet packets from it are still accepted from the first.
\<close>

theorem moved_address_still_accepted:
  assumes "device_env_ok de ips routes" "device_ok ips routes d" "d_store d a = Some p"
    and "nt_truncate (de_ips de) (ai_addr ip) (ai_cidr ip) = Some net" "ips (p_allowed_ips p) net \<noteq> None"
    and "add_peer de k q [ip] d = Some d'" "in_net addr net"
    and "\<forall>net'. routes (d_peers_by_ip d) net' \<noteq> None \<longrightarrow> in_net addr net' \<longrightarrow> net' = net"
  shows "AllowedIps_find (de_routes de) addr (d_peers_by_ip d') = Some (d_next_ref d) \<and> d_next_ref d \<noteq> a \<and>
    d_store d' a = Some p \<and> is_allowed_ip (de_ips de) addr p"
proof -
  note law = device_env_okD(2) [OF assms(1)]
  have a: "a < d_next_ref d" using device_okD(4) [OF assms(2), of a] assms(3) by simp
  obtain rt where rt: "AllowedIps_extend (de_routes de) (d_next_ref d) [ip] (d_peers_by_ip d) = Some rt" "d_peers_by_ip d' = rt"
      "d_store d' = (d_store d)(d_next_ref d \<mapsto> q)"
    using assms(6) by (auto simp: add_peer_def put_peer_def Let_def)
  have entries: "routes rt n = (if n = net then Some (d_next_ref d) else routes (d_peers_by_ip d) n)" for n
    using AllowedIps_extend_abs [OF law rt(1), of n] assms(4) device_env_okD(4) [OF assms(1)] by (simp add: nets_of_def)
  then obtain b where b: "AllowedIps_find (de_routes de) addr rt = Some b"
    using AllowedIps_find_none [OF law _ assms(7), of rt] by auto
  from b obtain n where "routes rt n = Some b" "in_net addr n" by (rule AllowedIps_find_some [OF law])
  then have "b = d_next_ref d" using entries [of n] assms(8) by (metis option.distinct(1) option.inject)
  moreover have "is_allowed_ip (de_ips de) addr p"
    using AllowedIps_find_none [OF device_env_okD(1) [OF assms(1)] assms(5,7)] by (simp add: is_allowed_ip_def)
  ultimately show ?thesis using a b rt assms(3) by simp
qed

section \<open>Examples\<close>

text \<open>A device with one peer that has a session and is allowed 10.0.0.0/8.\<close>

definition sample_peer :: "(ip_network \<times> unit) list peer" where
  "sample_peer =
     \<lparr>p_tunnel = sample_link 256 8 [9] [7], p_index = 1, p_addr = Some (V4 [1, 2, 3, 4], 51820), p_conn = True,
      p_allowed_ips = [((V4 [10, 0, 0, 0], 8), ())], p_preshared_key = None, p_keepalive_range = None, p_shared_limiter = False\<rparr>"

definition sample_device :: "((ip_network \<times> unit) list, (ip_network \<times> peer_ref) list) device" where
  "sample_device =
     \<lparr>d_key_pair = Some ([3], cr_pub sample_crypto [3]), d_listen_port = 51820, d_fwmark = None, d_udp = True,
      d_store = [0 \<mapsto> sample_peer], d_next_ref = 1, d_peers = [(cr_pub sample_crypto [4], 0)],
      d_peers_by_ip = [((V4 [10, 0, 0, 0], 8), 0)], d_peers_by_idx = [(1, 0)],
      d_next_index = \<lparr>lf_initial = 5, lf_lfsr = lfsr_shift 5, lf_mask = 5\<rparr>, d_use_connected_socket = False,
      d_amnezia = Amnezia3Config_default, d_mtu = 1420,
      d_rate_limiter = Some (fst (RateLimiter_new sample_crypto 7 (cr_pub sample_crypto [3]) HANDSHAKE_RATE_LIMIT (\<lambda>i. 4)))\<rparr>"

lemma sample_device_ok: "device_ok map_of map_of sample_device"
proof -
  have "IndexLfsr_next \<lparr>lf_initial = 5, lf_lfsr = 5, lf_mask = 5\<rparr> = Some (1, d_next_index sample_device)"
    by (simp add: IndexLfsr_next_def sample_device_def lfsr_shift_def LFSR_POLY_def)
  moreover have "issues \<lparr>lf_initial = 5, lf_lfsr = 5, lf_mask = 5\<rparr> {}"
    by (rule issues_new) (simp add: lfsr_ok_def)
  ultimately have "issues (d_next_index sample_device) {1}" by (rule next_index_fresh(2) [rotated])
  moreover have "live sample_device = (\<lambda>a. a = 0)" "indexed sample_device = {(1, 0)}"
    by (auto simp: live_def indexed_def sample_device_def sample_peer_def fun_eq_iff)
  ultimately show ?thesis
    by (auto simp: device_ok_def sample_device_def sample_peer_def split: if_splits)
qed

definition sample_session :: session where
  "sample_session = Session_new 8 256 [7] [9]"

definition sample_message :: bytes where
  "sample_message = le_bytes 4 (4 :: u32) @ le_bytes 4 (256 :: u32) @ le_bytes 8 (0 :: u64) @
     cr_seal sample_crypto [9] (counter_nonce 0) [] sample_packet"

definition sample_framing :: packet_classifier where
  "sample_framing = PacketClassifier_from_config Amnezia3Config_default"

lemma sample_framing_facts:
  "a3_header_protection_key Amnezia3Config_default = None" "a3_random_trailers Amnezia3Config_default = False"
  "hc_transport (a3_headers Amnezia3Config_default) = \<lparr>hr_start = 4, hr_end = 4\<rparr>"
  "cl_header_protection sample_framing = None"
  by code_simp+

lemma sample_framing_ok: "framing_ok sample_framing"
proof -
  obtain r where new: "new_with_amnezia3 sample_env [3] (cr_pub sample_crypto [4]) (Some [1, 2]) None 1 None Amnezia3Config_default (\<lambda>i. 4) =
      (Ok (sample_tunn [3] [4] 1), r)"
    using sample_tunn_new by blast
  have "Tunn_classifier (sample_tunn [3] [4] 1) = sample_framing"
    using new_fields [OF new] by (simp add: Tunn_classifier_def sample_framing_def PacketClassifier_from_config_def)
  then show "framing_ok sample_framing"
    using sample_tunn_ready [of "[3]" "[4]" 1] by (simp add: ready_def config_ok_def)
qed

lemma sample_packet_facts:
  "ip_packet sample_packet" "length sample_packet = 20" "src_address sample_packet = Some (V4 [10, 0, 0, 1])"
  "dst_address sample_packet = Some (V4 [10, 0, 0, 2])"
  by code_simp+

lemma sample_message_formatted:
  "format_packet_data sample_crypto sample_packet 100 4 0 sample_session = Some (sample_message, sample_session\<lparr>sending_key_counter := 1\<rparr>)"
  by (simp add: format_packet_data_eq sample_packet_facts sample_message_def sample_session_def Session_new_def)

lemma sample_message_length: "length sample_message = 52"
  by (simp add: sample_message_def sample_packet_facts length_seal [OF sample_crypto_ok])

lemma sample_message_sent: "sent_as sample_framing HK_Transport [] sample_message []"
proof -
  have "take 4 sample_message = le_bytes 4 (4 :: u32)" by (simp add: sample_message_def)
  moreover have "of_le_bytes (le_bytes 4 (4 :: u32)) = (4 :: u32)" by code_simp
  ultimately show ?thesis
    using sample_message_length sample_framing_facts default_config_facts(6)
    by (simp add: sent_as_def kind_padding_def kind_range_def kind_size_def message_sizes sample_framing_def HeaderRange_contains_def)
qed

lemma sample_message_not_mistaken:
  "\<not> mistaken ks sample_framing HK_Transport (wire ks sample_framing HK_Transport [] sample_message [])"
proof
  assume "mistaken ks sample_framing HK_Transport (wire ks sample_framing HK_Transport [] sample_message [])"
  then have "length (wire ks sample_framing HK_Transport [] sample_message []) \<ge> 64"
    using mistaken_length sample_framing_facts by (fastforce simp: sample_framing_def)
  then show False by (simp add: length_wire [OF sample_message_sent] sample_message_length)
qed

lemma sample_link_sessions:
  "sessions_ok (t_sessions (sample_link 256 8 [9] [7]))"
  "t_sessions (sample_link 256 8 [9] [7]) ! (256 mod N_SESSIONS) = Some (Session_new 256 8 [9] [7])"
  by (auto intro!: sessions_ok_update simp: sample_link_def N_SESSIONS_def sessions_ok_empty [unfolded N_SESSIONS_def])

lemma sample_allowed: "is_allowed_ip (de_ips sample_device_env) (V4 [10, 0, 0, 1]) sample_peer"
  by (simp add: is_allowed_ip_def AllowedIps_find_def sample_device_env_def list_table_def sample_peer_def) code_simp

lemmas sample_delivery_facts =
  sample_framing_ok sample_message_sent sample_message_not_mistaken sample_message_formatted sample_packet_facts sample_link_sessions sample_allowed
  sample_env_ok sample_crypto_ok

lemma sample_device_fields:
  "d_key_pair sample_device = Some ([3], cr_pub sample_crypto [3])" "d_rate_limiter sample_device \<noteq> None"
  "d_amnezia sample_device = Amnezia3Config_default" "map_of (d_peers_by_idx sample_device) 1 = Some 0"
  "d_store sample_device 0 = Some sample_peer" "p_tunnel sample_peer = sample_link 256 8 [9] [7]"
  "de_env sample_device_env = sample_env" "p_conn sample_peer" "d_udp sample_device" "p_shared_limiter sample_peer = False"
  by (simp_all add: sample_device_def sample_peer_def sample_device_env_def)

lemma sample_session_fields:
  "sending_index sample_session = 256" "sender sample_session = [9]" "sending_key_counter sample_session = 0"
  "receiver (Session_new 256 8 [9] [7]) = [9]" "receiving_index (Session_new 256 8 [9] [7]) = 256"
  "\<not> refused 0 (receiving_key_counter (Session_new 256 8 [9] [7]))" "(drop_bit 8 (256 :: u32)) = 1"
  by (simp_all add: sample_session_def Session_new_def refused_def validator_default_def N_BITS_def)

definition sample_datagram :: bytes where
  "sample_datagram = wire (en_keystream sample_env) sample_framing HK_Transport [] sample_message []"

theorem device_delivers_packet_witness:
  "\<exists>d' p'. udp_datagram sample_device_env False (V4 [1, 2, 3, 5], 1) sample_datagram sample_device (\<lambda>i. 2) =
      Some ([WriteTun sample_packet], d', \<lambda>i. 2) \<and>
    d_store d' 0 = Some p' \<and> p_addr p' = Some (V4 [1, 2, 3, 5], 1)"
  using device_delivers_packet [of sample_device_env sample_device sample_framing "[]" sample_message sample_packet 100 4 0 sample_session
      "sample_session\<lparr>sending_key_counter := 1\<rparr>" "V4 [10, 0, 0, 1]" 0 sample_peer "Session_new 256 8 [9] [7]" False "(V4 [1, 2, 3, 5], 1)" "\<lambda>i. 2"]
  by (simp add: sample_delivery_facts sample_device_fields sample_session_fields sample_message_length MAX_UDP_SIZE_def
      sample_framing_def [symmetric] sample_datagram_def)

lemma sample_delivery:
  "\<exists>d'. udp_datagram sample_device_env False (V4 [1, 2, 3, 5], 1) sample_datagram sample_device (\<lambda>i. 2) =
      Some ([WriteTun sample_packet], d', \<lambda>i. 2)"
  using device_delivers [of sample_device_env sample_device sample_framing "[]" sample_message sample_packet 100 4 0 sample_session
      "sample_session\<lparr>sending_key_counter := 1\<rparr>" "V4 [10, 0, 0, 1]" 0 sample_peer "Session_new 256 8 [9] [7]" False "(V4 [1, 2, 3, 5], 1)" "\<lambda>i. 2"]
  by (auto simp: sample_delivery_facts sample_device_fields sample_session_fields sample_message_length MAX_UDP_SIZE_def
      sample_framing_def [symmetric] sample_datagram_def)

theorem inbound_source_allowed_witness:
  "\<exists>d' a p net. udp_datagram sample_device_env False (V4 [1, 2, 3, 5], 1) sample_datagram sample_device (\<lambda>i. 2) =
      Some ([WriteTun sample_packet], d', \<lambda>i. 2) \<and>
    live sample_device a \<and> d_store sample_device a = Some p \<and> map_of (p_allowed_ips p) net \<noteq> None \<and> in_net (V4 [10, 0, 0, 1]) net"
proof -
  obtain d' where run: "udp_datagram sample_device_env False (V4 [1, 2, 3, 5], 1) sample_datagram sample_device (\<lambda>i. 2) =
      Some ([WriteTun sample_packet], d', \<lambda>i. 2)"
    using sample_delivery by blast
  obtain a p net where "live sample_device a" "d_store sample_device a = Some p" "map_of (p_allowed_ips p) net \<noteq> None"
      "in_net (V4 [10, 0, 0, 1]) net"
    using inbound_source_allowed [OF sample_device_env_ok sample_device_ok run, of sample_packet "V4 [10, 0, 0, 1]"]
      sample_packet_facts(3) by auto
  with run show ?thesis by blast
qed

lemma sample_outbound: "\<exists>out d' r'. iface_packet sample_device_env sample_packet sample_device (\<lambda>i. 1) = Some (out, d', r') \<and> out \<noteq> []"
proof -
  have "Tunn_classifier (sample_link 256 8 [9] [7]) = Tunn_classifier (sample_tunn [3] [4] 1)" "s4 (sample_link 256 8 [9] [7]) = s4 (sample_tunn [3] [4] 1)"
    "t_current (sample_link 256 8 [9] [7]) = t_current (sample_tunn [3] [4] 1)"
    by (simp_all add: sample_link_def s4_def Tunn_classifier_def)
  moreover obtain r where new: "new_with_amnezia3 sample_env [3] (cr_pub sample_crypto [4]) (Some [1, 2]) None 1 None Amnezia3Config_default (\<lambda>i. 4) =
      (Ok (sample_tunn [3] [4] 1), r)"
    using sample_tunn_new by blast
  moreover have "s4 (sample_tunn [3] [4] 1) = 0" "t_current (sample_tunn [3] [4] 1) = 0"
    using new_fields [OF new] by (simp_all add: s4_def default_config_facts)
  moreover have "framing_ok (Tunn_classifier (sample_tunn [3] [4] 1))"
    using sample_tunn_ready [of "[3]" "[4]" 1] by (simp add: ready_def config_ok_def)
  moreover have "t_sessions (sample_link 256 8 [9] [7]) ! (0 mod N_SESSIONS) = Some (Session_new 256 8 [9] [7])"
    using sample_link_sessions(2) by (simp add: N_SESSIONS_def)
  ultimately obtain w t' r' where "encapsulate sample_env sample_packet MAX_UDP_SIZE (sample_link 256 8 [9] [7]) (\<lambda>i. 1) =
      Some (WriteToNetwork w, t', r')"
    using encapsulate_wire [of sample_env "sample_link 256 8 [9] [7]" sample_packet MAX_UDP_SIZE "Session_new 256 8 [9] [7]" "\<lambda>i. 1"]
      sample_crypto_ok sample_env_ok(3) sample_packet_facts(2) by (auto simp: MAX_UDP_SIZE_def)
  moreover have "AllowedIps_find (de_routes sample_device_env) (V4 [10, 0, 0, 2]) (d_peers_by_ip sample_device) = Some 0"
    by (simp add: AllowedIps_find_def sample_device_env_def list_table_def sample_device_def) code_simp
  moreover have "borrow sample_device sample_peer = sample_link 256 8 [9] [7]"
    by (simp add: borrow_def sample_device_fields)
  ultimately show ?thesis
    by (simp add: iface_packet_def sample_device_fields sample_packet_facts drain_outgoing_eq send_to_endpoint_def)
qed

theorem outbound_longest_match_witness:
  "\<exists>out d' r' p bs. iface_packet sample_device_env sample_packet sample_device (\<lambda>i. 1) = Some (out, d', r') \<and>
    d_store sample_device 0 = Some p \<and> out = send_to_endpoint 0 p bs \<and> out \<noteq> []"
proof -
  obtain out d' r' where run: "iface_packet sample_device_env sample_packet sample_device (\<lambda>i. 1) = Some (out, d', r')" "out \<noteq> []"
    using sample_outbound by blast
  obtain a p bs where "d_store sample_device a = Some p" "out = send_to_endpoint a p bs"
    using outbound_longest_match [OF sample_device_env_ok sample_device_ok run] by blast
  moreover from this(1) have "a = 0" by (auto simp: sample_device_def split: if_splits)
  ultimately show ?thesis using run by blast
qed

theorem remove_peer_purges_witness:
  "\<exists>d'. remove_peer sample_device_env (cr_pub sample_crypto [4]) sample_device = Some d' \<and> \<not> live d' 0 \<and>
    AllowedIps_find (de_routes sample_device_env) (V4 [10, 0, 0, 2]) (d_peers_by_ip d') \<noteq> Some 0"
proof -
  have k: "map_of (d_peers sample_device) (cr_pub sample_crypto [4]) = Some 0" by (simp add: sample_device_def)
  then obtain d' where rm: "remove_peer sample_device_env (cr_pub sample_crypto [4]) sample_device = Some d'"
    by (simp add: remove_peer_def sample_device_fields)
  show ?thesis
    using remove_peer_purges [OF sample_device_env_ok sample_device_ok k rm] rm by blast
qed

theorem flush_queue_returns_witness:
  "\<exists>out t' r'. flush_queue sample_env (queue_packet sample_packet (sample_tunn [3] [4] 1)) (\<lambda>i. 1) = Some (out, t', r')"
proof -
  have "viable sample_env (queue_packet sample_packet (sample_tunn [3] [4] 1))"
    using sample_tunn_viable(1) [of "[3]" "[4]" 1] by (simp add: viable_def)
  then show ?thesis by (rule flush_queue_returns)
qed

theorem mtu_change_missed_witness:
  "(\<exists>d' p. second_tick sample_device_env (Some 1280) sample_device = Some d' \<and> d_store d' 0 = Some p \<and> t_mtu (p_tunnel p) = 1280) \<and>
   (\<exists>d'. mtu_polls [(sample_device_env, False, Some 1280), (sample_device_env, True, Some 1280), (sample_device_env, False, Some 1280)]
      (monitor_tick (Some 1280) sample_device) = Some d' \<and> d_mtu d' = 1280 \<and> d_store d' 0 = Some sample_peer \<and>
      t_mtu (p_tunnel sample_peer) = 1420)"
proof -
  obtain r where new: "new_with_amnezia3 sample_env [3] (cr_pub sample_crypto [4]) (Some [1, 2]) None 1 None Amnezia3Config_default (\<lambda>i. 4) =
      (Ok (sample_tunn [3] [4] 1), r)"
    using sample_tunn_new by blast
  have mtu: "a3_mtu Amnezia3Config_default = 1420" by code_simp
  have "1280 \<noteq> d_mtu sample_device" "live sample_device 0" by (simp_all add: sample_device_def live_def)
  then show ?thesis
    using mtu_change_missed [OF sample_device_env_ok sample_device_ok, of 1280
        "[(sample_device_env, False, Some 1280), (sample_device_env, True, Some 1280), (sample_device_env, False, Some 1280)]"]
      new_mtu [OF new] mtu
    by (auto simp: sample_device_fields sample_link_def simp del: mtu_polls.simps)
qed

theorem moved_address_still_accepted_witness:
  "\<exists>d'. add_peer sample_device_env [9] sample_peer [\<lparr>ai_addr = V4 [10, 1, 2, 3], ai_cidr = 8\<rparr>] sample_device = Some d' \<and>
    AllowedIps_find (de_routes sample_device_env) (V4 [10, 0, 0, 1]) (d_peers_by_ip d') = Some 1 \<and>
    d_store d' 0 = Some sample_peer \<and> is_allowed_ip (de_ips sample_device_env) (V4 [10, 0, 0, 1]) sample_peer"
proof -
  let ?ip = "\<lparr>ai_addr = V4 [10, 1, 2, 3], ai_cidr = 8\<rparr>"
  have tr: "truncate_address (V4 [10, 1, 2, 3]) 8 = Some (V4 [10, 0, 0, 0], 8)" by code_simp
  then have net: "nt_truncate (de_ips sample_device_env) (ai_addr ?ip) (ai_cidr ?ip) = Some (V4 [10, 0, 0, 0], 8)"
    by (simp add: sample_device_env_def list_table_def del: truncate_address.simps)
  then obtain d' where add: "add_peer sample_device_env [9] sample_peer [?ip] sample_device = Some d'"
    using tr by (simp add: add_peer_def AllowedIps_extend_Cons sample_device_env_def Let_def list_table_def del: truncate_address.simps)
  have "in_net (V4 [10, 0, 0, 1]) (V4 [10, 0, 0, 0], 8)" by code_simp
  then have "AllowedIps_find (de_routes sample_device_env) (V4 [10, 0, 0, 1]) (d_peers_by_ip d') = Some (d_next_ref sample_device) \<and>
      d_next_ref sample_device \<noteq> 0 \<and> d_store d' 0 = Some sample_peer \<and> is_allowed_ip (de_ips sample_device_env) (V4 [10, 0, 0, 1]) sample_peer"
    by (intro moved_address_still_accepted [OF sample_device_env_ok sample_device_ok _ net _ add])
       (auto simp: sample_device_def sample_peer_def split: if_splits)
  with add show ?thesis by (simp add: sample_device_def)
qed

text \<open>A run: the device is created, gets its key, and a peer is added.\<close>

lemma sample_run:
  "\<exists>d. device_run map_of map_of d \<and> map_of (d_peers d) (cr_pub sample_crypto [4]) \<noteq> None"
proof -
  have idx: "random_index (\<lambda>i. 4) = Some (0x040404, \<lambda>i. 4)"
  proof -
    have "of_le_bytes [4, 4, 4, 4] AND LFSR_MAX = 0x040404" by code_simp
    then show ?thesis by (subst random_index.simps) (simp add: fill_bytes_def upt_rec Let_def)
  qed
  let ?lf = "\<lparr>lf_initial = 0x040404, lf_lfsr = 0x040404, lf_mask = 0x040404\<rparr>"
  obtain d0 where d0: "Device_new sample_device_env 1420 False (\<lambda>i. 4) = Some (d0, \<lambda>i. 4)" "d_peers d0 = []" "d_key_pair d0 = None"
      "d_next_index d0 = ?lf" "d_amnezia d0 = Amnezia3Config_default" "d_mtu d0 = 1420"
    by (simp add: Device_new_def IndexLfsr_default_def idx)
  obtain d1 r1 where d1: "Device_set_key sample_device_env [3] d0 (\<lambda>i. 4) = Some (d1, r1)"
      "d_peers d1 = []" "d_key_pair d1 = Some ([3], cr_pub sample_crypto [3])" "d_next_index d1 = ?lf"
      "d_amnezia d1 = Amnezia3Config_default" "d_mtu d1 = 1420"
    using d0 by (auto simp: Device_set_key_def sample_device_env_def sample_env_ok split_beta Let_def)
  obtain i s where next1: "IndexLfsr_next ?lf = Some (i, s)"
    by (simp add: IndexLfsr_next_def lfsr_shift_def LFSR_POLY_def Let_def)
  obtain r2 where new: "new_with_amnezia3 sample_env [3] (cr_pub sample_crypto [4]) (Some [1, 2]) None i None Amnezia3Config_default (\<lambda>i. 4) =
      (Ok (sample_tunn [3] [4] i), r2)"
    using sample_tunn_new by blast
  have "Amnezia3Config_default\<lparr>a3_mtu := 1420\<rparr> = Amnezia3Config_default" by code_simp
  then obtain d2 where d2: "update_peer sample_device_env (cr_pub sample_crypto [4]) False False None [] None None (Some [1, 2]) d1 (\<lambda>i. 4) = Some (d2, r2)"
      "d_peers d2 = [(cr_pub sample_crypto [4], d_next_ref d1)]"
    using d1 next1 new
    by (auto simp: update_peer_def next_index_def peer_amnezia_config_def with_keepalive_def sample_device_env_def Peer_new_def add_peer_def
        put_peer_def hash_insert_def Let_def)
  have "device_run map_of map_of d0" by (rule created [OF sample_device_env_ok d0(1)])
  then have "device_run map_of map_of d1" by (rule key [OF _ sample_device_env_ok d1(1)])
  then have "device_run map_of map_of d2" by (rule peer [OF _ sample_device_env_ok d2(1)])
  then show ?thesis using d2(2) by auto
qed

theorem device_invariant_witness:
  "\<exists>d. device_run map_of map_of d \<and> map_of (d_peers d) (cr_pub sample_crypto [4]) \<noteq> None \<and> device_ok map_of map_of d"
  using sample_run device_invariant by blast

end
