(* ===== verification/KeyText.thy ===== *)
theory KeyText
  imports Cps
begin

text \<open>
  The text form of keys of \<open>serialization.rs\<close>: 64 hex characters, or 43 or 44 characters of
  base64. The base64 decoder of the \<open>base64\<close> crate is the parameter \<open>b64dec\<close>;
  \<^const>\<open>None\<close> is the panic of a slice that cuts a character.
\<close>

definition KEY_SIZE :: nat where "KEY_SIZE = 32"

fun key_hex :: "string \<Rightarrow> (string, bytes) fallible" where
  "key_hex [] = Some (Ok [])"
| "key_hex [a] = None"
| "key_hex (a # b # rest) =
     (if is_utf8_cont a \<or> rest \<noteq> [] \<and> is_utf8_cont (hd rest) then None
      else bind_res (Some (map_err (\<lambda>_. ''Illegal character in key'') (parse_u8_hex [a, b])))
             (\<lambda>byte. bind_res (key_hex rest) (\<lambda>bs. Some (Ok (byte # bs)))))"

definition KeyBytes_from_str :: "(string \<Rightarrow> bytes option) \<Rightarrow> string \<Rightarrow> (string, bytes) fallible" where
  "KeyBytes_from_str b64dec s =
     (if length s = 64 then key_hex s
      else if length s = 43 \<or> length s = 44 then
        (case b64dec s of
           Some k \<Rightarrow> if length k = KEY_SIZE then Some (Ok k) else Some (Err ''Illegal character in key'')
         | None \<Rightarrow> Some (Ok (replicate KEY_SIZE 0)))
      else Some (Err ''Illegal key size''))"

lemma key_hex_pairs: "key_hex s = map_option (map_err (\<lambda>_. ''Illegal character in key'')) (hex_pairs s)"
proof (induction s rule: key_hex.induct)
  case (3 a b rest)
  then show ?case
    by (cases "parse_u8_hex [a, b]"; cases "hex_pairs rest") (auto simp: bind_res_def split: sum.splits)
qed simp_all

lemma key_hex_fmt_hex: "key_hex (fmt_hex bs) = Some (Ok bs)"
  by (simp add: key_hex_pairs hex_pairs_fmt_hex)

lemma key_hex_length: "key_hex s = Some (Ok bs) \<Longrightarrow> length s = 2 * length bs"
  by (auto simp: key_hex_pairs dest: hex_pairs_length)

lemma KeyBytes_length: "KeyBytes_from_str b64dec s = Some (Ok k) \<Longrightarrow> length k = KEY_SIZE"
  by (auto simp: KeyBytes_from_str_def KEY_SIZE_def split: if_splits option.splits dest!: key_hex_length)

section \<open>Properties\<close>

text \<open>Keys survive their hex form.\<close>

theorem key_hex_roundtrip: "length k = KEY_SIZE \<Longrightarrow> KeyBytes_from_str b64dec (fmt_hex k) = Some (Ok k)"
  by (simp add: KeyBytes_from_str_def key_hex_fmt_hex KEY_SIZE_def)

text \<open>
  C40. Text of the length of a base64 key that does not decode is not an error: it is accepted as
  the key of 32 zero bytes.
\<close>

theorem invalid_base64_zero_key:
  assumes "length s = 43 \<or> length s = 44" "b64dec s = None"
  shows "KeyBytes_from_str b64dec s = Some (Ok (replicate KEY_SIZE 0))"
  using assms by (auto simp: KeyBytes_from_str_def)

theorem invalid_base64_zero_key_witness:
  "KeyBytes_from_str (\<lambda>_. None) (replicate 44 CHR ''!'') = Some (Ok (replicate KEY_SIZE 0))"
  by (rule invalid_base64_zero_key) simp_all

end
