(* ===== verification/DeviceApi.thy ===== *)
theory DeviceApi
  imports DeviceSafety KeyText
begin

text \<open>
  The control interface of the device (\<open>device/api.rs\<close>): the commands \<open>get=1\<close> and
  \<open>set=1\<close> of the UAPI text protocol. What the operating system answers, the parsers and printers
  of addresses and the decoders of hex and base64 are parameters. \<^const>\<open>None\<close> is a panic.
\<close>

record api_env =
  ae_hexdec :: "string \<Rightarrow> bytes option"
  ae_b64dec :: "string \<Rightarrow> bytes option"
  ae_parse_ip :: "string \<Rightarrow> IpAddr option"
  ae_parse_socket :: "string \<Rightarrow> socket_address option"
  ae_fmt_ip :: "IpAddr \<Rightarrow> string"
  ae_fmt_socket :: "socket_address \<Rightarrow> string"
  ae_bind :: "u16 \<Rightarrow> u16 option"
  ae_mark :: "u32 \<Rightarrow> bool"

datatype errno = SUCCESS | EPROTO | EINVAL | EADDRINUSE | EIO

text \<open>
  What successive calls of \<open>read_line\<close> yield: a line with its line feed, or \<^const>\<open>None\<close> for an
  error; at the end of the list they yield the empty text. \<open>pop\<close> removes the last character.
\<close>

type_synonym reader = "string option list"

definition pop_char :: "string \<Rightarrow> string" where
  "pop_char s = rev (tl (dropWhile is_utf8_cont (rev s)))"

definition parse_bool :: "string \<Rightarrow> bool option" where
  "parse_bool s = (if s = ''true'' then Some True else if s = ''false'' then Some False else None)"

section \<open>Reading\<close>

definition api_line :: "string \<Rightarrow> string \<Rightarrow> string" where
  "api_line key v = fmt_pair (key, v) @ [CHR 0x0A]"

definition api_get_peer :: "('t, 's) device_env \<Rightarrow> api_env \<Rightarrow> bytes \<Rightarrow> 't peer \<Rightarrow> string option" where
  "api_get_peer de ae k p =
     map_option (\<lambda>time.
       api_line ''public_key'' (fmt_hex k) @
       (case p_preshared_key p of Some key \<Rightarrow> api_line ''preshared_key'' (fmt_hex key) | None \<Rightarrow> []) @
       (case p_keepalive_range p of
          Some ur \<Rightarrow> api_line ''persistent_keepalive_interval'' (fmt_U32Range ur)
        | None \<Rightarrow>
            (case persistent_keepalive (t_timers (p_tunnel p)) of
               Some n \<Rightarrow> api_line ''persistent_keepalive_interval'' (fmt_u16 n) | None \<Rightarrow> [])) @
       (case p_addr p of Some addr \<Rightarrow> api_line ''endpoint'' (ae_fmt_socket ae addr) | None \<Rightarrow> []) @
       concat (map (\<lambda>(_, ip, cidr). api_line ''allowed_ip'' (ae_fmt_ip ae ip @ ''/'' @ fmt_dec cidr))
         (AllowedIps_iter (de_ips de) (p_allowed_ips p))) @
       (case time of
          Some ns \<Rightarrow> api_line ''last_handshake_time_sec'' (fmt_dec (ns div 10 ^ 9)) @
                     api_line ''last_handshake_time_nsec'' (fmt_dec (ns mod 10 ^ 9))
        | None \<Rightarrow> []) @
       api_line ''rx_bytes'' (fmt_dec (t_rx_bytes (p_tunnel p))) @
       api_line ''tx_bytes'' (fmt_dec (t_tx_bytes (p_tunnel p))))
       (time_since_last_handshake (de_env de) (p_tunnel p))"

fun api_get_peers :: "('t, 's) device_env \<Rightarrow> api_env \<Rightarrow> (bytes \<times> peer_ref) list \<Rightarrow> ('t, 's) device \<Rightarrow> string option" where
  "api_get_peers de ae [] d = Some []"
| "api_get_peers de ae ((k, a) # es) d =
     Option.bind (d_store d a) (\<lambda>p.
     Option.bind (api_get_peer de ae k p) (\<lambda>text.
     map_option (\<lambda>rest. text @ rest) (api_get_peers de ae es d)))"

definition api_get :: "('t, 's) device_env \<Rightarrow> api_env \<Rightarrow> ('t, 's) device \<Rightarrow> string option" where
  "api_get de ae d =
     map_option (\<lambda>peers.
       (case d_key_pair d of Some k \<Rightarrow> api_line ''own_public_key'' (fmt_hex (snd k)) | None \<Rightarrow> []) @
       (if d_listen_port d \<noteq> 0 then api_line ''listen_port'' (fmt_u16 (d_listen_port d)) else []) @
       (case d_fwmark d of Some m \<Rightarrow> api_line ''fwmark'' (fmt_u32 m) | None \<Rightarrow> []) @
       to_uapi_block (d_amnezia d) @ peers)
       (api_get_peers de ae (de_order de (d_peers d)) d)"

section \<open>Setting a peer\<close>

text \<open>The variables of \<open>api_set_peer\<close>.\<close>

record peer_section =
  ps_public_key :: bytes
  ps_remove :: bool
  ps_replace_ips :: bool
  ps_endpoint :: "socket_address option"
  ps_keepalive :: "u16 option"
  ps_keepalive_range :: "u32_range option"
  ps_preshared_key :: "bytes option"
  ps_allowed_ips :: "allowed_ip list"

definition new_section :: "bytes \<Rightarrow> peer_section" where
  "new_section k =
     \<lparr>ps_public_key = k, ps_remove = False, ps_replace_ips = False, ps_endpoint = None, ps_keepalive = None,
      ps_keepalive_range = None, ps_preshared_key = None, ps_allowed_ips = []\<rparr>"

definition commit_peer :: "('t, 's) device_env \<Rightarrow> peer_section \<Rightarrow> ('t, 's) device \<Rightarrow> rng \<Rightarrow> (('t, 's) device \<times> rng) option" where
  "commit_peer de ps d r =
     update_peer de (ps_public_key ps) (ps_remove ps) (ps_replace_ips ps) (ps_endpoint ps) (ps_allowed_ips ps)
       (ps_keepalive ps) (ps_keepalive_range ps) (ps_preshared_key ps) d r"

definition parse_key :: "api_env \<Rightarrow> string \<Rightarrow> (errno, bytes) fallible" where
  "parse_key ae v = map_option (map_err (\<lambda>_. EINVAL)) (KeyBytes_from_str (ae_b64dec ae) v)"

definition set_peer_key :: "api_env \<Rightarrow> string \<Rightarrow> string \<Rightarrow> peer_section \<Rightarrow> (errno, peer_section) fallible" where
  "set_peer_key ae key v ps =
     (if key = ''remove'' then Some (and_then (ok_or (parse_bool v) EINVAL) (\<lambda>b. Ok (ps\<lparr>ps_remove := b\<rparr>)))
      else if key = ''preshared_key'' then bind_res (parse_key ae v) (\<lambda>k. Some (Ok (ps\<lparr>ps_preshared_key := Some k\<rparr>)))
      else if key = ''endpoint'' then Some (and_then (ok_or (ae_parse_socket ae v) EINVAL) (\<lambda>a. Ok (ps\<lparr>ps_endpoint := Some a\<rparr>)))
      else if key = ''persistent_keepalive_interval'' then
        Some (case parse_u16 v of
                Inr n \<Rightarrow> Ok (ps\<lparr>ps_keepalive := Some n\<rparr>)
              | Inl _ \<Rightarrow> (case U32Range_parse v of Inr ur \<Rightarrow> Ok (ps\<lparr>ps_keepalive_range := Some ur\<rparr>) | Inl _ \<Rightarrow> Err EINVAL))
      else if key = ''replace_allowed_ips'' then Some (and_then (ok_or (parse_bool v) EINVAL) (\<lambda>b. Ok (ps\<lparr>ps_replace_ips := b\<rparr>)))
      else if key = ''allowed_ip'' then
        Some (case AllowedIP_from_str (ae_parse_ip ae) v of
                Inr ip \<Rightarrow> Ok (ps\<lparr>ps_allowed_ips := ps_allowed_ips ps @ [ip]\<rparr>) | Inl _ \<Rightarrow> Err EINVAL)
      else if key = ''protocol_version'' then
        Some (case parse_u32 v of Inr n \<Rightarrow> if n = 1 then Ok ps else Err EINVAL | Inl _ \<Rightarrow> Err EINVAL)
      else Some (Err EINVAL))"

fun api_set_peer ::
    "('t, 's) device_env \<Rightarrow> api_env \<Rightarrow> reader \<Rightarrow> peer_section \<Rightarrow> ('t, 's) device \<Rightarrow> rng \<Rightarrow> (errno \<times> ('t, 's) device \<times> rng) option" where
  "api_set_peer de ae [] ps d r = map_option (\<lambda>(d, r). (SUCCESS, d, r)) (commit_peer de ps d r)"
| "api_set_peer de ae (None # _) ps d r = Some (SUCCESS, d, r)"
| "api_set_peer de ae (Some line # rest) ps d r =
     (let cmd = pop_char line in
      if cmd = [] then map_option (\<lambda>(d, r). (SUCCESS, d, r)) (commit_peer de ps d r)
      else case split_once CHR ''='' cmd of
        None \<Rightarrow> Some (EPROTO, d, r)
      | Some (key, v) \<Rightarrow>
          if key = ''public_key'' then
            Option.bind (commit_peer de ps d r) (\<lambda>(d, r).
            Option.bind (parse_key ae v) (\<lambda>res.
              case res of
                Inl e \<Rightarrow> Some (e, d, r)
              | Inr k \<Rightarrow> api_set_peer de ae rest (ps\<lparr>ps_public_key := k, ps_allowed_ips := []\<rparr>) d r))
          else
            Option.bind (set_peer_key ae key v ps) (\<lambda>res.
              case res of Inl e \<Rightarrow> Some (e, d, r) | Inr ps \<Rightarrow> api_set_peer de ae rest ps d r))"

section \<open>Setting the device\<close>

definition amnezia_interface_keys :: "string list" where
  "amnezia_interface_keys =
     [''jc'', ''jmin'', ''jmax'', ''s1'', ''s2'', ''s3'', ''s4'', ''h1'', ''h2'', ''h3'', ''h4'',
      ''i1'', ''i2'', ''i3'', ''i4'', ''i5'', ''header_protection_key'', ''content_padding_addition'',
      ''rekey_after_time'', ''rekey_timeout'', ''reject_after_time'', ''keepalive_timeout'',
      ''max_handshake_attempts'', ''random_trailers'', ''disable_cookies'']"

definition is_amnezia_interface_key :: "string \<Rightarrow> bool" where
  "is_amnezia_interface_key key \<longleftrightarrow> key \<in> set amnezia_interface_keys"

definition apply_amnezia_block ::
    "('t, 's) device_env \<Rightarrow> api_env \<Rightarrow> string \<Rightarrow> ('t, 's) device \<Rightarrow> rng \<Rightarrow> (errno \<times> ('t, 's) device \<times> rng) option" where
  "apply_amnezia_block de ae block d r =
     (if block = [] then Some (SUCCESS, d, r)
      else Option.bind (Amnezia3Config_parse (ae_hexdec ae) (to_uapi_block (d_amnezia d) @ block)) (\<lambda>res.
        case res of
          Inl _ \<Rightarrow> Some (EINVAL, d, r)
        | Inr config \<Rightarrow> map_option (\<lambda>(d, r). (SUCCESS, d, r)) (set_amnezia_config de config d r)))"

definition set_interface_key ::
    "('t, 's) device_env \<Rightarrow> api_env \<Rightarrow> string \<Rightarrow> string \<Rightarrow> ('t, 's) device \<Rightarrow> rng \<Rightarrow> (errno \<times> ('t, 's) device \<times> rng) option" where
  "set_interface_key de ae key v d r =
     (if key = ''private_key'' then
        Option.bind (parse_key ae v) (\<lambda>res.
          case res of
            Inl e \<Rightarrow> Some (e, d, r)
          | Inr k \<Rightarrow> map_option (\<lambda>(d, r). (SUCCESS, d, r)) (Device_set_key de k d r))
      else if key = ''listen_port'' then
        Some (case parse_u16 v of
                Inl _ \<Rightarrow> (EINVAL, d, r)
              | Inr port \<Rightarrow> (let (ok, d) = open_listen_socket (ae_bind ae port) port d in (if ok then SUCCESS else EADDRINUSE, d, r)))
      else if key = ''fwmark'' then
        Some (case parse_u32 v of
                Inl _ \<Rightarrow> (EINVAL, d, r)
              | Inr mark \<Rightarrow> (let (ok, d) = set_fwmark (ae_mark ae mark) mark d in (if ok then SUCCESS else EADDRINUSE, d, r)))
      else if key = ''replace_peers'' then
        Some (case parse_bool v of
                None \<Rightarrow> (EINVAL, d, r)
              | Some b \<Rightarrow> (SUCCESS, if b then clear_peers de d else d, r))
      else Some (EINVAL, d, r))"

fun api_set_lines ::
    "('t, 's) device_env \<Rightarrow> api_env \<Rightarrow> reader \<Rightarrow> string \<Rightarrow> ('t, 's) device \<Rightarrow> rng \<Rightarrow> (errno \<times> ('t, 's) device \<times> rng) option" where
  "api_set_lines de ae [] block d r = apply_amnezia_block de ae block d r"
| "api_set_lines de ae (None # _) block d r = Some (SUCCESS, d, r)"
| "api_set_lines de ae (Some line # rest) block d r =
     (let cmd = pop_char line in
      if cmd = [] then apply_amnezia_block de ae block d r
      else case split_once CHR ''='' cmd of
        None \<Rightarrow> Some (EPROTO, d, r)
      | Some (key, v) \<Rightarrow>
          if is_amnezia_interface_key key then api_set_lines de ae rest (block @ api_line key v) d r
          else if key = ''public_key'' then
            Option.bind (parse_key ae v) (\<lambda>res.
              case res of
                Inl e \<Rightarrow> Some (e, d, r)
              | Inr k \<Rightarrow>
                  Option.bind (apply_amnezia_block de ae block d r) (\<lambda>(status, d, r).
                    if status \<noteq> SUCCESS then Some (status, d, r) else api_set_peer de ae rest (new_section k) d r))
          else
            Option.bind (set_interface_key de ae key v d r) (\<lambda>(status, d, r).
              if status \<noteq> SUCCESS then Some (status, d, r) else api_set_lines de ae rest block d r))"

definition api_set ::
    "('t, 's) device_env \<Rightarrow> api_env \<Rightarrow> reader \<Rightarrow> ('t, 's) device \<Rightarrow> rng \<Rightarrow> (errno \<times> ('t, 's) device \<times> rng) option" where
  "api_set de ae lines d r = api_set_lines de ae lines [] d r"

text \<open>One command of a client: the status that is reported, and the text a \<open>get\<close> writes.\<close>

definition api_command ::
    "('t, 's) device_env \<Rightarrow> api_env \<Rightarrow> string \<Rightarrow> reader \<Rightarrow> ('t, 's) device \<Rightarrow> rng \<Rightarrow>
     (errno \<times> string \<times> ('t, 's) device \<times> rng) option" where
  "api_command de ae line lines d r =
     (let cmd = pop_char line in
      if cmd = ''get=1'' then map_option (\<lambda>text. (SUCCESS, text, d, r)) (api_get de ae d)
      else if cmd = ''set=1'' then map_option (\<lambda>(status, d, r). (status, [], d, r)) (api_set de ae lines d r)
      else Some (EIO, [], d, r))"

section \<open>The invariant under commands\<close>

lemma commit_peer_ok:
  assumes "device_env_ok de ips routes" "device_ok ips routes d" "commit_peer de ps d r = Some (d', r')"
  shows "device_ok ips routes d'"
  using update_peer_ok [OF assms(1,2)] assms(3) by (simp add: commit_peer_def)

lemma api_set_peer_line:
  assumes de: "device_env_ok de ips routes" and ok: "device_ok ips routes d"
    and run: "api_set_peer de ae (Some line # rest) ps d r = Some (e, d', r')"
    and IH: "\<And>ps d r. device_ok ips routes d \<Longrightarrow> api_set_peer de ae rest ps d r = Some (e, d', r') \<Longrightarrow> device_ok ips routes d'"
  shows "device_ok ips routes d'"
proof -
  let ?cmd = "pop_char line"
  have commit: "device_ok ips routes d1" if "commit_peer de ps d r = Some (d1, r1)" for d1 r1
    using commit_peer_ok [OF de ok that] .
  show ?thesis
  proof (cases "split_once CHR ''='' ?cmd")
    case None
    then show ?thesis using ok run commit by (auto simp: Let_def split: if_splits)
  next
    case (Some kv)
    obtain key v where kv: "split_once CHR ''='' ?cmd = Some (key, v)" using Some by (cases kv) simp
    then have cmd: "?cmd \<noteq> []" by auto
    show ?thesis
    proof (cases "key = ''public_key''")
      case True
      then obtain d1 r1 res where step: "commit_peer de ps d r = Some (d1, r1)" "parse_key ae v = Some res"
          "(case res of Inl e \<Rightarrow> Some (e, d1, r1)
            | Inr k \<Rightarrow> api_set_peer de ae rest (ps\<lparr>ps_public_key := k, ps_allowed_ips := []\<rparr>) d1 r1) = Some (e, d', r')"
        using run kv cmd by (auto simp: Let_def bind_eq_Some_conv)
      show ?thesis
      proof (cases res)
        case (Inr k)
        then show ?thesis using IH [OF commit [OF step(1)]] step by simp
      qed (use step commit in simp)
    next
      case False
      then obtain res where step: "set_peer_key ae key v ps = Some res"
          "(case res of Inl e \<Rightarrow> Some (e, d, r) | Inr ps \<Rightarrow> api_set_peer de ae rest ps d r) = Some (e, d', r')"
        using run kv cmd by (auto simp: Let_def bind_eq_Some_conv)
      show ?thesis
      proof (cases res)
        case (Inr ps')
        then show ?thesis using IH [OF ok] step by simp
      qed (use step ok in simp)
    qed
  qed
qed

lemma api_set_peer_ok:
  assumes de: "device_env_ok de ips routes"
  shows "device_ok ips routes d \<Longrightarrow> api_set_peer de ae lines ps d r = Some (e, d', r') \<Longrightarrow> device_ok ips routes d'"
proof (induction lines arbitrary: ps d r)
  case Nil
  then show ?case using commit_peer_ok [OF de] by auto
next
  case (Cons l rest)
  show ?case
  proof (cases l)
    case None
    then show ?thesis using Cons.prems by simp
  next
    case (Some line)
    show ?thesis
      using Cons.prems Cons.IH unfolding Some by (rule api_set_peer_line [OF de])
  qed
qed

lemma apply_amnezia_block_ok:
  assumes "device_env_ok de ips routes" "device_ok ips routes d" "apply_amnezia_block de ae block d r = Some (e, d', r')"
  shows "device_ok ips routes d'"
proof (cases "block = []")
  case False
  then obtain res where res: "Amnezia3Config_parse (ae_hexdec ae) (to_uapi_block (d_amnezia d) @ block) = Some res"
    using assms(3) by (auto simp: apply_amnezia_block_def bind_eq_Some_conv)
  then show ?thesis
    using assms(2,3) False set_amnezia_config_ok [OF assms(1,2)] by (cases res) (auto simp: apply_amnezia_block_def)
qed (use assms in \<open>simp add: apply_amnezia_block_def\<close>)

lemma set_interface_key_ok:
  assumes de: "device_env_ok de ips routes" and ok: "device_ok ips routes d"
    and run: "set_interface_key de ae key v d r = Some (e, d', r')"
  shows "device_ok ips routes d'"
proof -
  have key: "device_ok ips routes d'" if k: "key = ''private_key''"
  proof -
    obtain res where "parse_key ae v = Some res" using run k by (auto simp: set_interface_key_def bind_eq_Some_conv)
    then show ?thesis
      using run k ok Device_set_key_ok [OF ok] by (cases res) (auto simp: set_interface_key_def)
  qed
  have listen: "device_ok ips routes d'" if "key = ''listen_port''"
    using run that ok open_listen_socket_ok [OF ok] by (auto simp: set_interface_key_def split: sum.splits prod.splits) (metis snd_conv)
  have mark: "device_ok ips routes d'" if "key = ''fwmark''"
    using run that ok set_fwmark_ok [OF ok] by (auto simp: set_interface_key_def split: sum.splits prod.splits) (metis snd_conv)
  show ?thesis
    using key listen mark run ok clear_peers_ok [OF de ok]
    by (cases "key = ''private_key'' \<or> key = ''listen_port'' \<or> key = ''fwmark''")
       (auto simp: set_interface_key_def split: if_splits option.splits)
qed

lemma api_set_line:
  assumes de: "device_env_ok de ips routes" and ok: "device_ok ips routes d"
    and run: "api_set_lines de ae (Some line # rest) block d r = Some (e, d', r')"
    and IH: "\<And>block d r. device_ok ips routes d \<Longrightarrow> api_set_lines de ae rest block d r = Some (e, d', r') \<Longrightarrow> device_ok ips routes d'"
  shows "device_ok ips routes d'"
proof -
  let ?cmd = "pop_char line"
  have block: "device_ok ips routes d1" if "apply_amnezia_block de ae block d r = Some (e1, d1, r1)" for e1 d1 r1
    using apply_amnezia_block_ok [OF de ok that] .
  show ?thesis
  proof (cases "split_once CHR ''='' ?cmd")
    case None
    then show ?thesis using ok run block by (auto simp: Let_def split: if_splits)
  next
    case (Some kv)
    obtain key v where kv: "split_once CHR ''='' ?cmd = Some (key, v)" using Some by (cases kv) simp
    then have cmd: "?cmd \<noteq> []" by auto
    consider "is_amnezia_interface_key key" | (peer) "\<not> is_amnezia_interface_key key" "key = ''public_key''"
      | (other) "\<not> is_amnezia_interface_key key" "key \<noteq> ''public_key''" by blast
    then show ?thesis
    proof cases
      case 1
      then show ?thesis using run kv cmd IH [OF ok] by (auto simp: Let_def)
    next
      case peer
      then obtain res where step: "parse_key ae v = Some res"
          "(case res of Inl e \<Rightarrow> Some (e, d, r)
            | Inr k \<Rightarrow> Option.bind (apply_amnezia_block de ae block d r) (\<lambda>(status, d, r).
                if status \<noteq> SUCCESS then Some (status, d, r) else api_set_peer de ae rest (new_section k) d r)) = Some (e, d', r')"
        using run kv cmd by (auto simp: Let_def bind_eq_Some_conv)
      show ?thesis
      proof (cases res)
        case (Inr k)
        then obtain e1 d1 r1 where b: "apply_amnezia_block de ae block d r = Some (e1, d1, r1)"
            "(if e1 \<noteq> SUCCESS then Some (e1, d1, r1) else api_set_peer de ae rest (new_section k) d1 r1) = Some (e, d', r')"
          using step(2) by (auto simp: bind_eq_Some_conv)
        then show ?thesis using block [OF b(1)] api_set_peer_ok [OF de block [OF b(1)]] by (auto split: if_splits)
      qed (use step ok in simp)
    next
      case other
      then obtain e1 d1 r1 where b: "set_interface_key de ae key v d r = Some (e1, d1, r1)"
          "(if e1 \<noteq> SUCCESS then Some (e1, d1, r1) else api_set_lines de ae rest block d1 r1) = Some (e, d', r')"
        using run kv cmd by (auto simp: Let_def bind_eq_Some_conv)
      note ok1 = set_interface_key_ok [OF de ok b(1)]
      show ?thesis using b(2) ok1 IH [OF ok1] by (auto split: if_splits)
    qed
  qed
qed

lemma api_set_lines_ok:
  assumes de: "device_env_ok de ips routes"
  shows "device_ok ips routes d \<Longrightarrow> api_set_lines de ae lines block d r = Some (e, d', r') \<Longrightarrow> device_ok ips routes d'"
proof (induction lines arbitrary: block d r)
  case Nil
  then show ?case using apply_amnezia_block_ok [OF de] by simp
next
  case (Cons l rest)
  show ?case
  proof (cases l)
    case None
    then show ?thesis using Cons.prems by simp
  next
    case (Some line)
    show ?thesis
      using Cons.prems Cons.IH unfolding Some by (rule api_set_line [OF de])
  qed
qed

section \<open>Lines of a command\<close>

lemma pop_char_line [simp]: "pop_char (s @ [CHR 0x0A]) = s"
proof -
  have "\<not> is_utf8_cont CHR 0x0A" by code_simp
  then show ?thesis by (simp add: pop_char_def)
qed

lemma api_line_split [simp]:
  assumes "CHR ''='' \<notin> set key"
  shows "pop_char (api_line key v) = fmt_pair (key, v)" "split_once CHR ''='' (fmt_pair (key, v)) = Some (key, v)"
  using assms by (simp_all add: api_line_def) (simp add: fmt_pair_def split_once_append)

lemma pop_char_newline [simp]: "pop_char [CHR 0x0A] = []"
  using pop_char_line [of "[]"] by simp

lemma fmt_pair_not_Nil [simp]: "fmt_pair kv \<noteq> []"
  by (simp add: fmt_pair_def)

lemma rust_lines_append:
  assumes "\<And>l. l \<in> set ls \<Longrightarrow> CHR 0x0A \<notin> set l \<and> (l = [] \<or> last l \<noteq> CHR 0x0D)"
  shows "rust_lines (concat (map (\<lambda>l. l @ [CHR 0x0A]) ls) @ s) = ls @ rust_lines s"
proof -
  have "split_char CHR 0x0A (concat (map (\<lambda>l. l @ [CHR 0x0A]) ls) @ s) = ls @ split_char CHR 0x0A s"
    using assms by (induction ls) (simp_all add: split_char_append)
  moreover have "map strip_cr ls = ls"
    using assms by (intro map_idI strip_cr_id) blast
  moreover have "split_char CHR 0x0A s \<noteq> []" by (cases s) (simp_all split: list.splits)
  ultimately show ?thesis by (simp add: rust_lines_def butlast_append Let_def)
qed

lemma bind_res_Ok: "bind_res (Some (Inr x)) f = f x"
  by (simp add: bind_res_def)

lemma parse_config_lines_append:
  "parse_config_lines hexdec (xs @ ys) st = bind_res (parse_config_lines hexdec xs st) (parse_config_lines hexdec ys)"
  by (induction hexdec xs st rule: parse_config_lines.induct) (auto simp: bind_res_assoc bind_res_Ok intro: bind_res_cong)

text \<open>The variables of the parser once it has read the block of a configuration.\<close>

definition config_state :: "amnezia3_config \<Rightarrow> uapi_state" where
  "config_state c =
     (if a3_headers c = HeaderConfig_wireguard_compatible
      then \<lparr>us_config = c, us_headers = HeaderConfig_wireguard_compatible, us_saw_header = False\<rparr>
      else \<lparr>us_config = c\<lparr>a3_headers := HeaderConfig_wireguard_compatible\<rparr>, us_headers = a3_headers c, us_saw_header = True\<rparr>)"

section \<open>Properties\<close>

text \<open>
  C20. Every command of a client keeps the maps of peers consistent, whatever its lines are and
  wherever it stops with an error.
\<close>

theorem api_command_invariant:
  assumes "device_env_ok de ips routes" "device_ok ips routes d" "api_command de ae line lines d r = Some (e, text, d', r')"
  shows "device_ok ips routes d'"
  using assms(2,3) api_set_lines_ok [OF assms(1,2)]
  by (auto simp: api_command_def api_set_def Let_def split: if_splits)

text \<open>
  C21. The AmneziaWG lines of a \<open>set\<close> command are an overlay: they are read as if the
  reader had just read the present configuration of the device, so a key that is absent keeps
  its value, and a block that is rejected leaves the device as it was.
\<close>

theorem amnezia_block_overlays:
  assumes "a3_wf (d_amnezia d)" "Amnezia3Config_validate (d_amnezia d) = Ok ()" "hex_law (ae_hexdec ae)" "block \<noteq> []"
  shows "apply_amnezia_block de ae block d r =
    (case bind_res (parse_config_lines (ae_hexdec ae) (rust_lines block) (config_state (d_amnezia d))) finish_config of
       None \<Rightarrow> None
     | Some (Inl _) \<Rightarrow> Some (EINVAL, d, r)
     | Some (Inr c) \<Rightarrow> map_option (\<lambda>(d, r). (SUCCESS, d, r)) (set_amnezia_config de c d r))"
proof -
  let ?c = "d_amnezia d"
  have pr: "a3_printable ?c" by (rule a3_wf_printable [OF assms(1,2)])
  note pairs = uapi_pairs_ok [OF pr]
  have "rust_lines (to_uapi_block ?c @ block) = map fmt_pair (uapi_pairs ?c) @ rust_lines block"
    unfolding to_uapi_block_def using pairs by (intro rust_lines_append) (auto simp: list_all_iff dest!: fmt_pair_line)
  then have "Amnezia3Config_parse (ae_hexdec ae) (to_uapi_block ?c @ block) =
      bind_res (parse_config_lines (ae_hexdec ae) (rust_lines block) (config_state ?c)) finish_config"
    using set_uapi_pairs [OF pr assms(3)] pairs
    by (simp add: Amnezia3Config_parse_def parse_config_lines_append parse_config_lines_pairs bind_res_assoc bind_res_Ok config_state_def)
  then show ?thesis
    using assms(4) by (simp add: apply_amnezia_block_def split: option.split sum.split)
qed

text \<open>
  C37. The settings of one peer leak into the next section of the same command: after a peer was
  removed, the next peer that is only named is removed as well.
\<close>

theorem api_remove_leaks:
  assumes "device_env_ok de ips routes" "device_ok ips routes d" "parse_key ae v = Some (Ok k2)"
  shows "\<exists>d'. api_set_peer de ae [Some (api_line ''remove'' ''true''), Some (api_line ''public_key'' v), Some [CHR 0x0A]]
      (new_section k1) d r = Some (SUCCESS, d', r) \<and>
    map_of (d_peers d') k1 = None \<and> map_of (d_peers d') k2 = None"
proof -
  have total: "\<exists>d'. remove_peer de k d = Some d' \<and> d_peers d' = filter (\<lambda>(k', _). k' \<noteq> k) (d_peers d)"
    if ok: "device_ok ips routes d" for k d
  proof (cases "map_of (d_peers d) k")
    case None
    then have "filter (\<lambda>(k', _). k' \<noteq> k) (d_peers d) = d_peers d"
      by (force simp: map_of_eq_None_iff filter_id_conv)
    then show ?thesis using None by (simp add: remove_peer_def)
  next
    case (Some a)
    then have "live d a" by (auto simp: live_def dest!: map_of_SomeD intro: rev_image_eqI)
    then obtain p where "d_store d a = Some p" using device_okD(3) [OF ok] by blast
    then show ?thesis using Some by (simp add: remove_peer_def)
  qed
  obtain d1 where d1: "remove_peer de k1 d = Some d1" "d_peers d1 = filter (\<lambda>(k', _). k' \<noteq> k1) (d_peers d)"
    using total [OF assms(2)] by blast
  obtain d2 where d2: "remove_peer de k2 d1 = Some d2" "d_peers d2 = filter (\<lambda>(k', _). k' \<noteq> k2) (d_peers d1)"
    using total [OF remove_peer_ok [OF assms(1,2) d1(1)]] by blast
  have "map_of (d_peers d2) k1 = None" "map_of (d_peers d2) k2 = None"
    by (auto simp: d1 d2 map_of_eq_None_iff)
  then show ?thesis
    using d1(1) d2(1) assms(3)
    by (simp add: set_peer_key_def parse_bool_def commit_peer_def update_peer_def new_section_def Let_def)
qed

text \<open>
  A command that names a peer of the device and does not remove it panics.
\<close>

theorem api_existing_peer_panics:
  assumes "parse_key ae v = Some (Ok k)" "map_of (d_peers d) k \<noteq> None"
  shows "api_set de ae [Some (api_line ''public_key'' v), Some [CHR 0x0A]] d r = None"
proof -
  have "\<not> is_amnezia_interface_key ''public_key''" by code_simp
  then show ?thesis
    using assms by (simp add: api_set_def apply_amnezia_block_def commit_peer_def update_peer_def new_section_def Let_def)
qed

section \<open>Examples\<close>

definition sample_api_env :: api_env where
  "sample_api_env =
     \<lparr>ae_hexdec = sample_hexdec, ae_b64dec = \<lambda>_. None, ae_parse_ip = \<lambda>_. None, ae_parse_socket = \<lambda>_. None,
      ae_fmt_ip = \<lambda>_. ''ip'', ae_fmt_socket = \<lambda>_. ''addr'', ae_bind = \<lambda>p. Some p, ae_mark = \<lambda>_. True\<rparr>"

lemma sample_key_parses: "parse_key sample_api_env (fmt_hex (cr_pub sample_crypto [4])) = Some (Ok (cr_pub sample_crypto [4]))"
  by (simp add: parse_key_def key_hex_roundtrip KEY_SIZE_def length_pub [OF sample_crypto_ok])

theorem api_command_invariant_witness:
  "\<exists>d'. api_command sample_device_env sample_api_env ''set=1.'' [Some (api_line ''listen_port'' ''51820''), Some [CHR 0x0A]] sample_device (\<lambda>i. 1) =
      Some (SUCCESS, [], d', \<lambda>i. 1) \<and> device_ok map_of map_of d'"
proof -
  have cmd: "pop_char ''set=1.'' = ''set=1''" "parse_u16 ''51820'' = Ok 51820" "\<not> is_amnezia_interface_key ''listen_port''"
    by code_simp+
  then obtain d' where run: "api_command sample_device_env sample_api_env ''set=1.''
      [Some (api_line ''listen_port'' ''51820''), Some [CHR 0x0A]] sample_device (\<lambda>i. 1) = Some (SUCCESS, [], d', \<lambda>i. 1)"
    by (simp add: api_command_def api_set_def set_interface_key_def open_listen_socket_def sample_api_env_def apply_amnezia_block_def Let_def)
  show ?thesis
    using api_command_invariant [OF sample_device_env_ok sample_device_ok run] run by blast
qed

definition sample_configured :: "((ip_network \<times> unit) list, (ip_network \<times> peer_ref) list) device" where
  "sample_configured = sample_device\<lparr>d_key_pair := None, d_amnezia := sample_config\<rparr>"

theorem amnezia_block_overlays_witness:
  "apply_amnezia_block sample_device_env sample_api_env (api_line ''jc'' ''5'') sample_configured (\<lambda>i. 1) =
     Some (SUCCESS, sample_configured\<lparr>d_amnezia := sample_config\<lparr>a3_junk := \<lparr>jc_count = 5, jc_min_size = 10, jc_max_size = 50\<rparr>\<rparr>\<rparr>, \<lambda>i. 1)"
proof -
  have "a3_wf sample_config" "Amnezia3Config_validate sample_config = Ok ()"
    by code_simp+
  moreover have "bind_res (parse_config_lines sample_hexdec (rust_lines (api_line ''jc'' ''5'')) (config_state sample_config)) finish_config =
      Some (Ok (sample_config\<lparr>a3_junk := \<lparr>jc_count = 5, jc_min_size = 10, jc_max_size = 50\<rparr>\<rparr>))"
    by code_simp
  moreover have "sample_config \<noteq> sample_config\<lparr>a3_junk := \<lparr>jc_count = 5, jc_min_size = 10, jc_max_size = 50\<rparr>\<rparr>"
    by code_simp
  ultimately show ?thesis
    using amnezia_block_overlays [of sample_configured sample_api_env "api_line ''jc'' ''5''" sample_device_env "\<lambda>i. 1"] sample_hexdec_law
    by (simp add: sample_configured_def sample_api_env_def api_line_def set_amnezia_config_def Let_def)
qed

theorem api_remove_leaks_witness:
  "map_of (d_peers sample_device) (cr_pub sample_crypto [4]) \<noteq> None \<and>
   (\<exists>d'. api_set_peer sample_device_env sample_api_env
      [Some (api_line ''remove'' ''true''), Some (api_line ''public_key'' (fmt_hex (cr_pub sample_crypto [4]))), Some [CHR 0x0A]]
      (new_section [9]) sample_device (\<lambda>i. 1) = Some (SUCCESS, d', \<lambda>i. 1) \<and> map_of (d_peers d') (cr_pub sample_crypto [4]) = None)"
  using api_remove_leaks [OF sample_device_env_ok sample_device_ok sample_key_parses, of "[9]" "\<lambda>i. 1"]
  by (auto simp: sample_device_def)

theorem api_existing_peer_panics_witness:
  "api_set sample_device_env sample_api_env
     [Some (api_line ''public_key'' (fmt_hex (cr_pub sample_crypto [4]))), Some [CHR 0x0A]] sample_device (\<lambda>i. 1) = None"
  by (rule api_existing_peer_panics [OF sample_key_parses]) (simp add: sample_device_def)

end
