(* ===== verification/Spec2Isabelle.thy ===== *)
theory Spec2Isabelle
  imports Phobos DeviceApi
begin

text \<open>
  awgtun is a userspace WireGuard implementation with the AmneziaWG 2.0, 3.0 and 3.1 obfuscation
  and the Phobos transport disguise. This library models the program component by component
  and proves the properties that make each component correct.

  \<^bold>\<open>The program.\<close> A device (\<open>src/awgtun/src/device/\<close>) owns a tun interface, two UDP sockets and a
  set of peers. Each peer has a tunnel (\<open>noise/mod.rs\<close>, \<open>Tunn\<close>), which runs the Noise handshake
  (\<open>noise/handshake.rs\<close>), seals and opens data messages in sessions (\<open>noise/session.rs\<close>) and
  drives itself by timers (\<open>noise/timers.rs\<close>). An outbound IP packet is routed to a peer by its
  destination, sealed by the peer's current session, framed with a random prefix, header
  protection and a trailer (\<open>amnezia.rs\<close>) and sent. An inbound datagram is classified and
  deframed, its MACs are checked by the rate limiter (\<open>noise/rate_limiter.rs\<close>), the peer is found
  by key or index, the message is opened, and the packet is written to the interface when the
  peer is allowed its source. The control interface (\<open>device/api.rs\<close>) reads and changes keys,
  peers and the AmneziaWG configuration as text. Phobos (\<open>phobos/mod.rs\<close>) wraps datagrams as
  STUN or RTP.

  \<^bold>\<open>Conventions.\<close> Machine integers are words of their width, or numbers with the bound written
  out. \<open>Result\<close> is a sum (\<open>Err\<close>, \<open>Ok\<close>), a panic is \<^const>\<open>None\<close>, and a call that changes state
  returns the new state. Randomness is a tape of bytes that calls consume (\<^typ>\<open>rng\<close>); clock
  readings are arguments, the same for the whole of one call. An output buffer is its length.
  A \<open>str\<close> is its UTF-8 bytes. Shared peers (\<open>Arc\<close>) live in a store and are referred to by
  address.

  \<^bold>\<open>The theories.\<close>

  \<^item> \<open>Prelude\<close>: words, results, byte strings and their little- and big-endian codecs; the locales
    \<open>byte_codec\<close> and \<open>symmetric_mask\<close>.
  \<^item> \<open>Randomness\<close> (\<open>amnezia.rs\<close>): \<open>RandomSource\<close> and the buffered generator \<open>FastRngState\<close>. The
    buffered generator refines the concatenation of its keystreams; draws are in range.
  \<^item> \<open>RustStr\<close>: the parts of the standard library's text functions the sources use; the locale
    \<open>printer_parser\<close>.
  \<^item> \<open>AmneziaConfig\<close>, \<open>Cps\<close>, \<open>AmneziaUapi\<close> (\<open>amnezia.rs\<close>): header ranges, paddings, junk, timing
    ranges, signature chains I1 to I5 and the whole configuration. Checks mean what they say
    about the sets of values, generated packets have the computed length, and what is printed
    parses back.
  \<^item> \<open>Packets\<close> (\<open>noise/mod.rs\<close>, \<open>noise/errors.rs\<close>, \<open>amnezia.rs\<close>): \<open>HeaderProtection\<close>,
    \<open>PacketClassifier\<close>, the message parser and the deframing of \<open>decapsulate\<close>. A datagram is
    mistaken when it also reads as a kind the classifier tries earlier. A receiver recovers exactly
    the message that was framed, for every kind, prefix, trailer and four paddings, if and only if
    the datagram is not mistaken; \<open>unmistakable\<close> names the configurations that rule it out.
  \<^item> \<open>ReplayWindow\<close> (\<open>noise/session.rs\<close>): the bit map of \<open>ReceivingKeyCounterValidator\<close> refines a
    set of counters with a bound; the locale \<open>replay_filter\<close> is what a session relies on.
  \<^item> \<open>Crypto\<close>, \<open>Session\<close>, \<open>Handshake\<close> (\<open>noise/session.rs\<close>, \<open>noise/handshake.rs\<close>): the wrappers of
    the primitives, data messages and both roles of the handshake. Both ends derive paired keys,
    nothing is accepted twice, nonces do not repeat, and a rejected message changes nothing.
    \<open>hs_step\<close> is the step relation of a handshake state, for the calls other than a change of the
    static key.
  \<^item> \<open>RateLimiter\<close> (\<open>noise/rate_limiter.rs\<close>): counters, cookies and \<open>verify_packet\<close>. A sender that
    answers a cookie reply passes, and the number admitted without a cookie is bounded
    unless cookies are disabled.
  \<^item> \<open>Timers\<close>, \<open>Tunn\<close>, \<open>TunnTimers\<close> (\<open>sleepyinstant/\<close>, \<open>noise/timers.rs\<close>, \<open>noise/mod.rs\<close>): the clock,
    the timer table, the record of a tunnel and every method of it, \<open>update_timers\<close> included.
  \<^item> \<open>Tunnel\<close>, \<open>Connection\<close>, \<open>Robust\<close>: what tunnels promise. Two ends connect and deliver a stream
    of packets as long as no datagram is mistaken; in every state of the relation \<open>tunn_step\<close> the invariant holds, no datagram
    causes a panic, calls return, and old keys are dropped.
  \<^item> \<open>Phobos\<close> (\<open>phobos/mod.rs\<close>): configuration, checksums, keystream, STUN and RTP frames, \<open>wrap\<close>,
    \<open>unwrap\<close> and the Binding exchange. Unwrapping inverts wrapping, but for two
    collisions that it drops, and never panics; the table
    driven checksum equals the bitwise one.
  \<^item> \<open>KeyText\<close> (\<open>serialization.rs\<close>) and \<open>PeerIndex\<close> (\<open>IndexLfsr\<close> of \<open>device/mod.rs\<close>): key text, and
    peer indices that stay distinct until the register is exhausted.
  \<^item> \<open>Device\<close> (\<open>device/mod.rs\<close>, \<open>device/peer.rs\<close>, \<open>device/allowed_ips.rs\<close>): the record of a device
    and the operations on peers, keys and configuration, with the invariant \<open>device_ok\<close>.
  \<^item> \<open>DeviceEvents\<close> (the handlers of \<open>device/mod.rs\<close>): one datagram, one interface packet, one tick,
    and the handlers that process a batch of them. The locale \<open>event_handler\<close> is the contract of
    a handler; all four are instances.
  \<^item> \<open>DeviceSafety\<close>: runs of a device (\<open>device_run\<close>), the invariant in every run, cryptokey routing in
    both directions, delivery of a packet through the device, removal of a peer, and the two
    pollers of the MTU.
  \<^item> \<open>DeviceApi\<close> (\<open>device/api.rs\<close>): \<open>get\<close> and \<open>set\<close>. Every command keeps the invariant, and an
    AmneziaWG block overlays the configuration in force.

  Some theorems state where the code falls short of its intent: among them a queued packet sent
  twice, panics on particular configurations, a replay after the counter wraps, a cookie-like RTP
  timestamp, a new MTU that the tunnels miss, settings that leak from one peer section to the next, and base64 text that does not
  decode but yields the zero key.

  \<^bold>\<open>Parameters.\<close> Code outside the sources is an argument: the primitives of the cryptographic crates
  (\<open>crypto\<close>, laws \<open>crypto_ok\<close>: lengths, opening exactly what was sealed, commuting Diffie-Hellman),
  the ChaCha20 keystream, base64 and hex coders, the tables of \<open>ip_network_table\<close> (\<open>table_law\<close>:
  lookup after insertion and removal, longest match), the order of a \<open>HashMap\<close>, parsers and printers
  of addresses, and what the operating system answers. Concrete instances (\<open>sample_crypto\<close>,
  \<open>list_table\<close>, \<open>sample_device_env\<close>) satisfy the laws.

  \<^bold>\<open>Loops.\<close> Most recursions are structural or have a termination proof. Three loops may fail to end
  and are partial functions: \<open>clear_words\<close>, which is proved to return unless the counter is close to
  wrapping, \<open>flush_queue\<close>, which is proved to return for a tunnel in good order, and
  \<open>random_index\<close>, which is proved to return on every tape that has a value other than zero at one
  of its draws. \<open>drain_loop\<close> has fuel, one more than the length of the queue it empties, which
  \<open>drain_loop_eq\<close> shows to be enough. \<open>MAX_PREFIX_DRAWS\<close>, \<open>MAX_QUEUE_DEPTH\<close> and \<open>MAX_ITR\<close> are the constants of the source.

  \<^bold>\<open>Not modelled.\<close> System calls and threads: \<open>epoll.rs\<close>, \<open>kqueue.rs\<close>, \<open>tun_linux.rs\<close>,
  \<open>tun_darwin.rs\<close>, \<open>drop_privileges.rs\<close>, the lock of \<open>dev_lock.rs\<close> (an operation of the model is
  atomic), socket options and the registration of handlers; shutting down a connected
  socket, whose result the source unwraps, is taken to succeed. Floating point: the loss estimate and
  the statistics of a tunnel. Log output and \<open>Debug\<close>. The pointer and array conversions of the
  C and JNI interfaces, the command line, tests and benchmarks. The listening socket's handler
  takes the datagrams it reads as a list; its budget only counts some of them, so the list has
  no bound in the model.
\<close>

end
